(* ===== verification/Prelude.thy ===== *)
theory Prelude
  imports Main "HOL-Library.Word"
begin

section \<open>Shared vocabulary of the development\<close>

text \<open>
  The generic part of the library: Go's two ways of not returning a value (a run-time panic
  and a non-nil \<open>error\<close>), the sequencing of computations that may do either, the lemma
  collections the component theories fill, lemmas on lists and words that several components
  need, and the contract of a component that is driven by a sequence of inputs.
\<close>

unbundle bit_operations_syntax

subsection \<open>Collections\<close>

named_theorems go_int_simps \<open>arithmetic of Go's int on values that do not wrap\<close>
named_theorems slice_simps \<open>indexing, reslicing and copying of slices in range\<close>
named_theorems wire_simps \<open>reading and writing of wire values\<close>

subsection \<open>Panics and errors\<close>

text \<open>
  A Go call that returns \<open>(T, error)\<close>, or that may panic, is a value of the sum
  \<open>'e fault + 'a\<close>: \<open>Inl Panic\<close> is a run-time panic (index or slice bounds out of range,
  a negative \<open>make\<close>), \<open>Inl (Fail e)\<close> a returned non-nil error, \<open>Inr x\<close> a normal result.
\<close>

datatype 'e fault = Panic | Fail 'e

definition andThen :: "'f + 'a \<Rightarrow> ('a \<Rightarrow> 'f + 'b) \<Rightarrow> 'f + 'b" where
  "andThen m k = (case m of Inl e \<Rightarrow> Inl e | Inr x \<Rightarrow> k x)"

lemma andThen_simps [simp]:
  "andThen (Inl e) k = Inl e"
  "andThen (Inr x) k = k x"
  by (simp_all add: andThen_def)

lemma andThen_eq_Inr: "andThen m k = Inr y \<longleftrightarrow> (\<exists>x. m = Inr x \<and> k x = Inr y)"
  by (cases m) simp_all

lemma andThen_eq_Inl: "andThen m k = Inl e \<longleftrightarrow> m = Inl e \<or> (\<exists>x. m = Inr x \<and> k x = Inl e)"
  by (cases m) simp_all

lemma andThen_assoc: "andThen (andThen m k) h = andThen m (\<lambda>x. andThen (k x) h)"
  by (cases m) simp_all

lemma andThen_cong [fundef_cong]:
  "m = m' \<Longrightarrow> (\<And>x. m' = Inr x \<Longrightarrow> k x = k' x) \<Longrightarrow> andThen m k = andThen m' k'"
  by (cases m') simp_all

text \<open>Running a computation for each element of a list, in order, with a threaded state.\<close>

fun foldE :: "('a \<Rightarrow> 's \<Rightarrow> 'f + 's) \<Rightarrow> 'a list \<Rightarrow> 's \<Rightarrow> 'f + 's" where
  "foldE f [] s = Inr s"
| "foldE f (x # xs) s = andThen (f x s) (foldE f xs)"

lemma foldE_append: "foldE f (xs @ ys) s = andThen (foldE f xs s) (foldE f ys)"
proof (induction xs arbitrary: s)
  case (Cons x xs)
  then show ?case by (cases "f x s") simp_all
qed simp

lemma foldE_cong [fundef_cong]:
  assumes "xs = xs'" and "s = s'" and "\<And>x s. x \<in> set xs' \<Longrightarrow> f x s = f' x s"
  shows "foldE f xs s = foldE f' xs' s'"
proof -
  have "foldE f xs' t = foldE f' xs' t" for t
    using assms(3)
  proof (induction xs' arbitrary: t)
    case (Cons x xs)
    then show ?case by (cases "f' x t") simp_all
  qed simp
  with assms(1,2) show ?thesis by simp
qed

text \<open>
  A computation that may also run on: \<open>None\<close> is "out of fuel", \<open>Some (Inl f)\<close> a panic or an
  error, \<open>Some (Inr x)\<close> a result.
\<close>

definition bindO :: "('f + 'a) option \<Rightarrow> ('a \<Rightarrow> ('f + 'b) option) \<Rightarrow> ('f + 'b) option" where
  "bindO m k = (case m of None \<Rightarrow> None | Some (Inl e) \<Rightarrow> Some (Inl e) | Some (Inr x) \<Rightarrow> k x)"

lemma bindO_simps [simp]:
  "bindO None k = None"
  "bindO (Some (Inl e)) k = Some (Inl e)"
  "bindO (Some (Inr x)) k = k x"
  by (simp_all add: bindO_def)

fun foldO :: "('a \<Rightarrow> 's \<Rightarrow> ('f + 's) option) \<Rightarrow> 'a list \<Rightarrow> 's \<Rightarrow> ('f + 's) option" where
  "foldO f [] s = Some (Inr s)"
| "foldO f (x # xs) s = bindO (f x s) (foldO f xs)"

text \<open>A fold whose steps all return is a plain fold, up to a relation on the states.\<close>

lemma foldO_rel:
  assumes "R [] s" and "\<And>ys x s. x \<in> set xs \<Longrightarrow> R ys s \<Longrightarrow> \<exists>s'. f x s = Some (Inr s') \<and> R (ys @ [x]) s'"
  shows "\<exists>s'. foldO f xs s = Some (Inr s') \<and> R xs s'"
proof -
  have "\<exists>s'. foldO f zs s = Some (Inr s') \<and> R (ys @ zs) s'" if "R ys s" "set zs \<subseteq> set xs" for ys zs s
    using that
  proof (induction zs arbitrary: ys s)
    case (Cons z zs)
    then obtain s1 where "f z s = Some (Inr s1)" "R (ys @ [z]) s1"
      using assms(2) [of z ys s] by auto
    with Cons.IH [of "ys @ [z]" s1] Cons.prems(2) show ?case by simp
  qed simp
  from this [of "[]" s xs] assms(1) show ?thesis by simp
qed

definition fmapE :: "('a \<Rightarrow> 'b) \<Rightarrow> 'f + 'a \<Rightarrow> 'f + 'b" where
  "fmapE f m = andThen m (\<lambda>x. Inr (f x))"

lemma fmapE_simps [simp]: "fmapE f (Inl e) = Inl e" "fmapE f (Inr x) = Inr (f x)"
  by (simp_all add: fmapE_def)

subsection \<open>Lists\<close>

lemma take_drop_nth: "i < length xs \<Longrightarrow> take 1 (drop i xs) = [xs ! i]"
  by (simp add: take_Suc_conv_app_nth hd_drop_conv_nth take_Suc)

lemma nth_drop_Cons: "drop n xs = y # ys \<Longrightarrow> n < length xs \<and> xs ! n = y \<and> drop (Suc n) xs = ys"
  by (metis drop_eq_Nil hd_drop_conv_nth leI list.distinct(1) list.sel(1,3) tl_drop drop_Suc)

lemma list_cases_01:
  obtains "xs = []" | x where "xs = [x]" | "length xs > 1"
  by (cases xs rule: remdups_adj.cases) auto

lemma foldl_measure:
  fixes g :: "'s \<Rightarrow> 'n::comm_monoid_add"
  assumes "\<And>s x. g (f s x) = g s + h x"
  shows "g (foldl f s xs) = g s + (\<Sum>x\<leftarrow>xs. h x)"
  by (induction xs arbitrary: s) (simp_all add: assms add.assoc)

subsection \<open>Words\<close>

lemma unat_ucast_8_64 [simp]: "unat (ucast (b :: 8 word) :: 64 word) = unat b"
  by transfer (simp add: take_bit_nat_eq nat_take_bit_eq)

lemma unat_byte_less: "unat (b :: 8 word) < 256"
  using unsigned_less [where 'a = nat and w = b] by simp

lemma unat_u64_less: "unat (v :: 64 word) < 18446744073709551616"
  using unsigned_less [where 'a = nat and w = v] by simp

subsection \<open>Components driven by a sequence of inputs\<close>

text \<open>
  Several components of the repository are a state and a handler that is called once per
  input: a frame, a message of the terminal UI, a row of a table. Their contract is an
  invariant that every call on an acceptable input keeps; the lemmas lift it to whole runs.
\<close>

locale driven =
  fixes handle :: "'s \<Rightarrow> 'i \<Rightarrow> 's"
    and ok :: "'i \<Rightarrow> bool"
    and inv :: "'s \<Rightarrow> bool"
  assumes handle_inv: "inv s \<Longrightarrow> ok i \<Longrightarrow> inv (handle s i)"
begin

lemma run_inv: "inv s \<Longrightarrow> \<forall>i \<in> set is. ok i \<Longrightarrow> inv (foldl handle s is)"
  by (induction "is" arbitrary: s) (simp_all add: handle_inv)

lemma prefix_inv: "inv s \<Longrightarrow> \<forall>i \<in> set is. ok i \<Longrightarrow> inv (foldl handle s (take n is))"
  by (rule run_inv) (auto dest: in_set_takeD)

end

subsection \<open>Updated lists\<close>

lemma nth_update_if: "xs[i := y] ! k = (if i = k \<and> i < length xs then y else xs ! k)"
  by (cases "i < length xs") (auto simp: list_update_beyond)

lemma list_all_update: "list_all P xs \<Longrightarrow> (i < length xs \<Longrightarrow> P y) \<Longrightarrow> list_all P (xs[i := y])"
  by (cases "i < length xs") (use set_update_subset_insert [of xs i y] in \<open>auto simp: list_all_iff list_update_beyond\<close>)

end
