(* ===== verification/Go_Runtime.thy ===== *)
theory Go_Runtime
  imports Prelude
begin

section \<open>Integers and byte slices of Go\<close>

text \<open>
  What the modelled code uses of the language: the 64-bit \<open>int\<close> that offsets and lengths are
  computed in, the fixed-width integers, and byte slices. Fixed-width values are words; a
  signed type is the word of its two's complement. An \<open>int\<close> is an integer in the 64-bit
  range and every addition is reduced to that range, so that an offset that wraps in the
  code wraps in the model. The float types are the words of their IEEE bit patterns
  (\<open>math.Float32bits\<close> and \<open>math.Float32frombits\<close> are the identity on them).
\<close>

type_synonym byte = "8 word"
type_synonym uint16 = "16 word"
type_synonym uint32 = "32 word"
type_synonym int32 = "32 word"
type_synonym uint64 = "64 word"
type_synonym int64 = "64 word"
type_synonym float32 = "32 word"
type_synonym float64 = "64 word"

definition wrap64 :: "int \<Rightarrow> int" where
  "wrap64 i = signed_take_bit 63 i"

definition iadd :: "int \<Rightarrow> int \<Rightarrow> int" where
  "iadd a b = wrap64 (a + b)"

lemma wrap64_id [go_int_simps]: "- (2 ^ 63) \<le> i \<Longrightarrow> i < 2 ^ 63 \<Longrightarrow> wrap64 i = i"
  by (simp add: wrap64_def signed_take_bit_int_eq_self)

lemma wrap64_range: "- (2 ^ 63) \<le> wrap64 i \<and> wrap64 i < 2 ^ 63"
  using signed_take_bit_int_greater_eq_minus_exp [of 63 i] signed_take_bit_int_less_exp [of 63 i]
  unfolding wrap64_def by blast

lemma iadd_id [go_int_simps]: "- (2 ^ 63) \<le> a + b \<Longrightarrow> a + b < 2 ^ 63 \<Longrightarrow> iadd a b = a + b"
  by (simp add: iadd_def wrap64_id)

lemma iadd_nat [go_int_simps]: "m + n < 2 ^ 63 \<Longrightarrow> iadd (int m) (int n) = int (m + n)"
  by (subst iadd_id) (simp_all flip: of_nat_add)

text \<open>\<open>int(size)\<close> for a \<open>uint64\<close>, and \<open>uint64(n)\<close> for an \<open>int\<close>.\<close>

definition int_of_uint64 :: "uint64 \<Rightarrow> int" where
  "int_of_uint64 v = sint v"

definition uint64_of_int :: "int \<Rightarrow> uint64" where
  "uint64_of_int i = word_of_int i"

lemma int_of_uint64_of_nat [go_int_simps]:
  "n < 2 ^ 63 \<Longrightarrow> int_of_uint64 (of_nat n) = int n"
  by (simp add: int_of_uint64_def sint_uint uint_nat unat_of_nat signed_take_bit_int_eq_self
      flip: of_nat_mod)

lemma int_of_uint64_uint64_of_int [go_int_simps]:
  "0 \<le> i \<Longrightarrow> i < 2 ^ 63 \<Longrightarrow> int_of_uint64 (uint64_of_int i) = i"
  by (simp add: int_of_uint64_def uint64_of_int_def sint_sbintrunc' signed_take_bit_int_eq_self)

lemma uint64_of_int_of_nat: "uint64_of_int (int n) = of_nat n"
  by (simp add: uint64_of_int_def)

subsection \<open>Byte slices\<close>

text \<open>
  A slice is a view of a backing array: \<open>sl_arr\<close> is the array from the slice's first element
  to its capacity, \<open>sl_len\<close> the slice's length. Indexing is checked against the length,
  reslicing against the capacity, as in the language, so a reslice may reach bytes of the
  array behind the slice's own end.
\<close>

record slice =
  sl_arr :: "byte list"
  sl_len :: nat

definition sl_wf :: "slice \<Rightarrow> bool" where
  "sl_wf s \<longleftrightarrow> sl_len s \<le> length (sl_arr s)"

definition sl_cap :: "slice \<Rightarrow> nat" where
  "sl_cap s = length (sl_arr s)"

definition sl_bytes :: "slice \<Rightarrow> byte list" where
  "sl_bytes s = take (sl_len s) (sl_arr s)"

definition nil_slice :: slice where
  "nil_slice = \<lparr>sl_arr = [], sl_len = 0\<rparr>"

text \<open>A slice that holds exactly the given bytes (its capacity is its length).\<close>

definition of_bytes :: "byte list \<Rightarrow> slice" where
  "of_bytes bs = \<lparr>sl_arr = bs, sl_len = length bs\<rparr>"

definition sl_index :: "slice \<Rightarrow> int \<Rightarrow> 'e fault + byte" where
  "sl_index s i = (if 0 \<le> i \<and> i < int (sl_len s) then Inr (sl_arr s ! nat i) else Inl Panic)"

text \<open>\<open>s[a:b]\<close>\<close>

definition sl_slice :: "slice \<Rightarrow> int \<Rightarrow> int \<Rightarrow> 'e fault + slice" where
  "sl_slice s a b =
     (if 0 \<le> a \<and> a \<le> b \<and> b \<le> int (sl_cap s)
      then Inr \<lparr>sl_arr = drop (nat a) (sl_arr s), sl_len = nat (b - a)\<rparr>
      else Inl Panic)"

text \<open>\<open>make([]byte, 0, size)\<close> and \<open>copy(s[m:], data)\<close>\<close>

definition make_slice :: "int \<Rightarrow> 'e fault + slice" where
  "make_slice n =
     (if n < 0 then Inl Panic else Inr \<lparr>sl_arr = replicate (nat n) 0, sl_len = 0\<rparr>)"

definition sl_copy :: "slice \<Rightarrow> nat \<Rightarrow> byte list \<Rightarrow> slice" where
  "sl_copy s m data =
     (let n = min (sl_len s - m) (length data)
      in s\<lparr>sl_arr := take m (sl_arr s) @ take n data @ drop (m + n) (sl_arr s)\<rparr>)"

lemma sl_wf_of_bytes [simp]: "sl_wf (of_bytes bs)"
  by (simp add: sl_wf_def of_bytes_def)

lemma sl_bytes_of_bytes [simp]: "sl_bytes (of_bytes bs) = bs"
  by (simp add: sl_bytes_def of_bytes_def)

lemma length_sl_bytes [simp]: "sl_wf s \<Longrightarrow> length (sl_bytes s) = sl_len s"
  by (simp add: sl_wf_def sl_bytes_def)

lemma sl_len_of_bytes [simp]: "sl_len (of_bytes bs) = length bs"
  by (simp add: of_bytes_def)

lemma sl_arr_of_bytes [simp]: "sl_arr (of_bytes bs) = bs"
  by (simp add: of_bytes_def)

lemma sl_index_in [slice_simps]:
  "sl_wf s \<Longrightarrow> n < sl_len s \<Longrightarrow> sl_index s (int n) = Inr (sl_bytes s ! n)"
  by (simp add: sl_index_def sl_bytes_def)

lemma sl_index_out: "\<not> (0 \<le> i \<and> i < int (sl_len s)) \<Longrightarrow> sl_index s i = Inl Panic"
  by (simp add: sl_index_def)

lemma sl_index_eq_Inr: "sl_index s i = Inr b \<longleftrightarrow> 0 \<le> i \<and> i < int (sl_len s) \<and> b = sl_arr s ! nat i"
  by (auto simp: sl_index_def)

lemma sl_slice_in [slice_simps]:
  assumes "sl_wf s" and "a + n \<le> sl_len s"
  shows "\<exists>t. sl_slice s (int a) (int (a + n)) = Inr t \<and> sl_wf t
    \<and> sl_bytes t = take n (drop a (sl_bytes s)) \<and> sl_len t = n"
  using assms
  by (auto simp: sl_slice_def sl_cap_def sl_wf_def sl_bytes_def drop_take min_absorb1)

text \<open>A reslice inside the slice shows the bytes of the slice.\<close>

lemma sl_slice_bytes:
  assumes "sl_slice s a b = Inr t" and "b \<le> int (sl_len s)"
  shows "sl_bytes t = take (nat (b - a)) (drop (nat a) (sl_bytes s))"
  using assms
  by (auto simp: sl_slice_def sl_bytes_def drop_take min_def nat_diff_distrib split: if_splits)

text \<open>A reslice of a well-formed slice is well-formed and its array is a suffix.\<close>

lemma sl_slice_wf: "sl_slice s a b = Inr t \<Longrightarrow> sl_wf t"
  by (auto simp: sl_slice_def sl_wf_def sl_cap_def split: if_splits)

lemma sl_slice_cap: "sl_slice s a b = Inr t \<Longrightarrow> sl_cap t = sl_cap s - nat a"
  by (auto simp: sl_slice_def sl_cap_def split: if_splits)

subsection \<open>Decimal numbers\<close>

text \<open>\<open>%d\<close> of a number that is not negative.\<close>

definition digit :: "nat \<Rightarrow> char" where
  "digit n = char_of (48 + n)"

fun dec :: "nat \<Rightarrow> string" where
  "dec n = (if n < 10 then [digit n] else dec (n div 10) @ [digit (n mod 10)])"

declare dec.simps [simp del]

lemma dec_nonempty [simp]: "dec n \<noteq> []"
  by (subst dec.simps) simp

end
