(* ===== verification/Wire_Reader.thy ===== *)
theory Wire_Reader
  imports Go_Runtime
begin

section \<open>The wire-format reader\<close>

text \<open>
  \<^verbatim>\<open>shared/gremlin_go/reader.go\<close> and \<^verbatim>\<open>reading.go\<close>: a reader over a byte slice
  whose methods decode one wire value at an absolute offset. Every method is one definition;
  the ten unrolled blocks of \<open>readVarIntAt\<close>, which differ in their constants only, are ten
  uses of one block. \<open>SkipData\<close> recurses through groups and, on hostile input, need not end:
  it takes fuel, and \<open>None\<close> is "still running".
\<close>

type_synonym ProtoWireType = "8 word"
type_synonym ProtoWireNumber = int32

definition VarIntType :: ProtoWireType where "VarIntType = 0"
definition Fixed64Type :: ProtoWireType where "Fixed64Type = 1"
definition BytesType :: ProtoWireType where "BytesType = 2"
definition StartGroupType :: ProtoWireType where "StartGroupType = 3"
definition EndGroupType :: ProtoWireType where "EndGroupType = 4"
definition Fixed32Type :: ProtoWireType where "Fixed32Type = 5"

lemmas wire_type_defs =
  VarIntType_def Fixed64Type_def BytesType_def StartGroupType_def EndGroupType_def Fixed32Type_def

record Reader =
  buf :: slice

definition NewReader :: "slice \<Rightarrow> Reader" where
  "NewReader data = \<lparr>buf = data\<rparr>"

text \<open>\<open>Bytes\<close> of a nil reader is a nil slice.\<close>

definition Reader_Bytes :: "Reader option \<Rightarrow> slice" where
  "Reader_Bytes p = (case p of None \<Rightarrow> nil_slice | Some r \<Rightarrow> buf r)"

datatype rd_error =
    InvalidTag
  | TagNumberOutOfRange
  | InvalidVarint
  | NotEnoughBytes
  | InvalidWireType ProtoWireType

type_synonym 'a rd = "rd_error fault + 'a"

definition HasNext :: "Reader \<Rightarrow> int \<Rightarrow> int \<Rightarrow> bool" where
  "HasNext p offset sz \<longleftrightarrow> iadd offset sz < int (sl_len (buf p))"

subsection \<open>Varints\<close>

text \<open>
  One unrolled block of \<open>readVarIntAt\<close>, for byte \<open>i\<close>: no byte gives \<open>(0, -1)\<close>, a byte below
  \<open>0x80\<close> ends the number, any other takes its continuation bit back and goes on.
\<close>

definition varint_block ::
    "Reader \<Rightarrow> int \<Rightarrow> nat \<Rightarrow> (uint64 \<Rightarrow> (uint64 \<times> int) rd) \<Rightarrow> uint64 \<Rightarrow> (uint64 \<times> int) rd" where
  "varint_block p offset i next v =
     (if \<not> HasNext p offset (int i) then Inr (0, -1)
      else andThen (sl_index (buf p) (iadd offset (int i))) (\<lambda>b.
        let y = ucast b :: uint64;
            v = v + push_bit (7 * i) y
        in if y < 0x80 then Inr (v, int i + 1)
           else next (v - push_bit (7 * i) 0x80)))"

definition varint_last_block ::
    "Reader \<Rightarrow> int \<Rightarrow> uint64 \<Rightarrow> (uint64 \<times> int) rd" where
  "varint_last_block p offset v =
     (if \<not> HasNext p offset 9 then Inr (0, -1)
      else andThen (sl_index (buf p) (iadd offset 9)) (\<lambda>b.
        let y = ucast b :: uint64;
            v = v + push_bit 63 y
        in if y < 2 then Inr (v, 10) else Inr (0, -1)))"

definition readVarIntAt :: "Reader \<Rightarrow> int \<Rightarrow> (uint64 \<times> int) rd" where
  "readVarIntAt p offset =
     varint_block p offset 0
    (varint_block p offset 1
    (varint_block p offset 2
    (varint_block p offset 3
    (varint_block p offset 4
    (varint_block p offset 5
    (varint_block p offset 6
    (varint_block p offset 7
    (varint_block p offset 8
    (varint_last_block p offset))))))))) 0"

text \<open>\<open>int64(v>>1) ^ int64(v)<<63>>63\<close>; the shift of an \<open>int64\<close> to the right is arithmetic.\<close>

definition readSignedVarIntAt :: "Reader \<Rightarrow> int \<Rightarrow> (int64 \<times> int) rd" where
  "readSignedVarIntAt p offset =
     andThen (readVarIntAt p offset) (\<lambda>(v, n).
       if n < 0 then Inr (0, n)
       else Inr (drop_bit 1 v XOR signed_drop_bit 63 (push_bit 63 v), n))"

fun getVarIntSize_loop :: "nat \<Rightarrow> Reader \<Rightarrow> int \<Rightarrow> int \<Rightarrow> int rd" where
  "getVarIntSize_loop 0 p offset i = Inr 10"
| "getVarIntSize_loop (Suc k) p offset i =
     (if \<not> HasNext p offset i then Inl (Fail NotEnoughBytes)
      else andThen (sl_index (buf p) (iadd offset i)) (\<lambda>b.
        if b < 0x80 then Inr (i + 1) else getVarIntSize_loop k p offset (i + 1)))"

text \<open>The loop counts \<open>i\<close> from 0 to 9; \<open>k\<close> is what is left of the ten rounds.\<close>

definition getVarIntSize :: "Reader \<Rightarrow> int \<Rightarrow> int rd" where
  "getVarIntSize p offset = getVarIntSize_loop 10 p offset 0"

subsection \<open>Tags and skipping\<close>

definition ReadTagAt :: "Reader \<Rightarrow> int \<Rightarrow> (ProtoWireNumber \<times> ProtoWireType \<times> int) rd" where
  "ReadTagAt p offset =
     andThen (readVarIntAt p offset) (\<lambda>(tagData, tagSize).
       if tagSize < 0 then Inl (Fail InvalidTag)
       else if drop_bit 3 tagData > 0x7FFFFFFF then Inl (Fail TagNumberOutOfRange)
       else Inr (ucast (drop_bit 3 tagData), ucast (tagData AND 7), tagSize))"

fun SkipData :: "nat \<Rightarrow> Reader \<Rightarrow> int \<Rightarrow> ProtoWireType \<Rightarrow> int rd option"
  and SkipGroup :: "nat \<Rightarrow> Reader \<Rightarrow> int \<Rightarrow> int rd option" where
  "SkipData 0 p offset protoType = None"
| "SkipData (Suc fuel) p offset protoType =
     (if protoType = VarIntType then
        Some (andThen (getVarIntSize p offset) (\<lambda>varIntSize. Inr (iadd offset varIntSize)))
      else if protoType = Fixed32Type then Some (Inr (iadd offset 4))
      else if protoType = Fixed64Type then Some (Inr (iadd offset 8))
      else if protoType = BytesType then
        Some (andThen (readVarIntAt p offset) (\<lambda>(sz, sizeSize).
          if sizeSize < 0 then Inl (Fail InvalidVarint)
          else Inr (iadd (iadd offset sizeSize) (int_of_uint64 sz))))
      else if protoType = StartGroupType then SkipGroup fuel p offset
      else Some (Inl (Fail (InvalidWireType protoType))))"
| "SkipGroup 0 p offset = None"
| "SkipGroup (Suc fuel) p offset =
     (case ReadTagAt p offset of
        Inl e \<Rightarrow> Some (Inl e)
      | Inr (_, cType, tagSize) \<Rightarrow>
          (let offset = iadd offset tagSize in
           if cType = EndGroupType then Some (Inr offset)
           else (case SkipData fuel p offset cType of
                   None \<Rightarrow> None
                 | Some (Inl e) \<Rightarrow> Some (Inl e)
                 | Some (Inr offset) \<Rightarrow> SkipGroup fuel p offset)))"

subsection \<open>Fixed-width values\<close>

definition u64_at :: "Reader \<Rightarrow> int \<Rightarrow> uint64 rd" where
  "u64_at p i = andThen (sl_index (buf p) i) (\<lambda>b. Inr (ucast b))"

definition readFixed32At :: "Reader \<Rightarrow> int \<Rightarrow> uint64 rd" where
  "readFixed32At p offset =
     andThen (u64_at p offset) (\<lambda>b0.
     andThen (u64_at p (iadd offset 1)) (\<lambda>b1.
     andThen (u64_at p (iadd offset 2)) (\<lambda>b2.
     andThen (u64_at p (iadd offset 3)) (\<lambda>b3.
       Inr (b0 OR push_bit 8 b1 OR push_bit 16 b2 OR push_bit 24 b3)))))"

definition readFixed64At :: "Reader \<Rightarrow> int \<Rightarrow> uint64 rd" where
  "readFixed64At p offset =
     andThen (u64_at p offset) (\<lambda>b0.
     andThen (u64_at p (iadd offset 1)) (\<lambda>b1.
     andThen (u64_at p (iadd offset 2)) (\<lambda>b2.
     andThen (u64_at p (iadd offset 3)) (\<lambda>b3.
     andThen (u64_at p (iadd offset 4)) (\<lambda>b4.
     andThen (u64_at p (iadd offset 5)) (\<lambda>b5.
     andThen (u64_at p (iadd offset 6)) (\<lambda>b6.
     andThen (u64_at p (iadd offset 7)) (\<lambda>b7.
       Inr (b0 OR push_bit 8 b1 OR push_bit 16 b2 OR push_bit 24 b3 OR
            push_bit 32 b4 OR push_bit 40 b5 OR push_bit 48 b6 OR push_bit 56 b7)))))))))"

subsection \<open>The exported readers\<close>

definition SizedReadBytes :: "Reader \<Rightarrow> int \<Rightarrow> (slice \<times> int) rd" where
  "SizedReadBytes p offset =
     andThen (readVarIntAt p offset) (\<lambda>(sz, sizeSize).
     andThen (sl_slice (buf p) (iadd offset sizeSize) (iadd (iadd offset sizeSize) (int_of_uint64 sz)))
       (\<lambda>s. Inr (s, iadd sizeSize (int_of_uint64 sz))))"

definition ReadBytes :: "Reader \<Rightarrow> int \<Rightarrow> slice rd" where
  "ReadBytes p offset =
     andThen (readVarIntAt p offset) (\<lambda>(sz, sizeSize).
       sl_slice (buf p) (iadd offset sizeSize) (iadd (iadd offset sizeSize) (int_of_uint64 sz)))"

definition ReadString :: "Reader \<Rightarrow> int \<Rightarrow> byte list rd" where
  "ReadString p offset = andThen (ReadBytes p offset) (\<lambda>s. Inr (sl_bytes s))"

definition SizedReadString :: "Reader \<Rightarrow> int \<Rightarrow> (byte list \<times> int) rd" where
  "SizedReadString p offset = andThen (SizedReadBytes p offset) (\<lambda>(v, sz). Inr (sl_bytes v, sz))"

definition ReadVarInt :: "Reader \<Rightarrow> int \<Rightarrow> uint64 rd" where
  "ReadVarInt p offset = andThen (readVarIntAt p offset) (\<lambda>(v, _). Inr v)"

definition SizedReadVarInt :: "Reader \<Rightarrow> int \<Rightarrow> (uint64 \<times> int) rd" where
  "SizedReadVarInt p offset = readVarIntAt p offset"

definition ReadUint64 :: "Reader \<Rightarrow> int \<Rightarrow> uint64 rd" where
  "ReadUint64 p offset = ReadVarInt p offset"

definition SizedReadUint64 :: "Reader \<Rightarrow> int \<Rightarrow> (uint64 \<times> int) rd" where
  "SizedReadUint64 p offset = SizedReadVarInt p offset"

definition ReadUint32 :: "Reader \<Rightarrow> int \<Rightarrow> uint32 rd" where
  "ReadUint32 p offset = andThen (ReadVarInt p offset) (\<lambda>v. Inr (ucast v))"

definition SizedReadUint32 :: "Reader \<Rightarrow> int \<Rightarrow> (uint32 \<times> int) rd" where
  "SizedReadUint32 p offset = andThen (SizedReadVarInt p offset) (\<lambda>(res, sz). Inr (ucast res, sz))"

definition ReadInt64 :: "Reader \<Rightarrow> int \<Rightarrow> int64 rd" where
  "ReadInt64 p offset = ReadVarInt p offset"

definition SizedReadInt64 :: "Reader \<Rightarrow> int \<Rightarrow> (int64 \<times> int) rd" where
  "SizedReadInt64 p offset = readVarIntAt p offset"

definition ReadSInt64 :: "Reader \<Rightarrow> int \<Rightarrow> int64 rd" where
  "ReadSInt64 p offset = andThen (readSignedVarIntAt p offset) (\<lambda>(res, _). Inr res)"

definition SizedReadSInt64 :: "Reader \<Rightarrow> int \<Rightarrow> (int64 \<times> int) rd" where
  "SizedReadSInt64 p offset = readSignedVarIntAt p offset"

definition ReadInt32 :: "Reader \<Rightarrow> int \<Rightarrow> int32 rd" where
  "ReadInt32 p offset = andThen (ReadVarInt p offset) (\<lambda>v. Inr (ucast v))"

definition SizedReadInt32 :: "Reader \<Rightarrow> int \<Rightarrow> (int32 \<times> int) rd" where
  "SizedReadInt32 p offset = andThen (readVarIntAt p offset) (\<lambda>(res, sz). Inr (ucast res, sz))"

definition ReadSInt32 :: "Reader \<Rightarrow> int \<Rightarrow> int32 rd" where
  "ReadSInt32 p offset = andThen (readSignedVarIntAt p offset) (\<lambda>(res, _). Inr (ucast res))"

definition SizedReadSInt32 :: "Reader \<Rightarrow> int \<Rightarrow> (int32 \<times> int) rd" where
  "SizedReadSInt32 p offset = andThen (readSignedVarIntAt p offset) (\<lambda>(res, n). Inr (ucast res, n))"

definition ReadBool :: "Reader \<Rightarrow> int \<Rightarrow> bool rd" where
  "ReadBool p offset = andThen (ReadVarInt p offset) (\<lambda>v. Inr (v \<noteq> 0))"

definition SizedReadBool :: "Reader \<Rightarrow> int \<Rightarrow> (bool \<times> int) rd" where
  "SizedReadBool p offset = andThen (SizedReadVarInt p offset) (\<lambda>(res, sz). Inr (res \<noteq> 0, sz))"

definition ReadFloat32 :: "Reader \<Rightarrow> int \<Rightarrow> float32 rd" where
  "ReadFloat32 p offset = andThen (readFixed32At p offset) (\<lambda>v. Inr (ucast v))"

definition SizedReadFloat32 :: "Reader \<Rightarrow> int \<Rightarrow> (float32 \<times> int) rd" where
  "SizedReadFloat32 p offset = andThen (readFixed32At p offset) (\<lambda>v. Inr (ucast v, 4))"

definition ReadFloat64 :: "Reader \<Rightarrow> int \<Rightarrow> float64 rd" where
  "ReadFloat64 p offset = readFixed64At p offset"

definition SizedReadFloat64 :: "Reader \<Rightarrow> int \<Rightarrow> (float64 \<times> int) rd" where
  "SizedReadFloat64 p offset = andThen (readFixed64At p offset) (\<lambda>v. Inr (v, 8))"

definition ReadFixed32 :: "Reader \<Rightarrow> int \<Rightarrow> uint32 rd" where
  "ReadFixed32 p offset = andThen (readFixed32At p offset) (\<lambda>v. Inr (ucast v))"

definition SizedReadFixed32 :: "Reader \<Rightarrow> int \<Rightarrow> (uint32 \<times> int) rd" where
  "SizedReadFixed32 p offset = andThen (readFixed32At p offset) (\<lambda>v. Inr (ucast v, 4))"

definition ReadFixed64 :: "Reader \<Rightarrow> int \<Rightarrow> uint64 rd" where
  "ReadFixed64 p offset = readFixed64At p offset"

definition SizedReadFixed64 :: "Reader \<Rightarrow> int \<Rightarrow> (uint64 \<times> int) rd" where
  "SizedReadFixed64 p offset = andThen (readFixed64At p offset) (\<lambda>v. Inr (v, 8))"

definition ReadSFixed32 :: "Reader \<Rightarrow> int \<Rightarrow> int32 rd" where
  "ReadSFixed32 p offset = andThen (readFixed32At p offset) (\<lambda>v. Inr (ucast v))"

definition SizedReadSFixed32 :: "Reader \<Rightarrow> int \<Rightarrow> (int32 \<times> int) rd" where
  "SizedReadSFixed32 p offset = andThen (readFixed32At p offset) (\<lambda>v. Inr (ucast v, 4))"

definition ReadSFixed64 :: "Reader \<Rightarrow> int \<Rightarrow> int64 rd" where
  "ReadSFixed64 p offset = readFixed64At p offset"

definition SizedReadSFixed64 :: "Reader \<Rightarrow> int \<Rightarrow> (int64 \<times> int) rd" where
  "SizedReadSFixed64 p offset = andThen (readFixed64At p offset) (\<lambda>v. Inr (v, 8))"

lemmas unsized_reads = ReadString_def ReadUint64_def ReadUint32_def ReadInt64_def ReadSInt64_def
  ReadInt32_def ReadSInt32_def ReadBool_def ReadFloat32_def ReadFloat64_def ReadFixed32_def
  ReadFixed64_def ReadSFixed32_def ReadSFixed64_def ReadVarInt_def

lemmas sized_reads = SizedReadString_def SizedReadUint64_def SizedReadUint32_def SizedReadInt64_def
  SizedReadSInt64_def SizedReadInt32_def SizedReadSInt32_def SizedReadBool_def SizedReadFloat32_def
  SizedReadFloat64_def SizedReadFixed32_def SizedReadFixed64_def SizedReadSFixed32_def
  SizedReadSFixed64_def SizedReadVarInt_def

end
