(* ===== verification/Wire_Writer.thy ===== *)
theory Wire_Writer
  imports Wire_Reader
begin

section \<open>The wire-format writer\<close>

text \<open>
  \<^verbatim>\<open>shared/gremlin_go/writer.go\<close>: a writer over a slice that is allocated once at its final
  capacity. \<open>writeBytes\<close> extends the slice by reslicing (\<open>p.buf[:m+n]\<close>), which panics when the
  capacity is exceeded, so every \<open>Append\<close> is a computation that may panic. The switch of
  \<open>appendVarInt\<close> and the one of \<open>VarIntToBytes\<close> are ladders of ten cases, kept as such.
\<close>

record Writer =
  wbuf :: slice

type_synonym wr = "unit fault + Writer"

definition NewWriter :: "int \<Rightarrow> wr" where
  "NewWriter n = andThen (make_slice n) (\<lambda>s. Inr \<lparr>wbuf = s\<rparr>)"

definition Writer_Bytes :: "Writer \<Rightarrow> slice" where
  "Writer_Bytes p = (wbuf p)\<lparr>sl_len := sl_len (wbuf p)\<rparr>"

definition writeBytes :: "byte list \<Rightarrow> Writer \<Rightarrow> wr" where
  "writeBytes data p =
     (let m = sl_len (wbuf p) in
      andThen (sl_slice (wbuf p) 0 (iadd (int m) (int (length data)))) (\<lambda>b.
        Inr (p\<lparr>wbuf := sl_copy b m data\<rparr>)))"

definition writeByte :: "byte list \<Rightarrow> Writer \<Rightarrow> wr" where
  "writeByte data p = writeBytes data p"

subsection \<open>Varints\<close>

text \<open>\<open>byte((v>>7k)&0x7f|0x80)\<close> and \<open>byte(v>>7k)\<close>\<close>

definition more_byte :: "nat \<Rightarrow> uint64 \<Rightarrow> byte" where
  "more_byte k v = ucast (drop_bit (7 * k) v AND 0x7f OR 0x80)"

definition last_byte :: "nat \<Rightarrow> uint64 \<Rightarrow> byte" where
  "last_byte k v = ucast (drop_bit (7 * k) v)"

definition VarIntToBytes :: "uint64 \<Rightarrow> byte list" where
  "VarIntToBytes v =
    (if v < 2 ^ 7 then [last_byte 0 v]
     else if v < 2 ^ 14 then [more_byte 0 v, last_byte 1 v]
     else if v < 2 ^ 21 then [more_byte 0 v, more_byte 1 v, last_byte 2 v]
     else if v < 2 ^ 28 then [more_byte 0 v, more_byte 1 v, more_byte 2 v, last_byte 3 v]
     else if v < 2 ^ 35 then [more_byte 0 v, more_byte 1 v, more_byte 2 v, more_byte 3 v, last_byte 4 v]
     else if v < 2 ^ 42 then [more_byte 0 v, more_byte 1 v, more_byte 2 v, more_byte 3 v, more_byte 4 v,
         last_byte 5 v]
     else if v < 2 ^ 49 then [more_byte 0 v, more_byte 1 v, more_byte 2 v, more_byte 3 v, more_byte 4 v,
         more_byte 5 v, last_byte 6 v]
     else if v < 2 ^ 56 then [more_byte 0 v, more_byte 1 v, more_byte 2 v, more_byte 3 v, more_byte 4 v,
         more_byte 5 v, more_byte 6 v, last_byte 7 v]
     else if v < 2 ^ 63 then [more_byte 0 v, more_byte 1 v, more_byte 2 v, more_byte 3 v, more_byte 4 v,
         more_byte 5 v, more_byte 6 v, more_byte 7 v, last_byte 8 v]
     else [more_byte 0 v, more_byte 1 v, more_byte 2 v, more_byte 3 v, more_byte 4 v,
         more_byte 5 v, more_byte 6 v, more_byte 7 v, more_byte 8 v, 1])"

definition appendVarInt :: "uint64 \<Rightarrow> Writer \<Rightarrow> wr" where
  "appendVarInt v p =
    (if v < 2 ^ 7 then writeByte [last_byte 0 v] p
     else if v < 2 ^ 14 then writeByte [more_byte 0 v, last_byte 1 v] p
     else if v < 2 ^ 21 then writeByte [more_byte 0 v, more_byte 1 v, last_byte 2 v] p
     else if v < 2 ^ 28 then writeByte [more_byte 0 v, more_byte 1 v, more_byte 2 v, last_byte 3 v] p
     else if v < 2 ^ 35 then writeByte [more_byte 0 v, more_byte 1 v, more_byte 2 v, more_byte 3 v, last_byte 4 v] p
     else if v < 2 ^ 42 then writeByte [more_byte 0 v, more_byte 1 v, more_byte 2 v, more_byte 3 v, more_byte 4 v,
         last_byte 5 v] p
     else if v < 2 ^ 49 then writeByte [more_byte 0 v, more_byte 1 v, more_byte 2 v, more_byte 3 v, more_byte 4 v,
         more_byte 5 v, last_byte 6 v] p
     else if v < 2 ^ 56 then writeByte [more_byte 0 v, more_byte 1 v, more_byte 2 v, more_byte 3 v, more_byte 4 v,
         more_byte 5 v, more_byte 6 v, last_byte 7 v] p
     else if v < 2 ^ 63 then writeByte [more_byte 0 v, more_byte 1 v, more_byte 2 v, more_byte 3 v, more_byte 4 v,
         more_byte 5 v, more_byte 6 v, more_byte 7 v, last_byte 8 v] p
     else writeByte [more_byte 0 v, more_byte 1 v, more_byte 2 v, more_byte 3 v, more_byte 4 v,
         more_byte 5 v, more_byte 6 v, more_byte 7 v, more_byte 8 v, 1] p)"

definition SizeVarInt :: "uint64 \<Rightarrow> int" where
  "SizeVarInt v =
    (if v < 2 ^ 7 then 1
     else if v < 2 ^ 14 then 2
     else if v < 2 ^ 21 then 3
     else if v < 2 ^ 28 then 4
     else if v < 2 ^ 35 then 5
     else if v < 2 ^ 42 then 6
     else if v < 2 ^ 49 then 7
     else if v < 2 ^ 56 then 8
     else if v < 2 ^ 63 then 9
     else 10)"

definition zigzag :: "int64 \<Rightarrow> uint64" where
  "zigzag v = push_bit 1 v XOR signed_drop_bit 63 v"

text \<open>\<open>uint64(v<<1) ^ uint64(v>>63)\<close>, the expression shared by the two signed routines.\<close>

definition appendSignedVarInt :: "int64 \<Rightarrow> Writer \<Rightarrow> wr" where
  "appendSignedVarInt v p = appendVarInt (zigzag v) p"

definition sizeSignedVarInt :: "int64 \<Rightarrow> int" where
  "sizeSignedVarInt v = SizeVarInt (zigzag v)"

subsection \<open>Tags and fixed-width values\<close>

definition appendTag :: "ProtoWireNumber \<Rightarrow> ProtoWireType \<Rightarrow> Writer \<Rightarrow> wr" where
  "appendTag tag protoType p =
     appendVarInt (push_bit 3 (scast tag) OR ucast (protoType AND 7)) p"

definition SizeTag :: "ProtoWireNumber \<Rightarrow> int" where
  "SizeTag tag = SizeVarInt (push_bit 3 (scast tag) OR (0 AND 7))"

definition fixed32_bytes :: "uint32 \<Rightarrow> byte list" where
  "fixed32_bytes v = [ucast v, ucast (drop_bit 8 v), ucast (drop_bit 16 v), ucast (drop_bit 24 v)]"

definition fixed64_bytes :: "uint64 \<Rightarrow> byte list" where
  "fixed64_bytes v =
     [ucast v, ucast (drop_bit 8 v), ucast (drop_bit 16 v), ucast (drop_bit 24 v),
      ucast (drop_bit 32 v), ucast (drop_bit 40 v), ucast (drop_bit 48 v), ucast (drop_bit 56 v)]"

definition appendFixed32 :: "uint32 \<Rightarrow> Writer \<Rightarrow> wr" where
  "appendFixed32 v p = writeByte (fixed32_bytes v) p"

definition appendFixed64 :: "uint64 \<Rightarrow> Writer \<Rightarrow> wr" where
  "appendFixed64 v p = writeByte (fixed64_bytes v) p"

definition sizeFixed32 :: int where "sizeFixed32 = 4"
definition sizeFixed64 :: int where "sizeFixed64 = 8"

subsection \<open>The exported writers and sizes\<close>

definition AppendString :: "ProtoWireNumber \<Rightarrow> byte list \<Rightarrow> Writer \<Rightarrow> wr" where
  "AppendString tag data p =
     (let bytesLen = int (length data) in
      andThen (appendTag tag BytesType p) (\<lambda>p.
      andThen (appendVarInt (uint64_of_int bytesLen) p) (\<lambda>p.
        let m = sl_len (wbuf p) in
        andThen (sl_slice (wbuf p) 0 (iadd (int m) bytesLen)) (\<lambda>b.
          Inr (p\<lparr>wbuf := sl_copy b m data\<rparr>)))))"

definition SizeString :: "byte list \<Rightarrow> int" where
  "SizeString data = int (length data)"

definition AppendBytesTag :: "ProtoWireNumber \<Rightarrow> int \<Rightarrow> Writer \<Rightarrow> wr" where
  "AppendBytesTag tag len p =
     andThen (appendTag tag BytesType p) (appendVarInt (uint64_of_int len))"

definition AppendBytes :: "ProtoWireNumber \<Rightarrow> byte list \<Rightarrow> Writer \<Rightarrow> wr" where
  "AppendBytes tag data p =
     andThen (appendTag tag BytesType p) (\<lambda>p.
     andThen (appendVarInt (uint64_of_int (int (length data))) p) (writeBytes data))"

definition SizeBytes :: "byte list \<Rightarrow> int" where
  "SizeBytes data = int (length data)"

definition AppendBoolWithoutTag :: "bool \<Rightarrow> Writer \<Rightarrow> wr" where
  "AppendBoolWithoutTag data p = (if data then appendVarInt 1 p else appendVarInt 0 p)"

definition AppendBool :: "ProtoWireNumber \<Rightarrow> bool \<Rightarrow> Writer \<Rightarrow> wr" where
  "AppendBool tag data p = andThen (appendTag tag VarIntType p) (AppendBoolWithoutTag data)"

definition SizeBool :: "bool \<Rightarrow> int" where
  "SizeBool data = 1"

definition AppendInt32WithoutTag :: "int32 \<Rightarrow> Writer \<Rightarrow> wr" where
  "AppendInt32WithoutTag data p = appendVarInt (scast data) p"

definition AppendInt32 :: "ProtoWireNumber \<Rightarrow> int32 \<Rightarrow> Writer \<Rightarrow> wr" where
  "AppendInt32 tag data p = andThen (appendTag tag VarIntType p) (AppendInt32WithoutTag data)"

definition SizeInt32 :: "int32 \<Rightarrow> int" where
  "SizeInt32 data = SizeVarInt (scast data)"

definition AppendInt64WithoutTag :: "int64 \<Rightarrow> Writer \<Rightarrow> wr" where
  "AppendInt64WithoutTag data p = appendVarInt data p"

definition AppendInt64 :: "ProtoWireNumber \<Rightarrow> int64 \<Rightarrow> Writer \<Rightarrow> wr" where
  "AppendInt64 tag data p = andThen (appendTag tag VarIntType p) (AppendInt64WithoutTag data)"

definition SizeInt64 :: "int64 \<Rightarrow> int" where
  "SizeInt64 data = SizeVarInt data"

definition AppendUint32WithoutTag :: "uint32 \<Rightarrow> Writer \<Rightarrow> wr" where
  "AppendUint32WithoutTag data p = appendVarInt (ucast data) p"

definition AppendUint32 :: "ProtoWireNumber \<Rightarrow> uint32 \<Rightarrow> Writer \<Rightarrow> wr" where
  "AppendUint32 tag data p = andThen (appendTag tag VarIntType p) (AppendUint32WithoutTag data)"

definition SizeUint32 :: "uint32 \<Rightarrow> int" where
  "SizeUint32 data = SizeVarInt (ucast data)"

definition AppendUint64WithoutTag :: "uint64 \<Rightarrow> Writer \<Rightarrow> wr" where
  "AppendUint64WithoutTag data p = appendVarInt data p"

definition AppendUint64 :: "ProtoWireNumber \<Rightarrow> uint64 \<Rightarrow> Writer \<Rightarrow> wr" where
  "AppendUint64 tag data p = andThen (appendTag tag VarIntType p) (AppendUint64WithoutTag data)"

definition SizeUint64 :: "uint64 \<Rightarrow> int" where
  "SizeUint64 data = SizeVarInt data"

definition AppendSInt32WithoutTag :: "int32 \<Rightarrow> Writer \<Rightarrow> wr" where
  "AppendSInt32WithoutTag data p = appendSignedVarInt (scast data) p"

definition AppendSInt32 :: "ProtoWireNumber \<Rightarrow> int32 \<Rightarrow> Writer \<Rightarrow> wr" where
  "AppendSInt32 tag data p = andThen (appendTag tag VarIntType p) (AppendSInt32WithoutTag data)"

definition SizeSInt32 :: "int32 \<Rightarrow> int" where
  "SizeSInt32 data = sizeSignedVarInt (scast data)"

definition AppendSInt64WithoutTag :: "int64 \<Rightarrow> Writer \<Rightarrow> wr" where
  "AppendSInt64WithoutTag data p = appendSignedVarInt data p"

definition AppendSInt64 :: "ProtoWireNumber \<Rightarrow> int64 \<Rightarrow> Writer \<Rightarrow> wr" where
  "AppendSInt64 tag data p = andThen (appendTag tag VarIntType p) (AppendSInt64WithoutTag data)"

definition SizeSInt64 :: "int64 \<Rightarrow> int" where
  "SizeSInt64 data = sizeSignedVarInt data"

definition AppendFixed32WithoutTag :: "uint32 \<Rightarrow> Writer \<Rightarrow> wr" where
  "AppendFixed32WithoutTag data p = appendFixed32 data p"

definition AppendFixed32 :: "ProtoWireNumber \<Rightarrow> uint32 \<Rightarrow> Writer \<Rightarrow> wr" where
  "AppendFixed32 tag data p = andThen (appendTag tag Fixed32Type p) (AppendFixed32WithoutTag data)"

definition SizeFixed32 :: "uint32 \<Rightarrow> int" where
  "SizeFixed32 data = sizeFixed32"

definition AppendFixed64WithoutTag :: "uint64 \<Rightarrow> Writer \<Rightarrow> wr" where
  "AppendFixed64WithoutTag data p = appendFixed64 data p"

definition AppendFixed64 :: "ProtoWireNumber \<Rightarrow> uint64 \<Rightarrow> Writer \<Rightarrow> wr" where
  "AppendFixed64 tag data p = andThen (appendTag tag Fixed64Type p) (AppendFixed64WithoutTag data)"

definition SizeFixed64 :: "uint64 \<Rightarrow> int" where
  "SizeFixed64 data = sizeFixed64"

definition AppendSFixed32WithoutTag :: "int32 \<Rightarrow> Writer \<Rightarrow> wr" where
  "AppendSFixed32WithoutTag data p = appendFixed32 data p"

definition AppendSFixed32 :: "ProtoWireNumber \<Rightarrow> int32 \<Rightarrow> Writer \<Rightarrow> wr" where
  "AppendSFixed32 tag data p = andThen (appendTag tag Fixed32Type p) (AppendSFixed32WithoutTag data)"

definition SizeSFixed32 :: "int32 \<Rightarrow> int" where
  "SizeSFixed32 data = sizeFixed32"

definition AppendSFixed64WithoutTag :: "int64 \<Rightarrow> Writer \<Rightarrow> wr" where
  "AppendSFixed64WithoutTag data p = appendFixed64 data p"

definition AppendSFixed64 :: "ProtoWireNumber \<Rightarrow> int64 \<Rightarrow> Writer \<Rightarrow> wr" where
  "AppendSFixed64 tag data p = andThen (appendTag tag Fixed64Type p) (AppendSFixed64WithoutTag data)"

definition SizeSFixed64 :: "int64 \<Rightarrow> int" where
  "SizeSFixed64 data = sizeFixed64"

definition AppendFloat32WithoutTag :: "float32 \<Rightarrow> Writer \<Rightarrow> wr" where
  "AppendFloat32WithoutTag data p = appendFixed32 data p"

definition AppendFloat32 :: "ProtoWireNumber \<Rightarrow> float32 \<Rightarrow> Writer \<Rightarrow> wr" where
  "AppendFloat32 tag data p = andThen (appendTag tag Fixed32Type p) (AppendFloat32WithoutTag data)"

definition SizeFloat32 :: "float32 \<Rightarrow> int" where
  "SizeFloat32 data = sizeFixed32"

definition AppendFloat64WithoutTag :: "float64 \<Rightarrow> Writer \<Rightarrow> wr" where
  "AppendFloat64WithoutTag data p = appendFixed64 data p"

definition AppendFloat64 :: "ProtoWireNumber \<Rightarrow> float64 \<Rightarrow> Writer \<Rightarrow> wr" where
  "AppendFloat64 tag data p = andThen (appendTag tag Fixed64Type p) (AppendFloat64WithoutTag data)"

definition SizeFloat64 :: "float64 \<Rightarrow> int" where
  "SizeFloat64 data = sizeFixed64"

lemmas untagged_appends = AppendBoolWithoutTag_def AppendInt32WithoutTag_def
  AppendInt64WithoutTag_def AppendUint32WithoutTag_def AppendUint64WithoutTag_def
  AppendSInt32WithoutTag_def AppendSInt64WithoutTag_def AppendFixed32WithoutTag_def
  AppendFixed64WithoutTag_def AppendSFixed32WithoutTag_def AppendSFixed64WithoutTag_def
  AppendFloat32WithoutTag_def AppendFloat64WithoutTag_def

lemmas tagged_appends = AppendBool_def AppendInt32_def AppendInt64_def AppendUint32_def
  AppendUint64_def AppendSInt32_def AppendSInt64_def AppendFixed32_def AppendFixed64_def
  AppendSFixed32_def AppendSFixed64_def AppendFloat32_def AppendFloat64_def

lemmas size_defs = SizeBool_def SizeInt32_def SizeInt64_def SizeUint32_def SizeUint64_def
  SizeSInt32_def SizeSInt64_def SizeFixed32_def SizeFixed64_def SizeSFixed32_def
  SizeSFixed64_def SizeFloat32_def SizeFloat64_def sizeSignedVarInt_def sizeFixed32_def
  sizeFixed64_def

end
