(* ===== verification/Varint.thy ===== *)
theory Varint
  imports Wire_Writer
begin

section \<open>Varints: the ladders against a reference encoding\<close>

text \<open>
  The reference encoding of a number: base-128 digits, least significant first, every digit
  but the last with its high bit set. The unrolled switches of \<^verbatim>\<open>writer.go\<close> produce it, its
  length is \<open>SizeVarInt\<close>, and the unrolled reader of \<^verbatim>\<open>reading.go\<close> is the loop that takes it
  apart; zigzag and the fixed-width formats follow.
\<close>

fun varint_bytes :: "nat \<Rightarrow> byte list" where
  "varint_bytes n = (if n < 128 then [of_nat n] else of_nat (n mod 128 + 128) # varint_bytes (n div 128))"

declare varint_bytes.simps [simp del]

lemma varint_bytes_small: "n < 128 \<Longrightarrow> varint_bytes n = [of_nat n]"
  by (simp add: varint_bytes.simps [of n])

lemma varint_bytes_step: "128 \<le> n \<Longrightarrow> varint_bytes n = of_nat (n mod 128 + 128) # varint_bytes (n div 128)"
  by (simp add: varint_bytes.simps [of n])

lemma varint_bytes_nonempty [simp]: "varint_bytes n \<noteq> []"
  by (simp add: varint_bytes.simps [of n])

lemma length_varint_bytes_pos: "0 < length (varint_bytes n)"
  by simp

lemma length_varint_bytes_le: "n < 128 ^ Suc k \<Longrightarrow> length (varint_bytes n) \<le> Suc k"
proof (induction k arbitrary: n)
  case 0
  then show ?case by (simp add: varint_bytes_small)
next
  case (Suc k)
  show ?case
  proof (cases "n < 128")
    case True
    then show ?thesis by (simp add: varint_bytes_small)
  next
    case False
    have "n div 128 < 128 ^ Suc k" using Suc.prems by (simp add: less_mult_imp_div_less mult.commute)
    then show ?thesis using False Suc.IH [of "n div 128"] by (simp add: varint_bytes_step)
  qed
qed

lemma length_varint_bytes_10: "length (varint_bytes (unat (v :: uint64))) \<le> 10"
  by (rule length_varint_bytes_le [of _ 9, simplified]) (rule order_less_trans [OF unat_u64_less], simp)

subsection \<open>The writing ladders\<close>

lemma unat_low7: "unat ((x :: uint64) AND 0x7f) = unat x mod 128"
proof -
  have "unat (x AND 0x7f) = unat x AND mask 7"
    by (simp add: unsigned_and_eq mask_eq_exp_minus_1)
  then show ?thesis by (simp add: take_bit_eq_mask [symmetric] take_bit_eq_mod)
qed

lemma unat_low7_high: "unat ((x :: uint64) AND 0x7f OR 0x80) = unat x mod 128 + 128"
proof -
  have "(x AND 0x7f) AND 0x80 = 0" by (simp add: and.assoc)
  then have "x AND 0x7f OR 0x80 = (x AND 0x7f) + 0x80" by (simp add: disjunctive_add_eq_or)
  then show ?thesis by (simp add: unat_word_ariths unat_low7)
qed

lemma ucast_64_8: "ucast (x :: uint64) = (of_nat (unat x) :: byte)"
  by simp

lemma more_byte_0: "more_byte 0 v = of_nat (unat v mod 128 + 128)"
  by (simp only: more_byte_def mult_0_right drop_bit_0 id_apply ucast_64_8 unat_low7_high)

lemma last_byte_0: "last_byte 0 v = of_nat (unat v)"
  by (simp add: last_byte_def)

lemma more_byte_Suc: "more_byte (Suc k) v = more_byte k (drop_bit 7 v)"
  by (simp add: more_byte_def drop_bit_drop_bit add.commute)

lemma last_byte_Suc: "last_byte (Suc k) v = last_byte k (drop_bit 7 v)"
  by (simp add: last_byte_def drop_bit_drop_bit add.commute)

lemma unat_drop_7: "unat (drop_bit 7 (v :: uint64)) = unat v div 128"
  by (subst unat_drop_bit_eq) (simp add: drop_bit_eq_div)

definition ladder :: "nat \<Rightarrow> uint64 \<Rightarrow> byte list" where
  "ladder m v = map (\<lambda>k. more_byte k v) [0..<m] @ [last_byte m v]"

lemma ladder_Suc: "ladder (Suc m) v = more_byte 0 v # ladder m (drop_bit 7 v)"
proof -
  have "[0..<Suc m] = 0 # map Suc [0..<m]" by (simp add: upt_conv_Cons map_Suc_upt)
  then show ?thesis by (simp add: ladder_def more_byte_Suc last_byte_Suc comp_def del: upt_Suc)
qed

lemma ladder_varint:
  "unat v < 128 ^ Suc m \<Longrightarrow> m = 0 \<or> 128 ^ m \<le> unat v \<Longrightarrow> ladder m v = varint_bytes (unat v)"
proof (induction m arbitrary: v)
  case 0
  then show ?case by (simp add: ladder_def last_byte_0 varint_bytes_small)
next
  case (Suc m)
  have big: "128 \<le> unat v" using Suc.prems(2) by (simp add: le_trans [rotated])
  have "unat v div 128 < 128 ^ Suc m"
    using Suc.prems(1) by (simp add: less_mult_imp_div_less mult.commute)
  moreover have "m = 0 \<or> 128 ^ m \<le> unat v div 128"
    using Suc.prems(2) by (simp add: less_eq_div_iff_mult_less_eq mult.commute)
  ultimately have "ladder m (drop_bit 7 v) = varint_bytes (unat v div 128)"
    using Suc.IH [of "drop_bit 7 v"] by (simp add: unat_drop_7)
  then show ?case using big by (simp add: ladder_Suc more_byte_0 varint_bytes_step)
qed

lemma ladder_top: "2 ^ 63 \<le> unat v \<Longrightarrow> last_byte 9 v = 1"
proof -
  assume "2 ^ 63 \<le> unat v"
  then have "unat v div 2 ^ 63 = 1" using unat_u64_less [of v] by simp
  then have "of_nat (unat (drop_bit (7 * 9) v)) = (1 :: byte)"
    by (subst unat_drop_bit_eq) (simp add: drop_bit_eq_div)
  then show ?thesis by (simp only: last_byte_def ucast_64_8)
qed

lemma upt_lists:
  "[0..<2] = [0, 1::nat]" "[0..<3] = [0, 1, 2::nat]" "[0..<4] = [0, 1, 2, 3::nat]"
  "[0..<5] = [0, 1, 2, 3, 4::nat]" "[0..<6] = [0, 1, 2, 3, 4, 5::nat]"
  "[0..<7] = [0, 1, 2, 3, 4, 5, 6::nat]" "[0..<8] = [0, 1, 2, 3, 4, 5, 6, 7::nat]"
  "[0..<9] = [0, 1, 2, 3, 4, 5, 6, 7, 8::nat]"
  by code_simp+

lemma VarIntToBytes_ladder:
  "VarIntToBytes v =
    (if unat v < 2 ^ 7 then ladder 0 v else if unat v < 2 ^ 14 then ladder 1 v
     else if unat v < 2 ^ 21 then ladder 2 v else if unat v < 2 ^ 28 then ladder 3 v
     else if unat v < 2 ^ 35 then ladder 4 v else if unat v < 2 ^ 42 then ladder 5 v
     else if unat v < 2 ^ 49 then ladder 6 v else if unat v < 2 ^ 56 then ladder 7 v
     else if unat v < 2 ^ 63 then ladder 8 v else ladder 9 v)"
  using ladder_top [of v]
  by (simp add: VarIntToBytes_def word_less_nat_alt ladder_def upt_lists)

lemma VarIntToBytes_eq: "VarIntToBytes v = varint_bytes (unat v)"
  unfolding VarIntToBytes_ladder using unat_u64_less [of v]
  by (simp add: ladder_varint split: if_split)

lemma appendVarInt_eq: "appendVarInt v p = writeByte (varint_bytes (unat v)) p"
proof -
  have "appendVarInt v p = writeByte (VarIntToBytes v) p"
    by (simp add: appendVarInt_def VarIntToBytes_def)
  then show ?thesis by (simp add: VarIntToBytes_eq)
qed

lemma SizeVarInt_eq: "SizeVarInt v = int (length (varint_bytes (unat v)))"
proof -
  have "SizeVarInt v = int (length (VarIntToBytes v))"
    by (simp add: SizeVarInt_def VarIntToBytes_def)
  then show ?thesis by (simp add: VarIntToBytes_eq)
qed

subsection \<open>The reading ladder\<close>

fun varint_read :: "nat \<Rightarrow> byte list \<Rightarrow> uint64 \<Rightarrow> uint64 \<times> int" where
  "varint_read i [] v = (0, -1)"
| "varint_read i (b # bs) v =
     (let v' = v + push_bit (7 * i) (ucast b) in
      if i < 9 then (if b < 0x80 then (v', int i + 1)
                     else varint_read (Suc i) bs (v' - push_bit (7 * i) 0x80))
      else if b < 2 then (v', 10) else (0, -1))"

lemma ucast_less_iff: "n < 256 \<Longrightarrow> (ucast (b :: byte) :: uint64) < of_nat n \<longleftrightarrow> b < of_nat n"
  by (simp add: word_less_nat_alt unat_of_nat)

lemmas ucast_less_80 = ucast_less_iff [of 128, simplified]
lemmas ucast_less_2 = ucast_less_iff [of 2, simplified]

text \<open>At an offset inside the \<open>int\<close> range a block looks at the byte \<open>o + i\<close> of the slice.\<close>

lemma HasNext_nat:
  "o' + i < 2 ^ 63 \<Longrightarrow> HasNext p (int o') (int i) \<longleftrightarrow> o' + i < sl_len (buf p)"
  by (simp add: HasNext_def iadd_nat del: of_nat_add)

lemma varint_block_at:
  assumes "sl_wf (buf p)" and "o' + i < 2 ^ 63"
  shows "varint_block p (int o') i k v =
    (case drop (o' + i) (sl_bytes (buf p)) of [] \<Rightarrow> Inr (0, -1)
     | b # bs \<Rightarrow> (let v' = v + push_bit (7 * i) (ucast b) in
                 if b < 0x80 then Inr (v', int i + 1) else k (v' - push_bit (7 * i) 0x80)))"
proof (cases "o' + i < sl_len (buf p)")
  case True
  then have "drop (o' + i) (sl_bytes (buf p)) =
      sl_bytes (buf p) ! (o' + i) # drop (Suc (o' + i)) (sl_bytes (buf p))"
    using assms(1) by (simp add: Cons_nth_drop_Suc)
  with True assms show ?thesis
    by (simp add: varint_block_def HasNext_nat iadd_nat sl_index_in ucast_less_80 Let_def del: of_nat_add)
next
  case False
  with assms show ?thesis by (simp add: varint_block_def HasNext_nat)
qed

lemma varint_last_block_at:
  assumes "sl_wf (buf p)" and "o' + 9 < 2 ^ 63"
  shows "varint_last_block p (int o') v = Inr (varint_read 9 (drop (o' + 9) (sl_bytes (buf p))) v)"
proof (cases "o' + 9 < sl_len (buf p)")
  case True
  have i: "iadd (int o') 9 = int (o' + 9)" using assms(2) by (simp add: iadd_id)
  from True have "drop (o' + 9) (sl_bytes (buf p)) =
      sl_bytes (buf p) ! (o' + 9) # drop (Suc (o' + 9)) (sl_bytes (buf p))"
    using assms(1) by (intro Cons_nth_drop_Suc [symmetric]) simp
  with True assms show ?thesis
    by (simp add: varint_last_block_def HasNext_def i sl_index_in ucast_less_2 Let_def del: of_nat_add)
next
  case False
  with assms show ?thesis by (simp add: varint_last_block_def HasNext_def iadd_id)
qed

lemma varint_block_read:
  assumes k: "\<And>v. k v = Inr (varint_read j (drop (o' + j) (sl_bytes (buf p))) v)"
    and "sl_wf (buf p)" and "o' + 9 < 2 ^ 63" and "j = Suc i" and "i < 9"
  shows "varint_block p (int o') i k v = Inr (varint_read i (drop (o' + i) (sl_bytes (buf p))) v)"
proof -
  have "o' + i < 2 ^ 63" using assms(3,5) by simp
  then show ?thesis
    using assms(4,5) by (auto simp: varint_block_at [OF assms(2)] k Let_def split: list.split
        dest!: nth_drop_Cons)
qed

lemma readVarIntAt_read:
  assumes "sl_wf (buf p)" and "o' + 9 < 2 ^ 63"
  shows "readVarIntAt p (int o') = Inr (varint_read 0 (drop o' (sl_bytes (buf p))) 0)"
proof -
  have "readVarIntAt p (int o') = Inr (varint_read 0 (drop (o' + 0) (sl_bytes (buf p))) 0)"
    unfolding readVarIntAt_def
    by ((rule varint_block_read [OF _ assms])+, rule varint_last_block_at [OF assms]) simp_all
  then show ?thesis by simp
qed

text \<open>Reading a reference encoding gives the number back and its length.\<close>

lemma push_bit_of_nat: "push_bit k (of_nat n :: uint64) = of_nat (n * 2 ^ k)"
  by (simp add: push_bit_eq_mult)

lemma ucast_byte_of_nat: "n < 256 \<Longrightarrow> (ucast (of_nat n :: byte) :: uint64) = of_nat n"
  by (rule word_unat_eq_iff [THEN iffD2]) (simp only: unat_ucast_8_64, simp add: unat_of_nat)

lemma varint_read_bytes:
  "n * 2 ^ (7 * i) < 2 ^ 64 \<Longrightarrow> i \<le> 9 \<Longrightarrow>
   varint_read i (varint_bytes n @ rest) v =
     (v + of_nat (n * 2 ^ (7 * i)), int (i + length (varint_bytes n)))"
proof (induction n arbitrary: i v rule: varint_bytes.induct)
  case (1 n)
  show ?case
  proof (cases "n < 128")
    case True
    then have "(of_nat n :: byte) < 0x80" by (simp add: word_less_nat_alt unat_of_nat)
    moreover have "(of_nat n :: byte) < 2" if "\<not> i < 9"
    proof -
      from that "1.prems"(2) have "i = 9" by simp
      with "1.prems"(1) have "n < 2" by simp
      then show ?thesis by (simp add: word_less_nat_alt unat_of_nat)
    qed
    ultimately show ?thesis using True "1.prems"(2)
      by (auto simp: varint_bytes_small ucast_byte_of_nat push_bit_of_nat Let_def)
  next
    case False
    have i: "i < 9"
    proof (rule ccontr)
      assume "\<not> i < 9"
      with "1.prems"(2) have "i = 9" by simp
      with "1.prems"(1) False show False by simp
    qed
    have m: "n mod 128 + 128 < 256" using mod_less_divisor [of 128 n] by linarith
    have nb: "\<not> (of_nat (n mod 128 + 128) :: byte) < 0x80"
      using m by (simp only: word_less_nat_alt unat_of_nat) simp
    have split: "n div 128 * 2 ^ (7 * Suc i) + n mod 128 * 2 ^ (7 * i) = n * 2 ^ (7 * i)"
    proof -
      have "n * 2 ^ (7 * i) = (n div 128 * 128 + n mod 128) * 2 ^ (7 * i)" by simp
      also have "\<dots> = n div 128 * (128 * 2 ^ (7 * i)) + n mod 128 * 2 ^ (7 * i)"
        by (simp only: distrib_right mult.assoc)
      finally show ?thesis by (simp add: power_add)
    qed
    then have less: "n div 128 * 2 ^ (7 * Suc i) < 2 ^ 64" using "1.prems"(1) by linarith
    have v': "v + push_bit (7 * i) (of_nat (n mod 128 + 128) :: uint64) - push_bit (7 * i) 0x80
        = v + of_nat (n mod 128 * 2 ^ (7 * i))"
      by (simp add: push_bit_eq_mult algebra_simps)
    have "varint_read i (varint_bytes n @ rest) v
        = varint_read (Suc i) (varint_bytes (n div 128) @ rest)
            (v + push_bit (7 * i) (of_nat (n mod 128 + 128)) - push_bit (7 * i) 0x80)"
      using False i nb by (simp add: varint_bytes_step Let_def ucast_byte_of_nat [OF m] del: of_nat_add)
    also have "\<dots> = varint_read (Suc i) (varint_bytes (n div 128) @ rest)
        (v + of_nat (n mod 128 * 2 ^ (7 * i)))"
      by (simp only: v')
    also have "\<dots> = (v + of_nat (n mod 128 * 2 ^ (7 * i)) + of_nat (n div 128 * 2 ^ (7 * Suc i)),
        int (Suc i + length (varint_bytes (n div 128))))"
      using "1.IH" False less i by simp
    also have "\<dots> = (v + of_nat (n * 2 ^ (7 * i)), int (i + length (varint_bytes n)))"
      using False by (simp only: varint_bytes_step flip: split) (simp add: add_ac)
    finally show ?thesis .
  qed
qed

end
