(* ===== verification/Wire_Values.thy ===== *)
theory Wire_Values
  imports Varint
begin

section \<open>Wire values: every writer against its reader\<close>

text \<open>
  Two views make the proofs about buffers short. A reader sees bytes \<open>xs\<close> at offset \<open>o'\<close>
  (\<open>at_off\<close>), and an \<open>Append\<close> emits bytes \<open>xs\<close> (\<open>emits\<close>): on a writer with room for them it
  does not panic and extends the written bytes by exactly \<open>xs\<close>. The contract \<open>wire_value\<close>
  is what the generated code relies on for a scalar type: what is appended, how long it is,
  what a read and a skip at it do. It is met by each of the thirteen untagged scalar kinds.
\<close>

subsection \<open>Bytes at an offset\<close>

definition at_off :: "Reader \<Rightarrow> nat \<Rightarrow> byte list \<Rightarrow> bool" where
  "at_off p o' xs \<longleftrightarrow> sl_wf (buf p) \<and> sl_len (buf p) < 2 ^ 62 \<and> o' + length xs \<le> sl_len (buf p)
     \<and> take (length xs) (drop o' (sl_bytes (buf p))) = xs"

lemma at_off_append:
  "at_off p o' (xs @ ys) \<longleftrightarrow> at_off p o' xs \<and> at_off p (o' + length xs) ys"
proof (cases "sl_wf (buf p) \<and> o' + length (xs @ ys) \<le> sl_len (buf p)")
  case True
  let ?bs = "sl_bytes (buf p)"
  have "take (length (xs @ ys)) (drop o' ?bs) =
      take (length xs) (drop o' ?bs) @ take (length ys) (drop (o' + length xs) ?bs)"
    by (simp add: take_add add.commute)
  moreover have len: "length (take (length xs) (drop o' ?bs)) = length xs" using True by auto
  ultimately have "take (length (xs @ ys)) (drop o' ?bs) = xs @ ys \<longleftrightarrow>
      take (length xs) (drop o' ?bs) = xs \<and> take (length ys) (drop (o' + length xs) ?bs) = ys"
    by (simp only: append_eq_append_conv [OF disjI1 [OF len]])
  with True show ?thesis by (simp only: at_off_def length_append) auto
next
  case False
  then show ?thesis by (auto simp: at_off_def)
qed

lemma at_off_appendD1: "at_off p o' (xs @ ys) \<Longrightarrow> at_off p o' xs"
  by (simp add: at_off_append)

lemma at_off_appendD2: "at_off p o' (xs @ ys) \<Longrightarrow> at_off p (o' + length xs) ys"
  by (simp add: at_off_append)

lemma at_off_wf: "at_off p o' xs \<Longrightarrow> sl_wf (buf p)"
  by (simp add: at_off_def)

lemma at_off_small: "at_off p o' xs \<Longrightarrow> o' + length xs < 2 ^ 62"
  by (simp add: at_off_def)

lemma at_off_drop: "at_off p o' xs \<Longrightarrow> \<exists>rest. drop o' (sl_bytes (buf p)) = xs @ rest"
  by (metis append_take_drop_id at_off_def)

lemma at_off_iadd [go_int_simps]:
  "at_off p o' xs \<Longrightarrow> k \<le> length xs \<Longrightarrow> iadd (int o') (int k) = int (o' + k)"
  by (rule iadd_nat) (use at_off_small [of p o' xs] in simp)

lemma at_off_index:
  assumes "at_off p o' xs" and "i < length xs"
  shows "sl_index (buf p) (int (o' + i)) = Inr (xs ! i)"
proof -
  from assms have "xs ! i = sl_bytes (buf p) ! (o' + i)"
    unfolding at_off_def by (metis add.commute add_leD2 le_add1 length_drop nth_drop nth_take length_sl_bytes)
  with assms show ?thesis by (simp add: sl_index_in at_off_def del: of_nat_add)
qed

lemma at_off_slice:
  assumes "at_off p o' xs"
  shows "\<exists>t. sl_slice (buf p) (int o') (int (o' + length xs)) = Inr t \<and> sl_wf t
    \<and> sl_bytes t = xs \<and> sl_len t = length xs"
  using sl_slice_in [of "buf p" o' "length xs"] assms by (auto simp: at_off_def)

lemma at_off_of_bytes [simp]:
  "length (xs @ ys @ zs) < 2 ^ 62 \<Longrightarrow> at_off (NewReader (of_bytes (xs @ ys @ zs))) (length xs) ys"
  by (simp add: at_off_def NewReader_def)

subsection \<open>Varints and tags\<close>

lemma readVarIntAt_at [wire_simps]:
  assumes "at_off p o' (varint_bytes (unat v))"
  shows "readVarIntAt p (int o') = Inr (v, int (length (varint_bytes (unat v))))"
proof -
  from at_off_drop [OF assms] obtain rest where
    rest: "drop o' (sl_bytes (buf p)) = varint_bytes (unat v) @ rest" ..
  have "o' + 9 < 2 ^ 63" using at_off_small [OF assms] by simp
  with at_off_wf [OF assms] show ?thesis
    using varint_read_bytes [of "unat v" 0 rest 0] unat_u64_less [of v]
    by (simp add: readVarIntAt_read rest)
qed

lemma varint_read_bounds:
  "varint_read i bs v = (w, n) \<Longrightarrow> i \<le> 9 \<Longrightarrow> n = - 1 \<or> int i < n \<and> n \<le> 10 \<and> n - int i \<le> int (length bs)"
proof (induction i bs v arbitrary: w n rule: varint_read.induct)
  case (2 i b bs v)
  show ?case
  proof (cases "i < 9 \<and> \<not> b < 0x80")
    case True
    with "2.prems" have "varint_read (Suc i) bs (v + push_bit (7 * i) (ucast b) - push_bit (7 * i) 0x80) = (w, n)"
      by (simp add: Let_def)
    with True "2.IH" show ?thesis by fastforce
  next
    case False
    with "2.prems" show ?thesis by (auto simp: Let_def split: if_splits)
  qed
qed simp

lemma getVarIntSize_loop_at:
  "at_off p (s + i) (varint_bytes n) \<Longrightarrow> length (varint_bytes n) \<le> k \<Longrightarrow>
   getVarIntSize_loop k p (int s) (int i) = Inr (int (i + length (varint_bytes n)))"
proof (induction n arbitrary: i k rule: varint_bytes.induct)
  case (1 n)
  obtain k' where k: "k = Suc k'" using "1.prems"(2) by (cases k) auto
  have ne: "0 < length (varint_bytes n)" by simp
  then have "s + i < sl_len (buf p)" using "1.prems"(1) unfolding at_off_def by linarith
  then have has: "HasNext p (int s) (int i)" and idx: "sl_index (buf p) (iadd (int s) (int i)) = (Inr (varint_bytes n ! 0) :: byte rd)"
    using "1.prems"(1) ne at_off_index [OF "1.prems"(1) ne]
    by (auto simp: at_off_def HasNext_nat iadd_nat simp del: of_nat_add)
  show ?case
  proof (cases "n < 128")
    case True
    then have "(of_nat n :: byte) < 0x80" by (simp add: word_less_nat_alt unat_of_nat)
    with True has idx show ?thesis by (simp add: k varint_bytes_small)
  next
    case False
    have m: "n mod 128 + 128 < 256" using mod_less_divisor [of 128 n] by linarith
    have "\<not> (of_nat (n mod 128 + 128) :: byte) < 0x80"
      using m by (simp only: word_less_nat_alt unat_of_nat) simp
    then have "getVarIntSize_loop k p (int s) (int i) = getVarIntSize_loop k' p (int s) (int (Suc i))"
      using False has idx by (simp add: k varint_bytes_step del: of_nat_add) (simp add: add.commute)
    moreover have "at_off p (s + Suc i) (varint_bytes (n div 128))"
      using "1.prems"(1) False at_off_appendD2 [of p "s + i" "[of_nat (n mod 128 + 128)]"]
      by (simp add: varint_bytes_step)
    moreover have "length (varint_bytes (n div 128)) \<le> k'"
      using "1.prems"(2) False by (simp add: k varint_bytes_step)
    ultimately show ?thesis using "1.IH" [OF False, of "Suc i" k'] False
      by (simp add: varint_bytes_step)
  qed
qed

lemma getVarIntSize_at [wire_simps]:
  "at_off p o' (varint_bytes (unat v)) \<Longrightarrow>
   getVarIntSize p (int o') = Inr (int (length (varint_bytes (unat (v :: uint64)))))"
  using getVarIntSize_loop_at [of p o' 0 "unat v" 10] length_varint_bytes_10 [of v]
  by (simp add: getVarIntSize_def)


text \<open>A tag on the wire: the number shifted over the three bits of the wire type.\<close>

definition tag_word :: "ProtoWireNumber \<Rightarrow> ProtoWireType \<Rightarrow> uint64" where
  "tag_word tag t = push_bit 3 (scast tag) OR ucast (t AND 7)"

definition tag_bytes :: "ProtoWireNumber \<Rightarrow> ProtoWireType \<Rightarrow> byte list" where
  "tag_bytes tag t = varint_bytes (unat (tag_word tag t))"

text \<open>The numbers a tag can carry: those the code's \<open>int32\<close> holds without its sign bit.\<close>

definition valid_tag :: "ProtoWireNumber \<Rightarrow> bool" where
  "valid_tag tag \<longleftrightarrow> 0 < tag \<and> tag < 0x80000000"

lemma scast_of_small: "(tag :: int32) < 0x80000000 \<Longrightarrow> scast tag = (of_nat (unat tag) :: uint64)"
proof -
  assume "tag < 0x80000000"
  then have "uint tag < 2 ^ 31" by (simp add: word_less_def)
  then have "signed_take_bit 31 (uint tag) = uint tag"
    using uint_ge_0 [of tag] by (intro signed_take_bit_int_eq_self) linarith+
  then have "sint tag = uint tag" by (simp add: sint_uint)
  then have "sint tag = int (unat tag)" by (simp only: uint_nat)
  then have "(of_int (sint tag) :: uint64) = of_nat (unat tag)" by (simp only: of_int_of_nat_eq)
  then show ?thesis by simp
qed

lemma or_mult_8: "b < 8 \<Longrightarrow> (8 * a) OR b = 8 * a + (b :: nat)"
proof -
  assume "b < 8"
  then have b: "take_bit 3 b = b" by (simp add: take_bit_eq_mod)
  have a: "push_bit 3 a = 8 * a" by (simp add: push_bit_eq_mult)
  have "push_bit 3 a AND take_bit 3 b = 0" by (rule bit_eqI) (auto simp: bit_and_iff bit_push_bit_iff bit_take_bit_iff)
  then have "8 * a AND b = 0" by (simp only: a b)
  then show ?thesis by (rule disjunctive_add_eq_or [symmetric])
qed

lemma unat_tag_word:
  assumes "valid_tag tag" and "t < 8"
  shows "unat (tag_word tag t) = 8 * unat tag + unat t"
proof -
  have tag: "unat tag < 2 ^ 31" and t: "unat t < 8"
    using assms by (simp_all add: valid_tag_def word_less_nat_alt)
  have "unat (t AND 7) = unat t AND mask 3" by (simp add: unsigned_and_eq mask_eq_exp_minus_1)
  also have "\<dots> = unat t" using t by (simp only: take_bit_eq_mask [symmetric]) (simp add: take_bit_eq_mod)
  finally have "unat (ucast (t AND 7) :: uint64) = unat t" by (simp only: unat_ucast_8_64)
  moreover have "unat (push_bit 3 (scast tag) :: uint64) = 8 * unat tag"
  proof -
    have "push_bit 3 (scast tag) = (of_nat (unat tag * 2 ^ 3) :: uint64)"
      using assms(1) by (simp only: valid_tag_def scast_of_small push_bit_of_nat)
    then show ?thesis using tag by (simp only: unat_of_nat) simp
  qed
  ultimately show ?thesis using t by (simp only: tag_word_def unsigned_or_eq or_mult_8)
qed

lemma tag_word_fields:
  assumes "valid_tag tag" and "t < 8"
  shows "unat (drop_bit 3 (tag_word tag t)) = unat tag" and "unat (tag_word tag t AND 7) = unat t"
proof -
  have t: "unat t < 8" using assms(2) by (simp add: word_less_nat_alt)
  show "unat (drop_bit 3 (tag_word tag t)) = unat tag"
    using t by (subst unat_drop_bit_eq) (simp add: drop_bit_eq_div unat_tag_word [OF assms])
  have "unat (tag_word tag t AND 7) = unat (tag_word tag t) AND mask 3"
    by (simp add: unsigned_and_eq mask_eq_exp_minus_1)
  also have "\<dots> = unat t"
    using t by (simp only: take_bit_eq_mask [symmetric] unat_tag_word [OF assms]) (simp add: take_bit_eq_mod)
  finally show "unat (tag_word tag t AND 7) = unat t" .
qed

lemma ReadTagAt_at [wire_simps]:
  assumes "valid_tag tag" and "t < 8" and "at_off p o' (tag_bytes tag t)"
  shows "ReadTagAt p (int o') = Inr (tag, t, int (length (tag_bytes tag t)))"
proof -
  let ?w = "tag_word tag t"
  have "unat tag < 2 ^ 31" using assms(1) by (simp add: valid_tag_def word_less_nat_alt)
  then have range: "\<not> drop_bit 3 ?w > 0x7FFFFFFF"
    by (simp only: word_less_nat_alt tag_word_fields [OF assms(1,2)]) simp
  have "ucast (drop_bit 3 ?w) = (of_nat (unat (drop_bit 3 ?w)) :: int32)" by simp
  then have num: "ucast (drop_bit 3 ?w) = tag"
    by (simp only: tag_word_fields [OF assms(1,2)]) simp
  have "ucast (?w AND 7) = (of_nat (unat (?w AND 7)) :: byte)" by simp
  then have wtype: "ucast (?w AND 7) = t"
    by (simp only: tag_word_fields [OF assms(1,2)]) simp
  show ?thesis
    using assms(3) range num wtype
    by (simp only: ReadTagAt_def tag_bytes_def readVarIntAt_at) simp
qed

lemma length_varint_bytes_div8: "m div 8 = n div 8 \<Longrightarrow> length (varint_bytes m) = length (varint_bytes n)"
proof (induction m arbitrary: n rule: varint_bytes.induct)
  case (1 m)
  have "k < 128 \<longleftrightarrow> k div 8 < 16" for k :: nat by (simp add: less_mult_imp_div_less div_less_iff_less_mult)
  with "1.prems" have iff: "m < 128 \<longleftrightarrow> n < 128" by simp
  show ?case
  proof (cases "m < 128")
    case True
    with iff show ?thesis by (simp add: varint_bytes_small)
  next
    case False
    have "m div 128 div 8 = n div 128 div 8"
      using "1.prems" by (metis div_mult2_eq mult.commute)
    with False iff "1.IH" [OF False, of "n div 128"] show ?thesis by (simp add: varint_bytes_step)
  qed
qed

lemma SizeTag_eq:
  assumes "valid_tag tag" and "t < 8"
  shows "SizeTag tag = int (length (tag_bytes tag t))"
proof -
  have "SizeTag tag = SizeVarInt (tag_word tag 0)" by (simp add: SizeTag_def tag_word_def)
  moreover have "unat (tag_word tag 0) div 8 = unat (tag_word tag t) div 8"
    using unat_tag_word [OF assms] unat_tag_word [OF assms(1), of 0] assms(2)
    by (simp add: word_less_nat_alt)
  ultimately show ?thesis
    using length_varint_bytes_div8 by (metis SizeVarInt_eq tag_bytes_def)
qed

subsection \<open>Zigzag\<close>

lemma bit_zigzag: "n < 64 \<Longrightarrow> bit (zigzag v) n \<longleftrightarrow> (n \<noteq> 0 \<and> bit v (n - 1)) \<noteq> bit v 63"
  by (cases "n = 0") (auto simp only: zigzag_def bit_xor_iff bit_push_bit_iff bit_signed_drop_bit_iff
      possible_bit_word, auto)

lemma zigzag_inverse: "drop_bit 1 (zigzag v) XOR signed_drop_bit 63 (push_bit 63 (zigzag v)) = v"
proof (rule bit_word_eqI)
  fix n assume "n < LENGTH(64)"
  then have n: "n < 64" by simp
  have "bit (signed_drop_bit 63 (push_bit 63 (zigzag v))) n \<longleftrightarrow> bit v 63"
    using n by (cases "n = 0") (auto simp: bit_signed_drop_bit_iff bit_push_bit_iff bit_zigzag)
  moreover have "bit (drop_bit 1 (zigzag v)) n \<longleftrightarrow> n < 63 \<and> bit v n \<noteq> bit v 63"
    using n by (cases "n < 63") (auto simp: bit_drop_bit_eq bit_zigzag not_less dest: bit_imp_le_length)
  ultimately show "bit (drop_bit 1 (zigzag v) XOR signed_drop_bit 63 (push_bit 63 (zigzag v))) n = bit v n"
    using n by (cases "n = 63") (simp_all only: bit_xor_iff, auto)
qed

lemma readSignedVarIntAt_at [wire_simps]:
  assumes "at_off p o' (varint_bytes (unat (zigzag v)))"
  shows "readSignedVarIntAt p (int o') = Inr (v, int (length (varint_bytes (unat (zigzag v)))))"
  by (simp add: readSignedVarIntAt_def readVarIntAt_at [OF assms] zigzag_inverse del: One_nat_def)

subsection \<open>Fixed width\<close>

text \<open>The byte at bit \<open>k\<close> of a value, widened and shifted back, is that byte's bits of the value.\<close>

lemma bit_byte_at:
  "n < 64 \<Longrightarrow> bit (push_bit k (ucast (ucast (drop_bit k (v :: 'a::len word)) :: byte)) :: uint64) n
     \<longleftrightarrow> k \<le> n \<and> n < k + 8 \<and> bit v n"
  by (auto simp: bit_simps)

lemma bit_byte_at_0:
  "n < 64 \<Longrightarrow> bit (ucast (ucast (v :: 'a::len word) :: byte) :: uint64) n \<longleftrightarrow> n < 8 \<and> bit v n"
  using bit_byte_at [of n 0 v] by simp

lemma fixed32_join:
  "ucast (ucast v :: byte) OR push_bit 8 (ucast (ucast (drop_bit 8 v) :: byte)) OR
   push_bit 16 (ucast (ucast (drop_bit 16 v) :: byte)) OR
   push_bit 24 (ucast (ucast (drop_bit 24 v) :: byte)) = (ucast (v :: uint32) :: uint64)"
proof (rule bit_word_eqI)
  fix n assume "n < LENGTH(64)"
  then have n: "n < 64" by simp
  have "bit v n \<Longrightarrow> n < 32" using bit_imp_le_length [of v n] by simp
  then show "bit (ucast (ucast v :: byte) OR push_bit 8 (ucast (ucast (drop_bit 8 v) :: byte)) OR
      push_bit 16 (ucast (ucast (drop_bit 16 v) :: byte)) OR
      push_bit 24 (ucast (ucast (drop_bit 24 v) :: byte)) :: uint64) n = bit (ucast v :: uint64) n"
    using n by (simp only: bit_or_iff bit_byte_at [OF n] bit_byte_at_0 [OF n] bit_ucast_iff) auto
qed

lemma fixed64_join:
  "ucast (ucast v :: byte) OR push_bit 8 (ucast (ucast (drop_bit 8 v) :: byte)) OR
   push_bit 16 (ucast (ucast (drop_bit 16 v) :: byte)) OR
   push_bit 24 (ucast (ucast (drop_bit 24 v) :: byte)) OR
   push_bit 32 (ucast (ucast (drop_bit 32 v) :: byte)) OR
   push_bit 40 (ucast (ucast (drop_bit 40 v) :: byte)) OR
   push_bit 48 (ucast (ucast (drop_bit 48 v) :: byte)) OR
   push_bit 56 (ucast (ucast (drop_bit 56 v) :: byte)) = (v :: uint64)"
proof (rule bit_word_eqI)
  fix n assume "n < LENGTH(64)"
  then have n: "n < 64" by simp
  then show "bit (ucast (ucast v :: byte) OR push_bit 8 (ucast (ucast (drop_bit 8 v) :: byte)) OR
      push_bit 16 (ucast (ucast (drop_bit 16 v) :: byte)) OR
      push_bit 24 (ucast (ucast (drop_bit 24 v) :: byte)) OR
      push_bit 32 (ucast (ucast (drop_bit 32 v) :: byte)) OR
      push_bit 40 (ucast (ucast (drop_bit 40 v) :: byte)) OR
      push_bit 48 (ucast (ucast (drop_bit 48 v) :: byte)) OR
      push_bit 56 (ucast (ucast (drop_bit 56 v) :: byte)) :: uint64) n = bit v n"
    by (simp only: bit_or_iff bit_byte_at [OF n] bit_byte_at_0 [OF n]) linarith
qed

lemma u64_at_off:
  assumes "at_off p o' xs" and "k < length xs"
  shows "u64_at p (iadd (int o') (int k)) = Inr (ucast (xs ! k))"
  using at_off_iadd [OF assms(1), of k] assms(2)
  by (simp add: u64_at_def at_off_index [OF assms] del: of_nat_add)

lemma u64_at_off_0:
  assumes "at_off p o' (x # xs)"
  shows "u64_at p (int o') = Inr (ucast x)"
  by (simp add: u64_at_def at_off_index [OF assms, of 0, simplified])

lemma readFixed32At_at [wire_simps]:
  assumes "at_off p o' (fixed32_bytes v)"
  shows "readFixed32At p (int o') = Inr (ucast v)"
  using assms u64_at_off [OF assms, of 1] u64_at_off [OF assms, of 2] u64_at_off [OF assms, of 3]
  by (simp add: readFixed32At_def fixed32_bytes_def u64_at_off_0 fixed32_join)

lemma readFixed64At_at [wire_simps]:
  assumes "at_off p o' (fixed64_bytes v)"
  shows "readFixed64At p (int o') = Inr v"
  using assms u64_at_off [OF assms, of 1] u64_at_off [OF assms, of 2] u64_at_off [OF assms, of 3]
    u64_at_off [OF assms, of 4] u64_at_off [OF assms, of 5] u64_at_off [OF assms, of 6]
    u64_at_off [OF assms, of 7]
  by (simp add: readFixed64At_def fixed64_bytes_def u64_at_off_0 fixed64_join)

subsection \<open>What an append emits\<close>

definition wr_ok :: "Writer \<Rightarrow> bool" where
  "wr_ok w \<longleftrightarrow> sl_wf (wbuf w) \<and> sl_cap (wbuf w) < 2 ^ 62"

definition fits :: "byte list \<Rightarrow> Writer \<Rightarrow> bool" where
  "fits bs w \<longleftrightarrow> sl_len (wbuf w) + length bs \<le> sl_cap (wbuf w)"

text \<open>The writer after \<open>bs\<close>, written into the room behind the slice's length.\<close>

definition pushed :: "byte list \<Rightarrow> Writer \<Rightarrow> Writer" where
  "pushed bs w = (let m = sl_len (wbuf w); arr = sl_arr (wbuf w) in
     w\<lparr>wbuf := \<lparr>sl_arr = take m arr @ bs @ drop (m + length bs) arr, sl_len = m + length bs\<rparr>\<rparr>)"

definition written :: "Writer \<Rightarrow> byte list" where
  "written w = sl_bytes (wbuf w)"

definition emits :: "(Writer \<Rightarrow> wr) \<Rightarrow> byte list \<Rightarrow> bool" where
  "emits f bs \<longleftrightarrow> (\<forall>w. wr_ok w \<longrightarrow> fits bs w \<longrightarrow> f w = Inr (pushed bs w))"

lemma emitsD: "emits f bs \<Longrightarrow> wr_ok w \<Longrightarrow> fits bs w \<Longrightarrow> f w = Inr (pushed bs w)"
  by (simp add: emits_def)

lemma pushed_cap [simp]: "wr_ok w \<Longrightarrow> fits bs w \<Longrightarrow> sl_cap (wbuf (pushed bs w)) = sl_cap (wbuf w)"
  by (simp add: pushed_def sl_cap_def fits_def wr_ok_def sl_wf_def Let_def)

lemma pushed_len [simp]: "sl_len (wbuf (pushed bs w)) = sl_len (wbuf w) + length bs"
  by (simp add: pushed_def Let_def)

lemma pushed_ok: "wr_ok w \<Longrightarrow> fits bs w \<Longrightarrow> wr_ok (pushed bs w)"
  using pushed_cap [of w bs] by (simp add: wr_ok_def sl_wf_def fits_def sl_cap_def)

lemma written_pushed: "wr_ok w \<Longrightarrow> written (pushed bs w) = written w @ bs"
  by (simp add: written_def pushed_def sl_bytes_def wr_ok_def sl_wf_def Let_def)

lemma fits_append: "wr_ok w \<Longrightarrow> fits (xs @ ys) w \<longleftrightarrow> fits xs w \<and> fits ys (pushed xs w)"
  using pushed_cap [of w xs] by (auto simp: fits_def)

lemma pushed_pushed: "wr_ok w \<Longrightarrow> fits xs w \<Longrightarrow> pushed ys (pushed xs w) = pushed (xs @ ys) w"
  by (simp add: pushed_def Let_def wr_ok_def sl_wf_def fits_def sl_cap_def add_ac)

lemma writeBytes_emits: "emits (writeBytes bs) bs"
  unfolding emits_def
proof (intro allI impI)
  fix w assume w: "wr_ok w" "fits bs w"
  let ?m = "sl_len (wbuf w)"
  have len: "?m + length bs \<le> length (sl_arr (wbuf w))" "length (sl_arr (wbuf w)) < 2 ^ 62"
    using w by (simp_all add: fits_def wr_ok_def sl_cap_def)
  then have "iadd (int ?m) (int (length bs)) = int (?m + length bs)" by (intro iadd_nat) simp
  then show "writeBytes bs w = Inr (pushed bs w)"
    using len by (simp add: writeBytes_def Let_def sl_slice_def sl_cap_def sl_copy_def pushed_def
        del: of_nat_add)
qed

lemma writeByte_emits: "emits (writeByte bs) bs"
  using writeBytes_emits by (simp add: emits_def writeByte_def)

lemma emits_andThen:
  "emits f xs \<Longrightarrow> emits g ys \<Longrightarrow> emits (\<lambda>w. andThen (f w) g) (xs @ ys)"
  by (auto simp: emits_def fits_append pushed_pushed pushed_ok)

lemma emits_foldE:
  "(\<And>x. x \<in> set xs \<Longrightarrow> emits (f x) (b x)) \<Longrightarrow> emits (foldE f xs) (concat (map b xs))"
proof (induction xs)
  case Nil
  show ?case by (simp add: emits_def pushed_def fits_def wr_ok_def sl_wf_def Let_def)
next
  case (Cons x xs)
  then have "emits (\<lambda>w. andThen (f x w) (foldE f xs)) (b x @ concat (map b xs))"
    by (intro emits_andThen) simp_all
  then show ?case by (simp add: emits_def)
qed

lemma appendVarInt_emits: "emits (appendVarInt v) (varint_bytes (unat v))"
  using writeByte_emits by (simp add: emits_def appendVarInt_eq)

lemma appendTag_emits: "emits (appendTag tag t) (tag_bytes tag t)"
  using appendVarInt_emits by (simp add: emits_def appendTag_def tag_bytes_def tag_word_def)

text \<open>A write that does not fit in the capacity panics.\<close>

lemma writeBytes_overflow:
  assumes "wr_ok w" and "\<not> fits bs w" and "length bs < 2 ^ 62"
  shows "writeBytes bs w = Inl Panic"
proof -
  have "sl_len (wbuf w) \<le> sl_cap (wbuf w)" "sl_cap (wbuf w) < 2 ^ 62"
    using assms(1) by (simp_all add: wr_ok_def sl_wf_def sl_cap_def)
  then have "iadd (int (sl_len (wbuf w))) (int (length bs)) = int (sl_len (wbuf w) + length bs)"
    using assms(3) by (intro iadd_nat) simp
  with assms(2) show ?thesis by (simp add: writeBytes_def Let_def sl_slice_def fits_def del: of_nat_add)
qed

end
