(* ===== verification/Scalar_Values.thy ===== *)
theory Scalar_Values
  imports Wire_Values
begin

section \<open>The scalar contract of the runtime\<close>

text \<open>
  What generated code relies on for a scalar type of \<^verbatim>\<open>shared/gremlin_go\<close>: the family
  \<open>AppendX\<close>, \<open>AppendXWithoutTag\<close>, \<open>SizeX\<close>, \<open>ReadX\<close>, \<open>SizedReadX\<close> and the wire type agree
  on one encoding. The lemmas a field needs (a tagged field, a packed list) are proved once
  from the contract; each of the thirteen numeric and boolean families is an interpretation.
\<close>

lemma skip_varint_at:
  assumes "at_off p o' (varint_bytes (unat (v :: uint64)))"
  shows "SkipData (Suc fuel) p (int o') VarIntType =
    Some (Inr (int (o' + length (varint_bytes (unat v)))))"
  using assms by (simp add: getVarIntSize_at at_off_iadd del: of_nat_add)

lemma skip_fixed32_at:
  assumes "at_off p o' xs" and "length xs = 4"
  shows "SkipData (Suc fuel) p (int o') Fixed32Type = Some (Inr (int (o' + 4)))"
  using at_off_iadd [OF assms(1), of 4] assms(2) by (simp add: wire_type_defs)

lemma skip_fixed64_at:
  assumes "at_off p o' xs" and "length xs = 8"
  shows "SkipData (Suc fuel) p (int o') Fixed64Type = Some (Inr (int (o' + 8)))"
  using at_off_iadd [OF assms(1), of 8] assms(2) by (simp add: wire_type_defs)

lemma length_fixed32_bytes [simp]: "length (fixed32_bytes v) = 4"
  by (simp add: fixed32_bytes_def)

lemma length_fixed64_bytes [simp]: "length (fixed64_bytes v) = 8"
  by (simp add: fixed64_bytes_def)

locale wire_scalar =
  fixes enc :: "'a \<Rightarrow> byte list"
    and wt :: ProtoWireType
    and append_untagged :: "'a \<Rightarrow> Writer \<Rightarrow> wr"
    and append_tagged :: "ProtoWireNumber \<Rightarrow> 'a \<Rightarrow> Writer \<Rightarrow> wr"
    and sizeOf :: "'a \<Rightarrow> int"
    and read :: "Reader \<Rightarrow> int \<Rightarrow> 'a rd"
    and sized_read :: "Reader \<Rightarrow> int \<Rightarrow> ('a \<times> int) rd"
  assumes append_untagged_emits: "emits (append_untagged x) (enc x)"
    and append_tagged_def: "append_tagged tag x w = andThen (appendTag tag wt w) (append_untagged x)"
    and sizeOf_enc: "sizeOf x = int (length (enc x))"
    and read_enc: "at_off p o' (enc x) \<Longrightarrow> read p (int o') = Inr x"
    and sized_read_enc: "at_off p o' (enc x) \<Longrightarrow> sized_read p (int o') = Inr (x, int (length (enc x)))"
    and skip_enc: "at_off p o' (enc x) \<Longrightarrow>
      SkipData (Suc fuel) p (int o') wt = Some (Inr (int (o' + length (enc x))))"
    and enc_length: "0 < length (enc x)" "length (enc x) \<le> 10"
begin

lemma append_tagged_emits: "emits (append_tagged tag x) (tag_bytes tag wt @ enc x)"
  using emits_andThen [OF appendTag_emits append_untagged_emits]
  by (simp add: emits_def append_tagged_def)

lemma packed_emits: "emits (foldE append_untagged xs) (concat (map enc xs))"
  by (intro emits_foldE append_untagged_emits)

lemma packed_size: "(\<Sum>x\<leftarrow>xs. sizeOf x) = int (length (concat (map enc xs)))"
  by (induction xs) (simp_all add: sizeOf_enc)

lemma packed_length: "length xs \<le> length (concat (map enc xs))"
proof (induction xs)
  case (Cons x xs)
  then show ?case using enc_length(1) [of x] by (simp del: length_greater_0_conv)
qed (simp)

text \<open>A tagged value in a buffer: the tag reads back, the value reads back behind it.\<close>

lemma tagged_read:
  assumes "valid_tag tag" and "wt < 8" and "at_off p o' (tag_bytes tag wt @ enc x)"
  shows "ReadTagAt p (int o') = Inr (tag, wt, int (length (tag_bytes tag wt)))"
    and "read p (int (o' + length (tag_bytes tag wt))) = Inr x"
    and "SkipData (Suc fuel) p (int (o' + length (tag_bytes tag wt))) wt =
      Some (Inr (int (o' + length (tag_bytes tag wt @ enc x))))"
proof -
  have v: "at_off p (o' + length (tag_bytes tag wt)) (enc x)"
    using assms(3) by (rule at_off_appendD2)
  show "ReadTagAt p (int o') = Inr (tag, wt, int (length (tag_bytes tag wt)))"
    using assms at_off_appendD1 by (blast intro: ReadTagAt_at)
  show "read p (int (o' + length (tag_bytes tag wt))) = Inr x"
    using v by (rule read_enc)
  show "SkipData (Suc fuel) p (int (o' + length (tag_bytes tag wt))) wt =
      Some (Inr (int (o' + length (tag_bytes tag wt @ enc x))))"
    using skip_enc [OF v] by (simp only: length_append add.assoc)
qed

text \<open>The loop of a packed list: read values at growing offsets until \<open>end\<close>.\<close>

lemma sized_read_step:
  assumes "at_off p o' (concat (map enc (x # xs)))"
  shows "sized_read p (int o') = Inr (x, int (length (enc x)))"
    and "iadd (int o') (int (length (enc x))) = int (o' + length (enc x))"
    and "at_off p (o' + length (enc x)) (concat (map enc xs))"
  using assms at_off_iadd [OF assms] by (simp_all add: at_off_append sized_read_enc)

end


subsection \<open>The thirteen families\<close>

lemma ucast_scast_32 [simp]: "ucast (scast (x :: int32) :: uint64) = x"
  by (rule bit_word_eqI) (auto simp: bit_simps)

lemma ucast_ucast_32 [simp]: "ucast (ucast (x :: uint32) :: uint64) = x"
  by (rule bit_word_eqI) (auto simp: bit_simps)

definition enc_varint :: "('a \<Rightarrow> uint64) \<Rightarrow> 'a \<Rightarrow> byte list" where
  "enc_varint f x = varint_bytes (unat (f x))"

lemma enc_varint_length: "0 < length (enc_varint f x)" "length (enc_varint f x) \<le> 10"
  by (simp_all add: enc_varint_def length_varint_bytes_10)

definition bool_word :: "bool \<Rightarrow> uint64" where
  "bool_word b = (if b then 1 else 0)"

lemmas scalar_laws = emits_def appendVarInt_emits [THEN emitsD] enc_varint_def untagged_appends
  tagged_appends size_defs SizeVarInt_eq unsized_reads sized_reads readVarIntAt_at
  readSignedVarIntAt_at getVarIntSize_at appendSignedVarInt_def

lemmas fixed_laws = emits_def writeByte_emits [THEN emitsD] appendFixed32_def appendFixed64_def
  untagged_appends tagged_appends size_defs unsized_reads sized_reads readFixed32At_at
  readFixed64At_at

interpretation bool: wire_scalar "enc_varint bool_word" VarIntType AppendBoolWithoutTag AppendBool
    SizeBool ReadBool SizedReadBool
proof unfold_locales
  show "emits (AppendBoolWithoutTag x) (enc_varint bool_word x)" for x
    using appendVarInt_emits [of 0] appendVarInt_emits [of 1]
    by (simp add: emits_def AppendBoolWithoutTag_def enc_varint_def bool_word_def)
  show "SizeBool x = int (length (enc_varint bool_word x))" for x
    by (simp add: SizeBool_def enc_varint_def bool_word_def varint_bytes_small)
  show "ReadBool p (int o') = Inr x" if "at_off p o' (enc_varint bool_word x)" for p o' x
    using that by (simp add: ReadBool_def ReadVarInt_def enc_varint_def readVarIntAt_at bool_word_def)
  show "SizedReadBool p (int o') = Inr (x, int (length (enc_varint bool_word x)))"
    if "at_off p o' (enc_varint bool_word x)" for p o' x
    using that by (simp add: SizedReadBool_def SizedReadVarInt_def enc_varint_def readVarIntAt_at bool_word_def)
qed (simp_all add: AppendBool_def enc_varint_def skip_varint_at length_varint_bytes_10 del: of_nat_add SkipData.simps)

interpretation int32: wire_scalar "enc_varint scast" VarIntType AppendInt32WithoutTag AppendInt32
    SizeInt32 ReadInt32 SizedReadInt32
  by unfold_locales (simp_all add: scalar_laws skip_varint_at length_varint_bytes_10
      del: of_nat_add SkipData.simps)

interpretation int64: wire_scalar "enc_varint (\<lambda>x. x)" VarIntType AppendInt64WithoutTag AppendInt64
    SizeInt64 ReadInt64 SizedReadInt64
  by unfold_locales (simp_all add: scalar_laws skip_varint_at length_varint_bytes_10
      del: of_nat_add SkipData.simps)

interpretation uint32: wire_scalar "enc_varint ucast" VarIntType AppendUint32WithoutTag AppendUint32
    SizeUint32 ReadUint32 SizedReadUint32
  by unfold_locales (simp_all add: scalar_laws skip_varint_at length_varint_bytes_10
      del: of_nat_add SkipData.simps)

interpretation uint64: wire_scalar "enc_varint (\<lambda>x. x)" VarIntType AppendUint64WithoutTag AppendUint64
    SizeUint64 ReadUint64 SizedReadUint64
  by unfold_locales (simp_all add: scalar_laws skip_varint_at length_varint_bytes_10
      del: of_nat_add SkipData.simps)

interpretation sint32: wire_scalar "enc_varint (\<lambda>x. zigzag (scast x))" VarIntType AppendSInt32WithoutTag AppendSInt32
    SizeSInt32 ReadSInt32 SizedReadSInt32
  by unfold_locales (simp_all add: scalar_laws skip_varint_at length_varint_bytes_10
      del: of_nat_add SkipData.simps)

interpretation sint64: wire_scalar "enc_varint zigzag" VarIntType AppendSInt64WithoutTag AppendSInt64
    SizeSInt64 ReadSInt64 SizedReadSInt64
  by unfold_locales (simp_all add: scalar_laws skip_varint_at length_varint_bytes_10
      del: of_nat_add SkipData.simps)

interpretation fixed32: wire_scalar fixed32_bytes Fixed32Type AppendFixed32WithoutTag AppendFixed32
    SizeFixed32 ReadFixed32 SizedReadFixed32
  by unfold_locales (simp_all add: fixed_laws skip_fixed32_at del: of_nat_add SkipData.simps)

interpretation fixed64: wire_scalar fixed64_bytes Fixed64Type AppendFixed64WithoutTag AppendFixed64
    SizeFixed64 ReadFixed64 SizedReadFixed64
  by unfold_locales (simp_all add: fixed_laws skip_fixed64_at del: of_nat_add SkipData.simps)

interpretation sfixed32: wire_scalar fixed32_bytes Fixed32Type AppendSFixed32WithoutTag AppendSFixed32
    SizeSFixed32 ReadSFixed32 SizedReadSFixed32
  by unfold_locales (simp_all add: fixed_laws skip_fixed32_at del: of_nat_add SkipData.simps)

interpretation sfixed64: wire_scalar fixed64_bytes Fixed64Type AppendSFixed64WithoutTag AppendSFixed64
    SizeSFixed64 ReadSFixed64 SizedReadSFixed64
  by unfold_locales (simp_all add: fixed_laws skip_fixed64_at del: of_nat_add SkipData.simps)

interpretation float32: wire_scalar fixed32_bytes Fixed32Type AppendFloat32WithoutTag AppendFloat32
    SizeFloat32 ReadFloat32 SizedReadFloat32
  by unfold_locales (simp_all add: fixed_laws skip_fixed32_at del: of_nat_add SkipData.simps)

interpretation float64: wire_scalar fixed64_bytes Fixed64Type AppendFloat64WithoutTag AppendFloat64
    SizeFloat64 ReadFloat64 SizedReadFloat64
  by unfold_locales (simp_all add: fixed_laws skip_fixed64_at del: of_nat_add SkipData.simps)

subsection \<open>Length-delimited values\<close>

text \<open>
  Strings, byte slices and embedded messages: the length as a varint, then the bytes. The
  length goes through \<open>uint64\<close>, as \<open>uint64(len)\<close> does.
\<close>

definition len_bytes :: "nat \<Rightarrow> byte list" where
  "len_bytes n = varint_bytes (unat (of_nat n :: uint64))"

definition enc_delimited :: "byte list \<Rightarrow> byte list" where
  "enc_delimited d = len_bytes (length d) @ d"

lemma len_bytes_length: "0 < length (len_bytes n)" "length (len_bytes n) \<le> 10"
  by (simp_all add: len_bytes_def length_varint_bytes_10)

lemma SizeUint64_len: "SizeUint64 (of_nat n) = int (length (len_bytes n))"
  by (simp add: SizeUint64_def SizeVarInt_eq len_bytes_def)

lemma AppendBytesTag_emits:
  "emits (AppendBytesTag tag (int n)) (tag_bytes tag BytesType @ len_bytes n)"
  using emits_andThen [OF appendTag_emits appendVarInt_emits]
  by (simp add: emits_def AppendBytesTag_def len_bytes_def uint64_of_int_of_nat)

lemma AppendBytes_emits: "emits (AppendBytes tag d) (tag_bytes tag BytesType @ enc_delimited d)"
  using emits_andThen [OF appendTag_emits emits_andThen [OF appendVarInt_emits writeBytes_emits]]
  by (simp add: emits_def AppendBytes_def enc_delimited_def len_bytes_def uint64_of_int_of_nat)

text \<open>\<open>AppendString\<close> writes out the copy that \<open>AppendBytes\<close> calls \<open>writeBytes\<close> for.\<close>

lemma AppendString_eq: "AppendString tag d w = AppendBytes tag d w"
  by (simp add: AppendString_def AppendBytes_def writeBytes_def [abs_def] Let_def)

lemma AppendString_emits: "emits (AppendString tag d) (tag_bytes tag BytesType @ enc_delimited d)"
  using AppendBytes_emits by (simp add: emits_def AppendString_eq)

lemma delimited_length_read:
  assumes "at_off p o' (enc_delimited d)"
  shows "readVarIntAt p (int o') = Inr (of_nat (length d), int (length (len_bytes (length d))))"
    and "int_of_uint64 (of_nat (length d)) = int (length d)"
proof -
  from assms have "at_off p o' (len_bytes (length d))"
    by (simp add: enc_delimited_def at_off_append)
  then show "readVarIntAt p (int o') = Inr (of_nat (length d), int (length (len_bytes (length d))))"
    by (simp add: len_bytes_def readVarIntAt_at)
  show "int_of_uint64 (of_nat (length d)) = int (length d)"
    using at_off_small [OF assms] by (intro int_of_uint64_of_nat) (simp add: enc_delimited_def)
qed

lemma delimited_offsets:
  assumes "at_off p o' (enc_delimited d)"
  shows "iadd (int o') (int (length (len_bytes (length d)))) = int (o' + length (len_bytes (length d)))"
    and "iadd (int (o' + length (len_bytes (length d)))) (int (length d)) = int (o' + length (enc_delimited d))"
    and "iadd (int (length (len_bytes (length d)))) (int (length d)) = int (length (enc_delimited d))"
proof -
  have "o' + length (len_bytes (length d)) + length d < 2 ^ 63"
    using at_off_small [OF assms] by (simp add: enc_delimited_def)
  then show "iadd (int o') (int (length (len_bytes (length d)))) = int (o' + length (len_bytes (length d)))"
    and "iadd (int (o' + length (len_bytes (length d)))) (int (length d)) = int (o' + length (enc_delimited d))"
    and "iadd (int (length (len_bytes (length d)))) (int (length d)) = int (length (enc_delimited d))"
    by (simp_all add: iadd_nat enc_delimited_def add.assoc del: of_nat_add)
qed

lemma SizedReadBytes_at:
  assumes "at_off p o' (enc_delimited d)"
  shows "\<exists>t. SizedReadBytes p (int o') = Inr (t, int (length (enc_delimited d)))
    \<and> ReadBytes p (int o') = Inr t \<and> sl_wf t \<and> sl_bytes t = d \<and> sl_len t = length d"
proof -
  let ?n = "length (len_bytes (length d))"
  have "at_off p (o' + ?n) d" using assms by (simp add: enc_delimited_def at_off_append)
  from at_off_slice [OF this, where 'a = rd_error] obtain t where
    t: "sl_slice (buf p) (int (o' + ?n)) (int (o' + ?n + length d)) = (Inr t :: slice rd)"
      "sl_wf t" "sl_bytes t = d" "sl_len t = length d"
    by blast
  then show ?thesis
    by (simp add: SizedReadBytes_def ReadBytes_def delimited_length_read [OF assms]
        delimited_offsets [OF assms] enc_delimited_def add.assoc del: of_nat_add)
qed

lemma skip_delimited_at:
  assumes "at_off p o' (enc_delimited d)"
  shows "SkipData (Suc fuel) p (int o') BytesType = Some (Inr (int (o' + length (enc_delimited d))))"
  by (simp add: wire_type_defs delimited_length_read [OF assms] delimited_offsets [OF assms]
      del: of_nat_add)

end
