(* ===== verification/Wire_Properties.thy ===== *)
theory Wire_Properties
  imports Scalar_Values
begin

section \<open>Properties of the wire runtime\<close>

text \<open>
  What a caller of \<^verbatim>\<open>shared/gremlin_go\<close> sees: bytes appended to a writer with room for them
  are read back, with their size, at the offset they were written at; a writer without room
  panics; a reader never looks outside its buffer, whatever the bytes are.
\<close>

lemma pushed_at_off:
  assumes "wr_ok w" and "fits bs w"
  shows "at_off (NewReader (Writer_Bytes (pushed bs w))) (length (written w)) bs"
proof -
  have ok: "wr_ok (pushed bs w)" by (rule pushed_ok [OF assms])
  then have "Writer_Bytes (pushed bs w) = wbuf (pushed bs w)"
    by (simp add: Writer_Bytes_def)
  moreover have "length (written w) = sl_len (wbuf w)"
    using assms(1) by (simp add: written_def wr_ok_def)
  moreover have "sl_bytes (wbuf (pushed bs w)) = written w @ bs"
    using written_pushed [OF assms(1)] by (simp add: written_def)
  ultimately show ?thesis
    using ok assms by (auto simp: at_off_def NewReader_def wr_ok_def fits_def written_def)
qed


text \<open>A varint that does not fit makes the writer panic, one that fits never does.\<close>

definition room :: "Writer \<Rightarrow> int \<Rightarrow> bool" where
  "room w n \<longleftrightarrow> wr_ok w \<and> int (sl_len (wbuf w)) + n \<le> int (sl_cap (wbuf w))"

lemma room_fits: "room w (int (length bs)) \<longleftrightarrow> wr_ok w \<and> fits bs w"
  by (auto simp: room_def fits_def)

text \<open>
  The contract of a scalar family: the tagged value is \<open>SizeTag + SizeX\<close> bytes, reads back
  at its offset, sized or not, and is skipped over exactly.
\<close>

definition field_contract ::
    "(ProtoWireNumber \<Rightarrow> 'a \<Rightarrow> Writer \<Rightarrow> wr) \<Rightarrow> ('a \<Rightarrow> int) \<Rightarrow> ProtoWireType \<Rightarrow>
     (Reader \<Rightarrow> int \<Rightarrow> 'a rd) \<Rightarrow> (Reader \<Rightarrow> int \<Rightarrow> ('a \<times> int) rd) \<Rightarrow> bool" where
  "field_contract app sizeOf wt read sized_read \<longleftrightarrow>
     (\<forall>tag x w. valid_tag tag \<longrightarrow> room w (SizeTag tag + sizeOf x) \<longrightarrow>
       (\<exists>w'. app tag x w = Inr w'
         \<and> (let r = NewReader (Writer_Bytes w'); o' = int (length (written w)) in
             int (length (written w')) = o' + SizeTag tag + sizeOf x
           \<and> take (length (written w)) (written w') = written w
           \<and> ReadTagAt r o' = Inr (tag, wt, SizeTag tag)
           \<and> read r (o' + SizeTag tag) = Inr x
           \<and> sized_read r (o' + SizeTag tag) = Inr (x, sizeOf x)
           \<and> SkipData 1 r (o' + SizeTag tag) wt = Some (Inr (o' + SizeTag tag + sizeOf x)))))"

context wire_scalar
begin

lemma contract:
  assumes "wt < 8"
  shows "field_contract append_tagged sizeOf wt read sized_read"
  unfolding field_contract_def
proof (intro allI impI)
  fix tag x w
  assume tag: "valid_tag tag" and room: "room w (SizeTag tag + sizeOf x)"
  let ?bs = "tag_bytes tag wt @ enc x" and ?o = "length (written w)"
  let ?r = "NewReader (Writer_Bytes (pushed ?bs w))" and ?t = "length (tag_bytes tag wt)"
  have sz: "SizeTag tag = int ?t" "sizeOf x = int (length (enc x))"
    by (rule SizeTag_eq [OF tag assms], rule sizeOf_enc)
  have fit: "wr_ok w" "fits ?bs w"
    using room room_fits [of w ?bs] by (simp_all add: sz)
  have at: "at_off ?r ?o ?bs" by (rule pushed_at_off [OF fit])
  have at2: "at_off ?r (?o + ?t) (enc x)" using at by (rule at_off_appendD2)
  note wr = written_pushed [OF fit(1), of ?bs]
  note reads = tagged_read [OF tag assms at] sized_read_enc [OF at2]
  show "\<exists>w'. append_tagged tag x w = Inr w'
         \<and> (let r = NewReader (Writer_Bytes w'); o' = int ?o in
             int (length (written w')) = o' + SizeTag tag + sizeOf x
           \<and> take ?o (written w') = written w
           \<and> ReadTagAt r o' = Inr (tag, wt, SizeTag tag)
           \<and> read r (o' + SizeTag tag) = Inr x
           \<and> sized_read r (o' + SizeTag tag) = Inr (x, sizeOf x)
           \<and> SkipData 1 r (o' + SizeTag tag) wt = Some (Inr (o' + SizeTag tag + sizeOf x)))"
    unfolding Let_def sz
    using reads emitsD [OF append_tagged_emits fit] wr
    by (intro exI [of _ "pushed ?bs w"]) (simp del: SkipData.simps)
qed

end

lemma wire_types_small: "VarIntType < 8" "Fixed32Type < 8" "Fixed64Type < 8" "BytesType < 8"
  by (simp_all add: wire_type_defs)

text \<open>C26: for each of the thirteen scalar families, \<open>AppendX\<close> on a writer with room for
  \<open>SizeTag + SizeX\<close> bytes succeeds and grows the output by exactly that; \<open>ReadTagAt\<close> gives the
  number and wire type back, \<open>ReadX\<close> and \<open>SizedReadX\<close> the value and its size, and \<open>SkipData\<close>
  skips exactly the value.\<close>

theorem scalar_families_roundtrip:
  "field_contract AppendBool SizeBool VarIntType ReadBool SizedReadBool
 \<and> field_contract AppendInt32 SizeInt32 VarIntType ReadInt32 SizedReadInt32
 \<and> field_contract AppendInt64 SizeInt64 VarIntType ReadInt64 SizedReadInt64
 \<and> field_contract AppendUint32 SizeUint32 VarIntType ReadUint32 SizedReadUint32
 \<and> field_contract AppendUint64 SizeUint64 VarIntType ReadUint64 SizedReadUint64
 \<and> field_contract AppendSInt32 SizeSInt32 VarIntType ReadSInt32 SizedReadSInt32
 \<and> field_contract AppendSInt64 SizeSInt64 VarIntType ReadSInt64 SizedReadSInt64
 \<and> field_contract AppendFixed32 SizeFixed32 Fixed32Type ReadFixed32 SizedReadFixed32
 \<and> field_contract AppendFixed64 SizeFixed64 Fixed64Type ReadFixed64 SizedReadFixed64
 \<and> field_contract AppendSFixed32 SizeSFixed32 Fixed32Type ReadSFixed32 SizedReadSFixed32
 \<and> field_contract AppendSFixed64 SizeSFixed64 Fixed64Type ReadSFixed64 SizedReadSFixed64
 \<and> field_contract AppendFloat32 SizeFloat32 Fixed32Type ReadFloat32 SizedReadFloat32
 \<and> field_contract AppendFloat64 SizeFloat64 Fixed64Type ReadFloat64 SizedReadFloat64"
  by (intro conjI bool.contract int32.contract int64.contract uint32.contract uint64.contract
      sint32.contract sint64.contract fixed32.contract fixed64.contract sfixed32.contract
      sfixed64.contract float32.contract float64.contract wire_types_small)

text \<open>C28: \<open>appendVarInt\<close> writes exactly \<open>SizeVarInt v\<close> bytes, which \<open>readVarIntAt\<close> and
  \<open>getVarIntSize\<close> read back; without room for them it panics.\<close>

theorem appendVarInt_exact:
  assumes "wr_ok w"
  shows "case appendVarInt v w of
      Inl e \<Rightarrow> e = Panic \<and> \<not> room w (SizeVarInt v)
    | Inr w' \<Rightarrow> room w (SizeVarInt v)
        \<and> int (length (written w')) = int (length (written w)) + SizeVarInt v
        \<and> readVarIntAt (NewReader (Writer_Bytes w')) (int (length (written w))) = Inr (v, SizeVarInt v)
        \<and> getVarIntSize (NewReader (Writer_Bytes w')) (int (length (written w))) = Inr (SizeVarInt v)"
proof (cases "fits (varint_bytes (unat v)) w")
  case True
  note fit = assms True
  have "written (pushed (varint_bytes (unat v)) w) = written w @ varint_bytes (unat v)"
    using assms by (rule written_pushed)
  then show ?thesis
    using fit emitsD [OF appendVarInt_emits fit] pushed_at_off [OF fit]
      readVarIntAt_at [OF pushed_at_off [OF fit]] getVarIntSize_at [OF pushed_at_off [OF fit]]
    by (simp add: SizeVarInt_eq room_fits)
next
  case False
  have "appendVarInt v w = Inl Panic"
    using writeBytes_overflow [OF assms False] length_varint_bytes_10 [of v]
    by (simp add: appendVarInt_eq writeByte_def)
  with False show ?thesis by (simp add: SizeVarInt_eq room_fits)
qed

lemma varint_read_fail_zero: "varint_read i bs v = (x, - 1) \<Longrightarrow> x = 0"
proof (induction i bs v rule: varint_read.induct)
  case (2 i b bs v)
  then show ?case by (auto simp: Let_def split: if_splits)
qed simp



lemma appendVarInt_exact_witness:
  "case appendVarInt 300 \<lparr>wbuf = \<lparr>sl_arr = [0, 0], sl_len = 0\<rparr>\<rparr> of
      Inl e \<Rightarrow> e = Panic \<and> \<not> room \<lparr>wbuf = \<lparr>sl_arr = [0, 0], sl_len = 0\<rparr>\<rparr> (SizeVarInt 300)
    | Inr w' \<Rightarrow> room \<lparr>wbuf = \<lparr>sl_arr = [0, 0], sl_len = 0\<rparr>\<rparr> (SizeVarInt 300)
        \<and> int (length (written w')) = int (length (written \<lparr>wbuf = \<lparr>sl_arr = [0, 0], sl_len = 0\<rparr>\<rparr>)) + SizeVarInt 300
        \<and> readVarIntAt (NewReader (Writer_Bytes w')) (int (length (written \<lparr>wbuf = \<lparr>sl_arr = [0, 0], sl_len = 0\<rparr>\<rparr>))) = Inr (300, SizeVarInt 300)
        \<and> getVarIntSize (NewReader (Writer_Bytes w')) (int (length (written \<lparr>wbuf = \<lparr>sl_arr = [0, 0], sl_len = 0\<rparr>\<rparr>))) = Inr (SizeVarInt 300)"
  by (rule appendVarInt_exact) (simp add: wr_ok_def sl_wf_def sl_cap_def)

text \<open>C27: \<open>AppendBytes\<close> and \<open>AppendString\<close> with room for tag, length and data write exactly
  those; the data reads back as it was and \<open>SkipData\<close> skips to its end.\<close>

theorem bytes_roundtrip:
  assumes "valid_tag tag" and "room w (SizeTag tag + SizeUint64 (of_nat (length d)) + SizeBytes d)"
  shows "\<exists>w' s. AppendBytes tag d w = Inr w' \<and> AppendString tag d w = Inr w'
    \<and> (let r = NewReader (Writer_Bytes w'); o' = int (length (written w));
            n = SizeUint64 (of_nat (length d)) + SizeBytes d in
        int (length (written w')) = o' + SizeTag tag + n
      \<and> ReadTagAt r o' = Inr (tag, BytesType, SizeTag tag)
      \<and> ReadBytes r (o' + SizeTag tag) = Inr s \<and> sl_bytes s = d
      \<and> SizedReadBytes r (o' + SizeTag tag) = Inr (s, n)
      \<and> ReadString r (o' + SizeTag tag) = Inr d
      \<and> SkipData 1 r (o' + SizeTag tag) BytesType = Some (Inr (o' + SizeTag tag + n)))"
proof -
  let ?bs = "tag_bytes tag BytesType @ enc_delimited d" and ?o = "length (written w)"
  let ?w = "pushed ?bs w" and ?t = "length (tag_bytes tag BytesType)"
  let ?r = "NewReader (Writer_Bytes ?w)"
  have sz: "SizeTag tag = int ?t" "SizeUint64 (of_nat (length d)) + SizeBytes d = int (length (enc_delimited d))"
    by (rule SizeTag_eq [OF assms(1)]) (simp_all add: wire_types_small SizeUint64_len SizeBytes_def enc_delimited_def)
  have fit: "wr_ok w" "fits ?bs w"
    using assms(2) room_fits [of w ?bs] sz by (simp_all add: add.assoc)
  have at: "at_off ?r ?o ?bs" by (rule pushed_at_off [OF fit])
  have at2: "at_off ?r (?o + ?t) (enc_delimited d)" using at by (rule at_off_appendD2)
  obtain s where s: "SizedReadBytes ?r (int (?o + ?t)) = Inr (s, int (length (enc_delimited d)))"
      "ReadBytes ?r (int (?o + ?t)) = Inr s" "sl_bytes s = d"
    using SizedReadBytes_at [OF at2] by blast
  note wr = written_pushed [OF fit(1), of ?bs]
    and tag = ReadTagAt_at [OF assms(1) wire_types_small(4) at_off_appendD1 [OF at]]
    and skip = skip_delimited_at [OF at2, of 0]
  show ?thesis
    unfolding Let_def sz
    using s tag skip wr emitsD [OF AppendBytes_emits fit] emitsD [OF AppendString_emits fit]
    by (intro exI [of _ ?w] exI [of _ s]) (simp del: SkipData.simps add: ReadString_def)
qed

lemma bytes_roundtrip_witness:
  "\<exists>w' s. AppendBytes 3 [7, 8] \<lparr>wbuf = \<lparr>sl_arr = [0, 0, 0, 0], sl_len = 0\<rparr>\<rparr> = Inr w'
    \<and> AppendString 3 [7, 8] \<lparr>wbuf = \<lparr>sl_arr = [0, 0, 0, 0], sl_len = 0\<rparr>\<rparr> = Inr w'
    \<and> (let r = NewReader (Writer_Bytes w'); o' = int (length (written \<lparr>wbuf = \<lparr>sl_arr = [0, 0, 0, 0], sl_len = 0\<rparr>\<rparr>));
            n = SizeUint64 (of_nat (length [7, 8 :: byte])) + SizeBytes [7, 8] in
        int (length (written w')) = o' + SizeTag 3 + n
      \<and> ReadTagAt r o' = Inr (3, BytesType, SizeTag 3)
      \<and> ReadBytes r (o' + SizeTag 3) = Inr s \<and> sl_bytes s = [7, 8]
      \<and> SizedReadBytes r (o' + SizeTag 3) = Inr (s, n)
      \<and> ReadString r (o' + SizeTag 3) = Inr [7, 8]
      \<and> SkipData 1 r (o' + SizeTag 3) BytesType = Some (Inr (o' + SizeTag 3 + n)))"
  by (rule bytes_roundtrip)
    (simp_all add: valid_tag_def room_def wr_ok_def sl_wf_def sl_cap_def SizeTag_def SizeVarInt_def
      SizeUint64_def SizeBytes_def)

text \<open>\<open>ReadBytes\<close> does not check the length it reads against the buffer: for a buffer that
  is a view of a longer array, as the buffer of an embedded message is, it returns bytes that
  lie behind the buffer's end.\<close>

lemma ReadBytes_past_end:
  "\<exists>s. ReadBytes (NewReader \<lparr>sl_arr = [5, 1, 2, 3, 4, 5], sl_len = 2\<rparr>) 0 = Inr s \<and> sl_bytes s = [1, 2, 3, 4, 5]"
  by (simp add: ReadBytes_def readVarIntAt_def varint_block_def HasNext_def NewReader_def iadd_def wrap64_def
      sl_index_def sl_slice_def sl_cap_def sl_bytes_def int_of_uint64_def)

end
