(* ===== verification/Message_Writer.thy ===== *)
theory Message_Writer
  imports Scalar_Values
begin

section \<open>Generated messages: sizes and marshalling\<close>

text \<open>
  \<^verbatim>\<open>gremlinc\<close> emits one Go struct per message from the templates of
  \<^verbatim>\<open>generators/golang/fields\<close> and \<^verbatim>\<open>generators/golang/types\<close>. This theory is what the
  emitted writer code does, one definition per template, indexed by the field type that the
  generator instantiates the template with. A schema gives, for the index of a message, the
  fields of its struct in order: the field number (\<open>wireX_Y\<close>) and the field type.

  Templates nest: the code of a message field calls the code of the embedded message. Here the
  operations of a field take the operation of an embedded message as an argument (\<open>cs\<close>, \<open>mt\<close>)
  and the operation of a message closes the recursion, on the size of the value.
\<close>

subsection \<open>Field types and values\<close>

text \<open>The keys of \<open>goBasicTypesMap\<close>.\<close>

datatype basic =
    PString | PBytes | PBool | PDouble | PFloat
  | PInt32 | PInt64 | PUint32 | PUint64 | PSint32 | PSint64
  | PFixed32 | PFixed64 | PSfixed32 | PSfixed64

text \<open>
  Values of the writer structs. Strings and byte slices are their bytes; every 32-bit or
  64-bit scalar, floats and enums included, is a word; a struct pointer is nil or the struct's
  fields in order; a map is its entries in the order an iteration visits them.
\<close>

datatype gval =
    VStr "byte list"
  | VByt "byte list"
  | VBool bool
  | V32 "32 word"
  | V64 "64 word"
  | VNil
  | VMsg "gval list"
  | VList "gval list"
  | VMap "(gval \<times> gval) list"

text \<open>
  \<open>goBasicValueType\<close>, \<open>goEnumValueType\<close>, \<open>goStructValueType\<close> with their \<open>DefaultValue\<close> and
  \<open>Required\<close>, and the three containers \<open>ResolveType\<close> builds over them.
\<close>

datatype single =
    BasicT basic "gval option" bool
  | EnumT "int32 option" bool
  | StructT nat bool

datatype fieldType =
    Single single
  | Repeated single bool
  | RepeatedPacked single bool
  | MapOf single single

type_synonym schema = "nat \<Rightarrow> (ProtoWireNumber \<times> fieldType) list"

fun basic_can_be_packed :: "basic \<Rightarrow> bool" where
  "basic_can_be_packed PString = False"
| "basic_can_be_packed PBytes = False"
| "basic_can_be_packed _ = True"

fun CanBePacked :: "single \<Rightarrow> bool" where
  "CanBePacked (BasicT b d r) = basic_can_be_packed b"
| "CanBePacked (EnumT d r) = True"
| "CanBePacked (StructT n r) = False"

subsection \<open>Scalars: the tables of \<^verbatim>\<open>scalar.go\<close>\<close>

text \<open>
  The Go value of a field of a given type; the compiler rules the other constructors out.
\<close>

fun as_str :: "gval \<Rightarrow> byte list" where
  "as_str (VStr x) = x" | "as_str _ = []"

fun as_byt :: "gval \<Rightarrow> byte list" where
  "as_byt (VByt x) = x" | "as_byt _ = []"

fun as_bool :: "gval \<Rightarrow> bool" where
  "as_bool (VBool x) = x" | "as_bool _ = False"

fun as_32 :: "gval \<Rightarrow> 32 word" where
  "as_32 (V32 x) = x" | "as_32 _ = 0"

fun as_64 :: "gval \<Rightarrow> 64 word" where
  "as_64 (V64 x) = x" | "as_64 _ = 0"

text \<open>\<open>bufBasicTypesSizers\<close> and \<open>bufBasicTypesWriters\<close>. Strings and bytes have no untagged
  writer; they are never packed.\<close>

fun basic_size :: "basic \<Rightarrow> gval \<Rightarrow> int" where
  "basic_size PString v = SizeString (as_str v)"
| "basic_size PBytes v = SizeBytes (as_byt v)"
| "basic_size PBool v = SizeBool (as_bool v)"
| "basic_size PDouble v = SizeFloat64 (as_64 v)"
| "basic_size PFloat v = SizeFloat32 (as_32 v)"
| "basic_size PInt32 v = SizeInt32 (as_32 v)"
| "basic_size PInt64 v = SizeInt64 (as_64 v)"
| "basic_size PUint32 v = SizeUint32 (as_32 v)"
| "basic_size PUint64 v = SizeUint64 (as_64 v)"
| "basic_size PSint32 v = SizeSInt32 (as_32 v)"
| "basic_size PSint64 v = SizeSInt64 (as_64 v)"
| "basic_size PFixed32 v = SizeFixed32 (as_32 v)"
| "basic_size PFixed64 v = SizeFixed64 (as_64 v)"
| "basic_size PSfixed32 v = SizeSFixed32 (as_32 v)"
| "basic_size PSfixed64 v = SizeSFixed64 (as_64 v)"

fun basic_append :: "basic \<Rightarrow> ProtoWireNumber \<Rightarrow> gval \<Rightarrow> Writer \<Rightarrow> wr" where
  "basic_append PString tag v w = AppendString tag (as_str v) w"
| "basic_append PBytes tag v w = AppendBytes tag (as_byt v) w"
| "basic_append PBool tag v w = AppendBool tag (as_bool v) w"
| "basic_append PDouble tag v w = AppendFloat64 tag (as_64 v) w"
| "basic_append PFloat tag v w = AppendFloat32 tag (as_32 v) w"
| "basic_append PInt32 tag v w = AppendInt32 tag (as_32 v) w"
| "basic_append PInt64 tag v w = AppendInt64 tag (as_64 v) w"
| "basic_append PUint32 tag v w = AppendUint32 tag (as_32 v) w"
| "basic_append PUint64 tag v w = AppendUint64 tag (as_64 v) w"
| "basic_append PSint32 tag v w = AppendSInt32 tag (as_32 v) w"
| "basic_append PSint64 tag v w = AppendSInt64 tag (as_64 v) w"
| "basic_append PFixed32 tag v w = AppendFixed32 tag (as_32 v) w"
| "basic_append PFixed64 tag v w = AppendFixed64 tag (as_64 v) w"
| "basic_append PSfixed32 tag v w = AppendSFixed32 tag (as_32 v) w"
| "basic_append PSfixed64 tag v w = AppendSFixed64 tag (as_64 v) w"

fun basic_append_untagged :: "basic \<Rightarrow> gval \<Rightarrow> Writer \<Rightarrow> wr" where
  "basic_append_untagged PBool v w = AppendBoolWithoutTag (as_bool v) w"
| "basic_append_untagged PDouble v w = AppendFloat64WithoutTag (as_64 v) w"
| "basic_append_untagged PFloat v w = AppendFloat32WithoutTag (as_32 v) w"
| "basic_append_untagged PInt32 v w = AppendInt32WithoutTag (as_32 v) w"
| "basic_append_untagged PInt64 v w = AppendInt64WithoutTag (as_64 v) w"
| "basic_append_untagged PUint32 v w = AppendUint32WithoutTag (as_32 v) w"
| "basic_append_untagged PUint64 v w = AppendUint64WithoutTag (as_64 v) w"
| "basic_append_untagged PSint32 v w = AppendSInt32WithoutTag (as_32 v) w"
| "basic_append_untagged PSint64 v w = AppendSInt64WithoutTag (as_64 v) w"
| "basic_append_untagged PFixed32 v w = AppendFixed32WithoutTag (as_32 v) w"
| "basic_append_untagged PFixed64 v w = AppendFixed64WithoutTag (as_64 v) w"
| "basic_append_untagged PSfixed32 v w = AppendSFixed32WithoutTag (as_32 v) w"
| "basic_append_untagged PSfixed64 v w = AppendSFixed64WithoutTag (as_64 v) w"
| "basic_append_untagged _ _ w = Inr w"

text \<open>
  Go's \<open>==\<close> on two values of a scalar type. The floats compare as IEEE numbers: a NaN equals
  nothing and the two zeros are equal; every other type compares its bits.
\<close>

definition float32_nan :: "float32 \<Rightarrow> bool" where
  "float32_nan x \<longleftrightarrow> x AND 0x7FFFFFFF > 0x7F800000"

definition float64_nan :: "float64 \<Rightarrow> bool" where
  "float64_nan x \<longleftrightarrow> x AND 0x7FFFFFFFFFFFFFFF > 0x7FF0000000000000"

definition float32_eq :: "float32 \<Rightarrow> float32 \<Rightarrow> bool" where
  "float32_eq x y \<longleftrightarrow> \<not> float32_nan x \<and> \<not> float32_nan y
     \<and> (x = y \<or> x AND 0x7FFFFFFF = 0 \<and> y AND 0x7FFFFFFF = 0)"

definition float64_eq :: "float64 \<Rightarrow> float64 \<Rightarrow> bool" where
  "float64_eq x y \<longleftrightarrow> \<not> float64_nan x \<and> \<not> float64_nan y
     \<and> (x = y \<or> x AND 0x7FFFFFFFFFFFFFFF = 0 \<and> y AND 0x7FFFFFFFFFFFFFFF = 0)"

definition go_eq :: "basic \<Rightarrow> gval \<Rightarrow> gval \<Rightarrow> bool" where
  "go_eq b x y =
     (if b = PDouble then float64_eq (as_64 x) (as_64 y)
      else if b = PFloat then float32_eq (as_32 x) (as_32 y)
      else x = y)"

text \<open>The zero value of a scalar type, and what a field reads when it has none: its default.\<close>

fun basic_zero :: "basic \<Rightarrow> gval" where
  "basic_zero PString = VStr []"
| "basic_zero PBytes = VByt []"
| "basic_zero PBool = VBool False"
| "basic_zero PDouble = V64 0"
| "basic_zero PInt64 = V64 0"
| "basic_zero PUint64 = V64 0"
| "basic_zero PSint64 = V64 0"
| "basic_zero PFixed64 = V64 0"
| "basic_zero PSfixed64 = V64 0"
| "basic_zero _ = V32 0"

subsection \<open>\<open>EntryIsNotEmpty\<close>\<close>

text \<open>
  Required fields are always written. Otherwise a scalar is written when it differs from its
  default, or from zero without one (\<open>len(x) != 0\<close>, \<open>x != ""\<close>, \<open>x\<close>, \<open>x != 0\<close> by type).
\<close>

fun single_not_empty :: "single \<Rightarrow> gval \<Rightarrow> bool" where
  "single_not_empty (BasicT b d r) v =
     (r \<or> \<not> go_eq b v (case d of Some c \<Rightarrow> c | None \<Rightarrow> basic_zero b))"
| "single_not_empty (EnumT d r) v =
     (r \<or> v \<noteq> V32 (case d of Some c \<Rightarrow> c | None \<Rightarrow> 0))"
| "single_not_empty (StructT n r) v = (r \<or> v \<noteq> VNil)"

text \<open>\<open>len(x)\<close> of a list or a map value.\<close>

fun elements :: "gval \<Rightarrow> gval list" where
  "elements (VList xs) = xs"
| "elements _ = []"

fun entries :: "gval \<Rightarrow> (gval \<times> gval) list" where
  "entries (VMap kvs) = kvs"
| "entries _ = []"

fun EntryIsNotEmpty :: "fieldType \<Rightarrow> gval \<Rightarrow> bool" where
  "EntryIsNotEmpty (Single s) v = single_not_empty s v"
| "EntryIsNotEmpty (Repeated s r) v = (r \<or> length (elements v) > 0)"
| "EntryIsNotEmpty (RepeatedPacked s r) v = (r \<or> length (elements v) > 0)"
| "EntryIsNotEmpty (MapOf k s) v = (length (entries v) > 0)"

subsection \<open>Sizes\<close>

text \<open>\<open>size\<close> accumulated with \<open>+=\<close> over a list of addends.\<close>

definition isum :: "int list \<Rightarrow> int" where
  "isum xs = foldl iadd 0 xs"

fun single_size_with_tag :: "(nat \<Rightarrow> gval \<Rightarrow> int) \<Rightarrow> single \<Rightarrow> ProtoWireNumber \<Rightarrow> gval \<Rightarrow> int" where
  "single_size_with_tag cs (BasicT b d r) tag v =
     (if b = PBytes \<or> b = PString then
        (let sz = basic_size b v
         in iadd sz (iadd (SizeUint64 (uint64_of_int sz)) (SizeTag tag)))
      else iadd (SizeTag tag) (basic_size b v))"
| "single_size_with_tag cs (EnumT d r) tag v =
     iadd (SizeTag tag) (basic_size PInt32 v)"
| "single_size_with_tag cs (StructT n r) tag v =
     (let sz = cs n v in iadd sz (iadd (SizeUint64 (uint64_of_int sz)) (SizeTag tag)))"

fun single_size_without_tag :: "(nat \<Rightarrow> gval \<Rightarrow> int) \<Rightarrow> single \<Rightarrow> gval \<Rightarrow> int" where
  "single_size_without_tag cs (BasicT b d r) v =
     (if b = PBytes \<or> b = PString then
        (let sz = basic_size b v in iadd sz (SizeUint64 (uint64_of_int sz)))
      else basic_size b v)"
| "single_size_without_tag cs (EnumT d r) v = basic_size PInt32 v"
| "single_size_without_tag cs (StructT n r) v =
     (let sz = cs n v in iadd sz (SizeUint64 (uint64_of_int sz)))"

text \<open>Size of one map entry without its tag and length: key under tag 1, value under tag 2.\<close>

definition map_entry_size :: "(nat \<Rightarrow> gval \<Rightarrow> int) \<Rightarrow> single \<Rightarrow> single \<Rightarrow> gval \<times> gval \<Rightarrow> int" where
  "map_entry_size cs k s kv =
     iadd (single_size_with_tag cs k 1 (fst kv)) (single_size_with_tag cs s 2 (snd kv))"

definition packed_size :: "(nat \<Rightarrow> gval \<Rightarrow> int) \<Rightarrow> single \<Rightarrow> gval list \<Rightarrow> int" where
  "packed_size cs s xs = isum (map (single_size_without_tag cs s) xs)"

fun EntryFullSizeWithTag ::
    "(nat \<Rightarrow> gval \<Rightarrow> int) \<Rightarrow> fieldType \<Rightarrow> ProtoWireNumber \<Rightarrow> gval \<Rightarrow> int" where
  "EntryFullSizeWithTag cs (Single s) tag v = single_size_with_tag cs s tag v"
| "EntryFullSizeWithTag cs (Repeated s r) tag v =
     isum (map (single_size_with_tag cs s tag) (elements v))"
| "EntryFullSizeWithTag cs (RepeatedPacked s r) tag v =
     (if length (elements v) > 1 then
        (let listBytesSize = packed_size cs s (elements v)
         in iadd (iadd (SizeUint64 (uint64_of_int listBytesSize)) (SizeTag tag)) listBytesSize)
      else if length (elements v) = 1 then single_size_with_tag cs s tag (elements v ! 0)
      else 0)"
| "EntryFullSizeWithTag cs (MapOf k s) tag v =
     isum (map (\<lambda>kv. let sz = map_entry_size cs k s kv
                     in iadd (iadd sz (SizeTag tag)) (SizeUint64 (uint64_of_int sz))) (entries v))"

subsection \<open>Writers\<close>

fun single_writer ::
    "(nat \<Rightarrow> gval \<Rightarrow> int) \<Rightarrow> (nat \<Rightarrow> gval \<Rightarrow> Writer \<Rightarrow> wr) \<Rightarrow>
     single \<Rightarrow> ProtoWireNumber \<Rightarrow> gval \<Rightarrow> Writer \<Rightarrow> wr" where
  "single_writer cs mt (BasicT b d r) tag v w = basic_append b tag v w"
| "single_writer cs mt (EnumT d r) tag v w = basic_append PInt32 tag v w"
| "single_writer cs mt (StructT n r) tag v w =
     andThen (AppendBytesTag tag (cs n v) w) (mt n v)"

fun single_packed_writer :: "single \<Rightarrow> gval \<Rightarrow> Writer \<Rightarrow> wr" where
  "single_packed_writer (BasicT b d r) v w = basic_append_untagged b v w"
| "single_packed_writer (EnumT d r) v w = basic_append_untagged PInt32 v w"
| "single_packed_writer (StructT n r) v w = Inr w"

fun EntryWriter ::
    "(nat \<Rightarrow> gval \<Rightarrow> int) \<Rightarrow> (nat \<Rightarrow> gval \<Rightarrow> Writer \<Rightarrow> wr) \<Rightarrow>
     fieldType \<Rightarrow> ProtoWireNumber \<Rightarrow> gval \<Rightarrow> Writer \<Rightarrow> wr" where
  "EntryWriter cs mt (Single s) tag v w = single_writer cs mt s tag v w"
| "EntryWriter cs mt (Repeated s r) tag v w = foldE (single_writer cs mt s tag) (elements v) w"
| "EntryWriter cs mt (RepeatedPacked s r) tag v w =
     (if length (elements v) > 1 then
        andThen (AppendBytesTag tag (packed_size cs s (elements v)) w)
          (foldE (single_packed_writer s) (elements v))
      else if length (elements v) = 1 then single_writer cs mt s tag (elements v ! 0) w
      else Inr w)"
| "EntryWriter cs mt (MapOf k s) tag v w =
     foldE (\<lambda>kv w.
       andThen (AppendBytesTag tag (map_entry_size cs k s kv) w) (\<lambda>w.
       andThen (single_writer cs mt k 1 (fst kv) w)
         (single_writer cs mt s 2 (snd kv)))) (entries v) w"

subsection \<open>Messages\<close>

fun msg_fields :: "gval \<Rightarrow> gval list" where
  "msg_fields (VMsg vs) = vs"
| "msg_fields _ = []"

text \<open>The values inside a field's value that the code of the field visits.\<close>

fun parts :: "fieldType \<Rightarrow> gval \<Rightarrow> gval list" where
  "parts (Single s) v = [v]"
| "parts (Repeated s r) v = elements v"
| "parts (RepeatedPacked s r) v = elements v"
| "parts (MapOf k s) v = map fst (entries v) @ map snd (entries v)"

lemma size_elements: "x \<in> set (elements v) \<Longrightarrow> size x < size v"
  by (cases v) (auto simp: size_list_estimation' less_Suc_eq_le)

lemma size_entries: "kv \<in> set (entries v) \<Longrightarrow> size (fst kv) < size v \<and> size (snd kv) < size v"
proof (cases v)
  case (VMap kvs)
  assume "kv \<in> set (entries v)"
  with VMap have "size_prod size size kv \<le> size_list (size_prod size size) kvs"
    by (intro size_list_estimation' [of kv]) auto
  with VMap show ?thesis by (cases kv) simp
qed auto

lemma size_msg_fields: "x \<in> set (msg_fields v) \<Longrightarrow> size x < size v"
  by (cases v) (auto simp: size_list_estimation' less_Suc_eq_le)

lemma size_parts: "x \<in> set (parts ft v) \<Longrightarrow> size x \<le> size v"
  by (cases ft) (auto dest: size_elements size_entries intro: less_imp_le)

text \<open>The fields of a message that are written, each with its number, type and value.\<close>

definition present_fields :: "(ProtoWireNumber \<times> fieldType) list \<Rightarrow> gval \<Rightarrow>
    ((ProtoWireNumber \<times> fieldType) \<times> gval) list" where
  "present_fields fs v = filter (\<lambda>x. EntryIsNotEmpty (snd (fst x)) (snd x)) (zip fs (msg_fields v))"

lemma zip_fields_size:
  "x \<in> set (zip fs (msg_fields v)) \<Longrightarrow> y \<in> set (parts ft (snd x)) \<Longrightarrow> size y < size v"
  by (cases x) (auto dest!: set_zip_rightD dest: size_parts size_msg_fields intro: le_less_trans)

lemma present_fields_size:
  "x \<in> set (present_fields fs v) \<Longrightarrow> y \<in> set (parts ft (snd x)) \<Longrightarrow> size y < size v"
  using zip_fields_size [of x fs v y ft] by (simp add: present_fields_def)

lemma single_size_with_tag_cong:
  "(\<And>n. cs n v = cs' n v) \<Longrightarrow> single_size_with_tag cs s tag v = single_size_with_tag cs' s tag v"
  by (cases s) simp_all

lemma single_size_without_tag_cong:
  "(\<And>n. cs n v = cs' n v) \<Longrightarrow> single_size_without_tag cs s v = single_size_without_tag cs' s v"
  by (cases s) simp_all

lemma packed_size_cong:
  "(\<And>n x. x \<in> set xs \<Longrightarrow> cs n x = cs' n x) \<Longrightarrow> packed_size cs s xs = packed_size cs' s xs"
  unfolding packed_size_def by (intro arg_cong [of _ _ isum] map_cong refl single_size_without_tag_cong) auto

lemma map_entry_size_cong:
  "(\<And>n. cs n (fst kv) = cs' n (fst kv)) \<Longrightarrow> (\<And>n. cs n (snd kv) = cs' n (snd kv)) \<Longrightarrow>
   map_entry_size cs k s kv = map_entry_size cs' k s kv"
  unfolding map_entry_size_def by (intro arg_cong2 [of _ _ _ _ iadd] single_size_with_tag_cong)

lemma EntryFullSizeWithTag_cong [fundef_cong]:
  assumes "ft = ft'" "tag = tag'" "v = v'" "\<And>n x. x \<in> set (parts ft' v') \<Longrightarrow> cs n x = cs' n x"
  shows "EntryFullSizeWithTag cs ft tag v = EntryFullSizeWithTag cs' ft' tag' v'"
proof (cases ft')
  case (Single s)
  with assms show ?thesis by (auto intro: single_size_with_tag_cong)
next
  case (Repeated s r)
  with assms show ?thesis
    by (auto intro!: arg_cong [of _ _ isum] map_cong single_size_with_tag_cong)
next
  case (RepeatedPacked s r)
  with assms have "packed_size cs s (elements v') = packed_size cs' s (elements v')"
    and "length (elements v') = 1 \<Longrightarrow> single_size_with_tag cs s tag' (elements v' ! 0)
      = single_size_with_tag cs' s tag' (elements v' ! 0)"
    by (auto intro: packed_size_cong single_size_with_tag_cong)
  with RepeatedPacked assms show ?thesis by simp
next
  case (MapOf k s)
  with assms have "map_entry_size cs k s kv = map_entry_size cs' k s kv" if "kv \<in> set (entries v')" for kv
    using that by (intro map_entry_size_cong) auto
  with MapOf assms show ?thesis by (auto intro!: arg_cong [of _ _ isum] map_cong)
qed

text \<open>\<open>XXX_PbContentSize\<close>; a nil struct has size 0.\<close>

function XXX_PbContentSize :: "schema \<Rightarrow> nat \<Rightarrow> gval \<Rightarrow> int" where
  "XXX_PbContentSize M n v =
     isum (map (\<lambda>x. EntryFullSizeWithTag (XXX_PbContentSize M) (snd (fst x)) (fst (fst x)) (snd x))
       (present_fields (M n) v))"
  by pat_completeness auto
termination
  by (relation "measure (\<lambda>(M, n, v). size v)") (auto dest: present_fields_size)

declare XXX_PbContentSize.simps [simp del]

lemma single_writer_cong:
  "(\<And>n. cs n v = cs' n v) \<Longrightarrow> (\<And>n w. mt n v w = mt' n v w) \<Longrightarrow>
   single_writer cs mt s tag v w = single_writer cs' mt' s tag v w"
  by (cases s) (auto intro: andThen_cong)

lemma EntryWriter_cong [fundef_cong]:
  assumes "cs = cs'" "ft = ft'" "tag = tag'" "v = v'" "w = w'"
    "\<And>n x w. x \<in> set (parts ft' v') \<Longrightarrow> mt n x w = mt' n x w"
  shows "EntryWriter cs mt ft tag v w = EntryWriter cs' mt' ft' tag' v' w'"
proof (cases ft')
  case (Single s)
  with assms show ?thesis by (auto intro: single_writer_cong)
next
  case (Repeated s r)
  with assms show ?thesis by (auto intro!: foldE_cong single_writer_cong)
next
  case (RepeatedPacked s r)
  with assms show ?thesis by (auto intro!: single_writer_cong)
next
  case (MapOf k s)
  have part: "mt n x w = mt' n x w" if "kv \<in> set (entries v')" "x = fst kv \<or> x = snd kv" for kv n x w
    using that assms(6) [of x n w] MapOf by auto
  have "single_writer cs mt k 1 (fst kv) w = single_writer cs mt' k 1 (fst kv) w"
    "single_writer cs mt s 2 (snd kv) w = single_writer cs mt' s 2 (snd kv) w"
    if "kv \<in> set (entries v')" for kv w
    using part [OF that] by (intro single_writer_cong; simp)+
  with MapOf assms show ?thesis by (auto intro!: foldE_cong andThen_cong)
qed

text \<open>\<open>MarshalTo\<close>; a nil struct writes nothing.\<close>

function MarshalTo :: "schema \<Rightarrow> nat \<Rightarrow> gval \<Rightarrow> Writer \<Rightarrow> wr" where
  "MarshalTo M n v w =
     foldE (\<lambda>x w. EntryWriter (XXX_PbContentSize M) (MarshalTo M) (snd (fst x)) (fst (fst x)) (snd x) w)
       (present_fields (M n) v) w"
  by pat_completeness auto
termination
  by (relation "measure (\<lambda>(M, n, v, w). size v)") (auto dest: present_fields_size)

declare MarshalTo.simps [simp del]

text \<open>\<open>Marshal\<close>: nil for a nil struct and for content of size 0, else the writer's bytes.\<close>

definition Marshal :: "schema \<Rightarrow> nat \<Rightarrow> gval \<Rightarrow> unit fault + slice" where
  "Marshal M n v =
     (if v = VNil then Inr nil_slice
      else let sz = XXX_PbContentSize M n v in
        if sz = 0 then Inr nil_slice
        else andThen (NewWriter sz) (\<lambda>res.
             andThen (MarshalTo M n v res) (\<lambda>res. Inr (Writer_Bytes res))))"

end
