(* ===== verification/Message_Encoding.thy ===== *)
theory Message_Encoding
  imports Message_Writer
begin

section \<open>The encoding of a message, and the writers against it\<close>

text \<open>
  The abstract specification of the writer templates: the encoding of a message is the
  concatenation, field by field, of \<^emph>\<open>items\<close>, each a tag and a payload. \<open>message_bytes\<close> is that
  encoding, defined without sizes, offsets or buffers. The theorems show that the size
  computed by \<open>XXX_PbContentSize\<close> is its length and that \<open>MarshalTo\<close> writes exactly it.
\<close>

subsection \<open>Payloads\<close>

fun basic_wt :: "basic \<Rightarrow> ProtoWireType" where
  "basic_wt PString = BytesType"
| "basic_wt PBytes = BytesType"
| "basic_wt PDouble = Fixed64Type"
| "basic_wt PFixed64 = Fixed64Type"
| "basic_wt PSfixed64 = Fixed64Type"
| "basic_wt PFloat = Fixed32Type"
| "basic_wt PFixed32 = Fixed32Type"
| "basic_wt PSfixed32 = Fixed32Type"
| "basic_wt _ = VarIntType"

fun basic_payload :: "basic \<Rightarrow> gval \<Rightarrow> byte list" where
  "basic_payload PString v = enc_delimited (as_str v)"
| "basic_payload PBytes v = enc_delimited (as_byt v)"
| "basic_payload PBool v = enc_varint bool_word (as_bool v)"
| "basic_payload PDouble v = fixed64_bytes (as_64 v)"
| "basic_payload PFloat v = fixed32_bytes (as_32 v)"
| "basic_payload PInt32 v = enc_varint scast (as_32 v)"
| "basic_payload PInt64 v = enc_varint (\<lambda>x. x) (as_64 v)"
| "basic_payload PUint32 v = enc_varint ucast (as_32 v)"
| "basic_payload PUint64 v = enc_varint (\<lambda>x. x) (as_64 v)"
| "basic_payload PSint32 v = enc_varint (\<lambda>x. zigzag (scast x)) (as_32 v)"
| "basic_payload PSint64 v = enc_varint zigzag (as_64 v)"
| "basic_payload PFixed32 v = fixed32_bytes (as_32 v)"
| "basic_payload PFixed64 v = fixed64_bytes (as_64 v)"
| "basic_payload PSfixed32 v = fixed32_bytes (as_32 v)"
| "basic_payload PSfixed64 v = fixed64_bytes (as_64 v)"

fun single_wt :: "single \<Rightarrow> ProtoWireType" where
  "single_wt (BasicT b d r) = basic_wt b"
| "single_wt (EnumT d r) = VarIntType"
| "single_wt (StructT n r) = BytesType"

fun single_payload :: "(nat \<Rightarrow> gval \<Rightarrow> byte list) \<Rightarrow> single \<Rightarrow> gval \<Rightarrow> byte list" where
  "single_payload e (BasicT b d r) v = basic_payload b v"
| "single_payload e (EnumT d r) v = basic_payload PInt32 v"
| "single_payload e (StructT n r) v = enc_delimited (e n v)"

type_synonym item = "ProtoWireType \<times> byte list"

definition item_bytes :: "ProtoWireNumber \<Rightarrow> item \<Rightarrow> byte list" where
  "item_bytes tag it = tag_bytes tag (fst it) @ snd it"

definition single_item :: "(nat \<Rightarrow> gval \<Rightarrow> byte list) \<Rightarrow> single \<Rightarrow> gval \<Rightarrow> item" where
  "single_item e s v = (single_wt s, single_payload e s v)"

definition map_entry_bytes :: "(nat \<Rightarrow> gval \<Rightarrow> byte list) \<Rightarrow> single \<Rightarrow> single \<Rightarrow> gval \<times> gval \<Rightarrow> byte list" where
  "map_entry_bytes e k s kv = item_bytes 1 (single_item e k (fst kv)) @ item_bytes 2 (single_item e s (snd kv))"

fun field_items :: "(nat \<Rightarrow> gval \<Rightarrow> byte list) \<Rightarrow> fieldType \<Rightarrow> gval \<Rightarrow> item list" where
  "field_items e (Single s) v = [single_item e s v]"
| "field_items e (Repeated s r) v = map (single_item e s) (elements v)"
| "field_items e (RepeatedPacked s r) v =
     (if length (elements v) > 1
      then [(BytesType, enc_delimited (concat (map (single_payload e s) (elements v))))]
      else map (single_item e s) (elements v))"
| "field_items e (MapOf k s) v =
     map (\<lambda>kv. (BytesType, enc_delimited (map_entry_bytes e k s kv))) (entries v)"

definition field_bytes :: "(nat \<Rightarrow> gval \<Rightarrow> byte list) \<Rightarrow> fieldType \<Rightarrow> ProtoWireNumber \<Rightarrow> gval \<Rightarrow> byte list" where
  "field_bytes e ft tag v = concat (map (item_bytes tag) (field_items e ft v))"

lemma single_payload_cong:
  "(\<And>n. e n v = e' n v) \<Longrightarrow> single_payload e s v = single_payload e' s v"
  by (cases s) simp_all

lemma field_items_cong:
  assumes "\<And>n x. x \<in> set (parts ft v) \<Longrightarrow> e n x = e' n x"
  shows "field_items e ft v = field_items e' ft v"
proof -
  have p: "single_payload e s x = single_payload e' s x" if "x \<in> set (parts ft v)" for s x
    using that assms by (intro single_payload_cong)
  show ?thesis
  proof (cases ft)
    case (MapOf k s)
    have "map_entry_bytes e k s kv = map_entry_bytes e' k s kv" if "kv \<in> set (entries v)" for kv
      using that p [of "fst kv"] p [of "snd kv"] MapOf by (simp add: map_entry_bytes_def single_item_def)
    with MapOf show ?thesis by simp
  next
    case (RepeatedPacked s r)
    with p have "map (single_payload e s) (elements v) = map (single_payload e' s) (elements v)"
      "map (single_item e s) (elements v) = map (single_item e' s) (elements v)"
      by (auto simp: single_item_def)
    with RepeatedPacked show ?thesis by (simp only: field_items.simps)
  qed (use p in \<open>auto simp: single_item_def\<close>)
qed

lemma field_bytes_cong [fundef_cong]:
  assumes "ft = ft'" "tag = tag'" "v = v'" "\<And>n x. x \<in> set (parts ft' v') \<Longrightarrow> e n x = e' n x"
  shows "field_bytes e ft tag v = field_bytes e' ft' tag' v'"
  using assms field_items_cong [of ft' v' e e'] by (simp add: field_bytes_def)

function message_bytes :: "schema \<Rightarrow> nat \<Rightarrow> gval \<Rightarrow> byte list" where
  "message_bytes M n v =
     concat (map (\<lambda>x. field_bytes (message_bytes M) (snd (fst x)) (fst (fst x)) (snd x))
       (present_fields (M n) v))"
  by pat_completeness auto
termination
  by (relation "measure (\<lambda>(M, n, v). size v)") (auto dest: present_fields_size)

declare message_bytes.simps [simp del]

subsection \<open>Scalars\<close>

lemma basic_wt_small: "basic_wt b < 8"
  by (cases b) (simp_all add: wire_type_defs)

lemma single_wt_small: "single_wt s < 8"
  by (cases s) (simp_all add: basic_wt_small wire_type_defs)

lemmas eta_expand_wr = basic_append.simps [abs_def] basic_append_untagged.simps [abs_def]

lemma basic_append_emits: "emits (basic_append b tag v) (tag_bytes tag (basic_wt b) @ basic_payload b v)"
  by (cases b) (simp_all add: eta_expand_wr AppendString_emits AppendBytes_emits bool.append_tagged_emits
      int32.append_tagged_emits int64.append_tagged_emits uint32.append_tagged_emits
      uint64.append_tagged_emits sint32.append_tagged_emits sint64.append_tagged_emits
      fixed32.append_tagged_emits fixed64.append_tagged_emits sfixed32.append_tagged_emits
      sfixed64.append_tagged_emits float32.append_tagged_emits float64.append_tagged_emits)

lemma basic_append_untagged_emits:
  "basic_can_be_packed b \<Longrightarrow> emits (basic_append_untagged b v) (basic_payload b v)"
  by (cases b) (simp_all add: eta_expand_wr bool.append_untagged_emits
      int32.append_untagged_emits int64.append_untagged_emits uint32.append_untagged_emits
      uint64.append_untagged_emits sint32.append_untagged_emits sint64.append_untagged_emits
      fixed32.append_untagged_emits fixed64.append_untagged_emits sfixed32.append_untagged_emits
      sfixed64.append_untagged_emits float32.append_untagged_emits float64.append_untagged_emits)

lemma basic_size_payload:
  "basic_can_be_packed b \<Longrightarrow> basic_size b v = int (length (basic_payload b v))"
  by (cases b) (simp_all add: bool.sizeOf_enc int32.sizeOf_enc int64.sizeOf_enc uint32.sizeOf_enc
      uint64.sizeOf_enc sint32.sizeOf_enc sint64.sizeOf_enc fixed32.sizeOf_enc fixed64.sizeOf_enc
      sfixed32.sizeOf_enc sfixed64.sizeOf_enc float32.sizeOf_enc float64.sizeOf_enc)

lemma basic_payload_length:
  "basic_can_be_packed b \<Longrightarrow> 0 < length (basic_payload b v) \<and> length (basic_payload b v) \<le> 10"
  by (cases b) (simp_all only: basic_can_be_packed.simps basic_payload.simps enc_varint_length
      length_fixed32_bytes length_fixed64_bytes, simp_all)

subsection \<open>Sizes wrap as one sum\<close>

lemma wrap64_add [simp]:
  "wrap64 (wrap64 a + b) = wrap64 (a + b)" "wrap64 (a + wrap64 b) = wrap64 (a + b)"
  "wrap64 (c + (wrap64 a + b)) = wrap64 (c + (a + b))"
proof -
  have mod: "wrap64 i = (i + 2 ^ 63) mod 2 ^ 64 - 2 ^ 63" for i
    by (simp only: wrap64_def signed_take_bit_eq_take_bit_shift take_bit_eq_mod) simp
  have left: "wrap64 (wrap64 a + b) = wrap64 (a + b)" for a b
  proof -
    have "(wrap64 a + b + 2 ^ 63) mod 2 ^ 64 = ((a + 2 ^ 63) mod 2 ^ 64 + b) mod 2 ^ 64"
      by (simp only: mod [of a]) (simp add: algebra_simps)
    also have "\<dots> = (a + b + 2 ^ 63) mod 2 ^ 64" 
      by (simp only: mod_add_left_eq) (simp add: add_ac)
    finally show ?thesis by (simp only: mod [of "wrap64 a + b"] mod [of "a + b"])
  qed
  show "wrap64 (wrap64 a + b) = wrap64 (a + b)" by (rule left)
  show "wrap64 (a + wrap64 b) = wrap64 (a + b)" using left [of b a] by (simp add: add.commute)
  show "wrap64 (c + (wrap64 a + b)) = wrap64 (c + (a + b))" using left [of a "c + b"] by (simp add: add_ac)
qed

lemma uint64_of_int_wrap64 [simp]: "uint64_of_int (wrap64 i) = uint64_of_int i"
  unfolding uint64_of_int_def wrap64_def by (rule bit_word_eqI) (simp add: bit_simps)

lemma isum_wrap64: "isum xs = wrap64 (sum_list xs)"
proof -
  have "foldl iadd (wrap64 a) xs = wrap64 (a + sum_list xs)" for a
    by (induction xs arbitrary: a) (simp_all add: iadd_def add_ac)
  from this [of 0] show ?thesis by (simp add: isum_def wrap64_def)
qed

lemma isum_lengths:
  assumes "\<And>x. x \<in> set xs \<Longrightarrow> f x = wrap64 (int (length (g x)))"
  shows "isum (map f xs) = wrap64 (int (length (concat (map g xs))))"
proof -
  have "wrap64 (\<Sum>x\<leftarrow>xs. f x) = wrap64 (int (length (concat (map g xs))))"
    using assms
  proof (induction xs)
    case (Cons x xs)
    have "wrap64 (\<Sum>x\<leftarrow>x # xs. f x) = wrap64 (f x + wrap64 (\<Sum>x\<leftarrow>xs. f x))" by simp
    also have "\<dots> = wrap64 (wrap64 (int (length (g x))) + wrap64 (int (length (concat (map g xs)))))"
      using Cons by simp
    also have "\<dots> = wrap64 (int (length (concat (map g (x # xs)))))" by simp
    finally show ?case .
  qed simp
  then show ?thesis by (simp add: isum_wrap64)
qed

text \<open>What a field's code assumes of the operations of embedded messages.\<close>

definition sizes_ok :: "(nat \<Rightarrow> gval \<Rightarrow> int) \<Rightarrow> (nat \<Rightarrow> gval \<Rightarrow> byte list) \<Rightarrow> gval \<Rightarrow> bool" where
  "sizes_ok cs e v \<longleftrightarrow> (\<forall>n. cs n v = wrap64 (int (length (e n v))))"

definition writes_ok :: "(nat \<Rightarrow> gval \<Rightarrow> Writer \<Rightarrow> wr) \<Rightarrow> (nat \<Rightarrow> gval \<Rightarrow> byte list) \<Rightarrow> gval \<Rightarrow> bool" where
  "writes_ok mt e v \<longleftrightarrow> (\<forall>n. emits (mt n v) (e n v))"

lemma SizeUint64_int: "SizeUint64 (uint64_of_int (int n)) = int (length (len_bytes n))"
  by (simp add: uint64_of_int_of_nat SizeUint64_len)

lemma single_size_with_tag_eq:
  assumes "valid_tag tag" and "sizes_ok cs e v"
  shows "single_size_with_tag cs s tag v = wrap64 (int (length (item_bytes tag (single_item e s v))))"
proof -
  have t: "SizeTag tag = int (length (tag_bytes tag (single_wt s)))"
    by (rule SizeTag_eq [OF assms(1) single_wt_small])
  show ?thesis
  proof (cases s)
    case (BasicT b d r)
    then show ?thesis
      using t basic_size_payload [of b v]
      by (cases b) (simp_all add: iadd_def item_bytes_def single_item_def SizeUint64_int enc_delimited_def
          SizeString_def SizeBytes_def add_ac del: basic_size.simps(3-) basic_payload.simps(3-))
  next
    case (EnumT d r)
    then show ?thesis
      using t basic_size_payload [of PInt32 v] by (simp add: iadd_def item_bytes_def single_item_def)
  next
    case (StructT n r)
    have "cs n v = wrap64 (int (length (e n v)))" using assms(2) by (simp add: sizes_ok_def)
    with StructT t show ?thesis
      by (simp add: iadd_def item_bytes_def single_item_def SizeUint64_int enc_delimited_def Let_def add_ac)
  qed
qed

lemma single_size_without_tag_eq:
  assumes "CanBePacked s"
  shows "single_size_without_tag cs s v = wrap64 (int (length (single_payload e s v)))"
proof -
  have small: "basic_size b v = wrap64 (int (length (basic_payload b v)))" if "basic_can_be_packed b" for b
    using basic_size_payload [OF that, of v] basic_payload_length [OF that, of v]
    by (simp add: wrap64_id)
  show ?thesis
  proof (cases s)
    case (BasicT b d r)
    with assms small [of b] show ?thesis by (cases b) simp_all
  next
    case (EnumT d r)
    with small [of PInt32] show ?thesis by simp
  next
    case (StructT n r)
    with assms show ?thesis by simp
  qed
qed

text \<open>A schema as \<open>ResolveType\<close> builds it: packed lists hold packable elements
  and the key of a map is a scalar.\<close>

fun type_ok :: "fieldType \<Rightarrow> bool" where
  "type_ok (RepeatedPacked s r) = CanBePacked s"
| "type_ok (MapOf k s) = (case k of BasicT b d r \<Rightarrow> True | _ \<Rightarrow> False)"
| "type_ok _ = True"

definition schema_ok :: "schema \<Rightarrow> bool" where
  "schema_ok M \<longleftrightarrow> (\<forall>n. distinct (map fst (M n)) \<and> (\<forall>(tag, ft) \<in> set (M n). valid_tag tag \<and> type_ok ft))"

lemma packed_size_eq:
  "CanBePacked s \<Longrightarrow> packed_size cs s xs = wrap64 (int (length (concat (map (single_payload e s) xs))))"
  unfolding packed_size_def by (intro isum_lengths single_size_without_tag_eq)

lemma valid_tag_12: "valid_tag 1" "valid_tag 2"
  by (simp_all add: valid_tag_def)

lemma map_entry_size_eq:
  assumes "sizes_ok cs e (fst kv)" and "sizes_ok cs e (snd kv)"
  shows "map_entry_size cs k s kv = wrap64 (int (length (map_entry_bytes e k s kv)))"
  using assms
  by (simp add: map_entry_size_def map_entry_bytes_def single_size_with_tag_eq valid_tag_12 iadd_def)

lemma EntryFullSizeWithTag_eq:
  assumes "valid_tag tag" and "type_ok ft" and "\<And>x. x \<in> set (parts ft v) \<Longrightarrow> sizes_ok cs e x"
  shows "EntryFullSizeWithTag cs ft tag v = wrap64 (int (length (field_bytes e ft tag v)))"
proof (cases ft)
  case (Single s)
  with assms show ?thesis by (simp add: field_bytes_def single_size_with_tag_eq)
next
  case (Repeated s r)
  have "EntryFullSizeWithTag cs ft tag v
      = wrap64 (int (length (concat (map (\<lambda>x. item_bytes tag (single_item e s x)) (elements v)))))"
    using Repeated assms by (simp only: EntryFullSizeWithTag.simps)
      (intro isum_lengths single_size_with_tag_eq; simp)
  with Repeated show ?thesis by (simp add: field_bytes_def comp_def)
next
  case (RepeatedPacked s r)
  then have pk: "CanBePacked s" using assms(2) by simp
  have t: "SizeTag tag = int (length (tag_bytes tag BytesType))"
    by (rule SizeTag_eq [OF assms(1)]) (simp add: wire_type_defs)
  consider "elements v = []" | x where "elements v = [x]" | "length (elements v) > 1"
    by (rule list_cases_01)
  then show ?thesis
  proof cases
    case 1
    with RepeatedPacked show ?thesis by (simp add: field_bytes_def wrap64_def)
  next
    case 2
    with RepeatedPacked assms show ?thesis by (simp add: field_bytes_def single_size_with_tag_eq)
  next
    case 3
    with RepeatedPacked show ?thesis
      by (simp add: field_bytes_def item_bytes_def packed_size_eq [OF pk, of cs _ e] SizeUint64_int t
          iadd_def enc_delimited_def Let_def add_ac)
  qed
next
  case (MapOf k s)
  have t: "SizeTag tag = int (length (tag_bytes tag BytesType))"
    by (rule SizeTag_eq [OF assms(1)]) (simp add: wire_type_defs)
  have "EntryFullSizeWithTag cs ft tag v = wrap64 (int (length (concat (map (\<lambda>kv. item_bytes tag
      (BytesType, enc_delimited (map_entry_bytes e k s kv))) (entries v)))))"
    unfolding MapOf EntryFullSizeWithTag.simps
  proof (rule isum_lengths)
    fix kv assume "kv \<in> set (entries v)"
    then have "map_entry_size cs k s kv = wrap64 (int (length (map_entry_bytes e k s kv)))"
      using MapOf assms(3) by (intro map_entry_size_eq) auto
    then show "(let sz = map_entry_size cs k s kv
         in iadd (iadd sz (SizeTag tag)) (SizeUint64 (uint64_of_int sz)))
      = wrap64 (int (length (item_bytes tag (BytesType, enc_delimited (map_entry_bytes e k s kv)))))"
      by (simp add: item_bytes_def SizeUint64_int t iadd_def enc_delimited_def Let_def add_ac)
  qed
  with MapOf show ?thesis by (simp add: field_bytes_def comp_def)
qed

lemma schema_okD: "schema_ok M \<Longrightarrow> x \<in> set (present_fields (M n) v) \<Longrightarrow>
    valid_tag (fst (fst x)) \<and> type_ok (snd (fst x))"
proof -
  assume M: "schema_ok M" and x: "x \<in> set (present_fields (M n) v)"
  obtain tag ft y where xe: "x = ((tag, ft), y)" by (cases x) auto
  with x have "(tag, ft) \<in> set (M n)" by (auto simp: present_fields_def dest: set_zip_leftD)
  with M xe show ?thesis by (auto simp: schema_ok_def)
qed

lemma content_size:
  assumes "schema_ok M"
  shows "XXX_PbContentSize M n v = wrap64 (int (length (message_bytes M n v)))"
proof (induction v arbitrary: n rule: measure_induct_rule [of size])
  case (less v)
  have "XXX_PbContentSize M n v = isum (map (\<lambda>x. EntryFullSizeWithTag (XXX_PbContentSize M) (snd (fst x))
      (fst (fst x)) (snd x)) (present_fields (M n) v))"
    by (rule XXX_PbContentSize.simps)
  also have "\<dots> = wrap64 (int (length (concat (map (\<lambda>x. field_bytes (message_bytes M) (snd (fst x))
      (fst (fst x)) (snd x)) (present_fields (M n) v)))))"
    using less schema_okD [OF assms] present_fields_size
    by (intro isum_lengths EntryFullSizeWithTag_eq) (auto simp: sizes_ok_def)
  finally show ?case by (simp only: message_bytes.simps [of M n v])
qed

subsection \<open>Writers\<close>

lemma AppendBytesTag_wrap_emits:
  "emits (AppendBytesTag tag (wrap64 (int n))) (tag_bytes tag BytesType @ len_bytes n)"
  using AppendBytesTag_emits [of tag n] by (simp add: emits_def AppendBytesTag_def)

lemma single_writer_emits:
  assumes "sizes_ok cs e v" and "writes_ok mt e v"
  shows "emits (single_writer cs mt s tag v) (item_bytes tag (single_item e s v))"
proof (cases s)
  case (BasicT b d r)
  then show ?thesis
    using basic_append_emits by (simp add: emits_def item_bytes_def single_item_def)
next
  case (EnumT d r)
  then show ?thesis
    using basic_append_emits [of PInt32] by (simp add: emits_def item_bytes_def single_item_def del: basic_append.simps)
next
  case (StructT n r)
  have "emits (\<lambda>w. andThen (AppendBytesTag tag (wrap64 (int (length (e n v)))) w) (mt n v))
      ((tag_bytes tag BytesType @ len_bytes (length (e n v))) @ e n v)"
    using assms(2) by (intro emits_andThen AppendBytesTag_wrap_emits) (simp add: writes_ok_def)
  with StructT assms(1) show ?thesis
    by (simp add: emits_def item_bytes_def single_item_def enc_delimited_def sizes_ok_def)
qed

lemma single_packed_writer_emits:
  assumes "CanBePacked s"
  shows "emits (single_packed_writer s v) (single_payload e s v)"
  using assms basic_append_untagged_emits [of _ v]
  by (cases s) (simp_all add: emits_def del: basic_append_untagged.simps basic_payload.simps)

lemma EntryWriter_emits:
  assumes "type_ok ft" and "\<And>x. x \<in> set (parts ft v) \<Longrightarrow> sizes_ok cs e x"
    and "\<And>x. x \<in> set (parts ft v) \<Longrightarrow> writes_ok mt e x"
  shows "emits (EntryWriter cs mt ft tag v) (field_bytes e ft tag v)"
proof (cases ft)
  case (Single s)
  with assms single_writer_emits [of cs e v mt s tag] show ?thesis
    by (simp add: emits_def field_bytes_def)
next
  case (Repeated s r)
  then have "emits (foldE (single_writer cs mt s tag) (elements v))
      (concat (map (\<lambda>x. item_bytes tag (single_item e s x)) (elements v)))"
    using assms by (intro emits_foldE single_writer_emits) simp_all
  with Repeated show ?thesis by (simp add: emits_def field_bytes_def comp_def)
next
  case (RepeatedPacked s r)
  then have pk: "CanBePacked s" using assms(1) by simp
  consider "elements v = []" | x where "elements v = [x]" | "length (elements v) > 1"
    by (rule list_cases_01)
  then show ?thesis
  proof cases
    case 1
    with RepeatedPacked emits_foldE [of "[]"] show ?thesis by (simp add: emits_def field_bytes_def)
  next
    case 2
    with RepeatedPacked assms single_writer_emits [of cs e x mt s tag] show ?thesis
      by (simp add: emits_def field_bytes_def)
  next
    case 3
    let ?d = "concat (map (single_payload e s) (elements v))"
    have "emits (\<lambda>w. andThen (AppendBytesTag tag (wrap64 (int (length ?d))) w)
        (foldE (single_packed_writer s) (elements v)))
      ((tag_bytes tag BytesType @ len_bytes (length ?d)) @ ?d)"
      by (intro emits_andThen AppendBytesTag_wrap_emits emits_foldE single_packed_writer_emits pk)
    with RepeatedPacked 3 show ?thesis
      by (simp add: emits_def field_bytes_def item_bytes_def enc_delimited_def
          packed_size_eq [OF pk, of cs _ e])
  qed
next
  case (MapOf k s)
  let ?b = "\<lambda>kv. (tag_bytes tag BytesType @ len_bytes (length (map_entry_bytes e k s kv)))
      @ item_bytes 1 (single_item e k (fst kv)) @ item_bytes 2 (single_item e s (snd kv))"
  have "emits (foldE (\<lambda>kv w.
       andThen (AppendBytesTag tag (map_entry_size cs k s kv) w) (\<lambda>w.
       andThen (single_writer cs mt k 1 (fst kv) w)
         (single_writer cs mt s 2 (snd kv)))) (entries v)) (concat (map ?b (entries v)))"
  proof (rule emits_foldE)
    fix kv assume kv: "kv \<in> set (entries v)"
    then have "map_entry_size cs k s kv = wrap64 (int (length (map_entry_bytes e k s kv)))"
      using MapOf assms(2) by (intro map_entry_size_eq) auto
    with kv show "emits (\<lambda>w. andThen (AppendBytesTag tag (map_entry_size cs k s kv) w) (\<lambda>w.
       andThen (single_writer cs mt k 1 (fst kv) w) (single_writer cs mt s 2 (snd kv)))) (?b kv)"
      using MapOf assms(2,3)
      by (simp only:) (intro emits_andThen AppendBytesTag_wrap_emits single_writer_emits; auto)
  qed
  with MapOf show ?thesis
    by (simp add: emits_def field_bytes_def item_bytes_def enc_delimited_def map_entry_bytes_def comp_def)
qed

lemma MarshalTo_emits:
  assumes "schema_ok M"
  shows "emits (MarshalTo M n v) (message_bytes M n v)"
proof (induction v arbitrary: n rule: measure_induct_rule [of size])
  case (less v)
  have "emits (foldE (\<lambda>x. EntryWriter (XXX_PbContentSize M) (MarshalTo M) (snd (fst x)) (fst (fst x)) (snd x))
       (present_fields (M n) v))
     (concat (map (\<lambda>x. field_bytes (message_bytes M) (snd (fst x)) (fst (fst x)) (snd x))
       (present_fields (M n) v)))"
    using less schema_okD [OF assms] present_fields_size content_size [OF assms]
    by (intro emits_foldE EntryWriter_emits) (auto simp: sizes_ok_def writes_ok_def)
  then show ?case
    by (simp only: emits_def MarshalTo.simps [of M n v] message_bytes.simps [of M n v])
qed

text \<open>The whole of \<open>Marshal\<close>: the allocated buffer is filled exactly.\<close>

lemma NewWriter_room:
  assumes "n < 2 ^ 62"
  shows "\<exists>w. NewWriter (int n) = Inr w \<and> wr_ok w \<and> written w = [] \<and> sl_cap (wbuf w) = n \<and> sl_len (wbuf w) = 0"
  using assms by (simp add: NewWriter_def make_slice_def wr_ok_def sl_wf_def written_def sl_bytes_def sl_cap_def)

lemma Marshal_bytes:
  assumes "schema_ok M" and "v \<noteq> VNil" and "length (message_bytes M n v) < 2 ^ 62"
  shows "\<exists>s. Marshal M n v = Inr s \<and> sl_bytes s = message_bytes M n v \<and> sl_wf s
    \<and> sl_cap s = length (message_bytes M n v)"
proof -
  let ?bs = "message_bytes M n v"
  have sz: "XXX_PbContentSize M n v = int (length ?bs)"
    using content_size [OF assms(1)] assms(3) by (simp add: wrap64_id)
  show ?thesis
  proof (cases "?bs = []")
    case True
    with assms(2) sz show ?thesis
      by (simp add: Marshal_def nil_slice_def sl_bytes_def sl_wf_def sl_cap_def)
  next
    case False
    obtain w where w: "NewWriter (int (length ?bs)) = Inr w" "wr_ok w" "written w = []"
      "sl_cap (wbuf w) = length ?bs" "sl_len (wbuf w) = 0"
      using NewWriter_room [OF assms(3)] by blast
    have fit: "fits ?bs w" using w by (simp add: fits_def)
    have "Marshal M n v = Inr (wbuf (pushed ?bs w))"
      using assms(2) False sz w emitsD [OF MarshalTo_emits [OF assms(1), of n v] w(2) fit]
      by (simp add: Marshal_def Writer_Bytes_def)
    moreover have "sl_bytes (wbuf (pushed ?bs w)) = ?bs"
      using written_pushed [OF w(2), of ?bs] w(3) by (simp add: written_def)
    moreover have "sl_wf (wbuf (pushed ?bs w))"
      using pushed_ok [OF w(2) fit] by (simp add: wr_ok_def)
    moreover have "sl_cap (wbuf (pushed ?bs w)) = length ?bs"
      using pushed_cap [OF w(2) fit] w(4) by simp
    ultimately show ?thesis by blast
  qed
qed

end
