(* ===== verification/Message_Reader.thy ===== *)
theory Message_Reader
  imports Message_Encoding "HOL-Library.AList"
begin

section \<open>Generated messages: the lazy readers\<close>

text \<open>
  The reader templates. \<open>Unmarshal\<close> makes one pass over the buffer and only remembers, for
  every field, where its values start; a getter parses its field at the first call and keeps
  the result; an embedded message is unmarshalled by the getter of its field. Errors inside an
  embedded message are dropped by the emitted code, so is every error inside a map entry.

  The loops of the emitted code may run on for ever on hostile input, so each takes fuel:
  \<open>k\<close> bounds the rounds of a loop, \<open>fuel\<close> is what a loop inside gets, \<open>None\<close> is "still running".
\<close>

subsection \<open>Reader structs\<close>

text \<open>
  A field of a reader struct: \<open>offsetX\<close> (of an \<open>int\<close> or a list type), \<open>wireTypeX\<close>, and
  \<open>dataX\<close> with its \<open>parsedX\<close> flag. Values a reader yields are those of \<open>gval\<close> for scalars, a
  nil pointer or an embedded reader for messages, lists and maps of these.
\<close>

datatype rval =
    RVal gval
  | RNil
  | RMsg msgReader
  | RList "rval list"
  | RMap "(rval \<times> rval) list"
and msgReader = MsgReader (m_buf: "Reader option") (m_fields: "fstate list")
and fstate = FState (f_offset: int) (f_offsets: "int list") (f_wires: "ProtoWireType list")
    (f_data: "rval option")

definition NewMsgReader :: "schema \<Rightarrow> nat \<Rightarrow> msgReader" where
  "NewMsgReader M n = MsgReader None (map (\<lambda>_. FState 0 [] [] None) (M n))"

definition SourceBytes :: "msgReader option \<Rightarrow> slice" where
  "SourceBytes s = (case s of None \<Rightarrow> nil_slice | Some m \<Rightarrow> Reader_Bytes (m_buf m))"

text \<open>The reader a getter reads from. Before \<open>Unmarshal\<close> it is nil, but then all offsets are 0
  and nothing is read.\<close>

definition the_buf :: "msgReader \<Rightarrow> Reader" where
  "the_buf m = (case m_buf m of None \<Rightarrow> NewReader nil_slice | Some r \<Rightarrow> r)"

subsection \<open>\<open>Unmarshal\<close>\<close>

fun EntryUnmarshalSaveOffsets :: "fieldType \<Rightarrow> ProtoWireType \<Rightarrow> int \<Rightarrow> fstate \<Rightarrow> fstate" where
  "EntryUnmarshalSaveOffsets (Single s) wire offset (FState i is ws d) = FState offset is ws d"
| "EntryUnmarshalSaveOffsets (Repeated s r) wire offset (FState i is ws d) = FState i (is @ [offset]) ws d"
| "EntryUnmarshalSaveOffsets (RepeatedPacked s r) wire offset (FState i is ws d) =
     FState i (is @ [offset]) (ws @ [wire]) d"
| "EntryUnmarshalSaveOffsets (MapOf k s) wire offset (FState i is ws d) = FState i (is @ [offset]) ws d"

text \<open>\<open>switch tag\<close>\<close>

fun save_field :: "(ProtoWireNumber \<times> fieldType) list \<Rightarrow> ProtoWireNumber \<Rightarrow> ProtoWireType \<Rightarrow> int \<Rightarrow>
    fstate list \<Rightarrow> fstate list" where
  "save_field ((t, ft) # fs) tag wire offset (st # sts) =
     (if tag = t then EntryUnmarshalSaveOffsets ft wire offset st # sts
      else st # save_field fs tag wire offset sts)"
| "save_field fs tag wire offset sts = sts"

fun unmarshal_loop :: "nat \<Rightarrow> (ProtoWireNumber \<times> fieldType) list \<Rightarrow> Reader \<Rightarrow> int \<Rightarrow> fstate list \<Rightarrow>
    (fstate list \<times> rd_error fault option) option" where
  "unmarshal_loop 0 fs p offset sts = None"
| "unmarshal_loop (Suc k) fs p offset sts =
     (if \<not> HasNext p offset 0 then Some (sts, None)
      else case ReadTagAt p offset of
        Inl e \<Rightarrow> Some (sts, Some e)
      | Inr (tag, wire, tagSize) \<Rightarrow>
          (let offset = iadd offset tagSize;
               sts = save_field fs tag wire offset sts
           in case SkipData k p offset wire of
                None \<Rightarrow> None
              | Some (Inl e) \<Rightarrow> Some (sts, Some e)
              | Some (Inr offset) \<Rightarrow> unmarshal_loop k fs p offset sts))"

text \<open>The result is the reader after the call, and \<open>None\<close> for a nil error.\<close>

definition Unmarshal :: "nat \<Rightarrow> (ProtoWireNumber \<times> fieldType) list \<Rightarrow> msgReader \<Rightarrow> slice \<Rightarrow>
    (msgReader \<times> rd_error fault option) option" where
  "Unmarshal k fs m data =
     map_option (\<lambda>(sts, e). (MsgReader (Some (NewReader data)) sts, e))
       (unmarshal_loop k fs (NewReader data) 0 (m_fields m))"

subsection \<open>Reading one value\<close>

fun basic_read :: "basic \<Rightarrow> Reader \<Rightarrow> int \<Rightarrow> gval rd" where
  "basic_read PString p i = fmapE VStr (ReadString p i)"
| "basic_read PBytes p i = fmapE (\<lambda>s. VByt (sl_bytes s)) (ReadBytes p i)"
| "basic_read PBool p i = fmapE VBool (ReadBool p i)"
| "basic_read PDouble p i = fmapE V64 (ReadFloat64 p i)"
| "basic_read PFloat p i = fmapE V32 (ReadFloat32 p i)"
| "basic_read PInt32 p i = fmapE V32 (ReadInt32 p i)"
| "basic_read PInt64 p i = fmapE V64 (ReadInt64 p i)"
| "basic_read PUint32 p i = fmapE V32 (ReadUint32 p i)"
| "basic_read PUint64 p i = fmapE V64 (ReadUint64 p i)"
| "basic_read PSint32 p i = fmapE V32 (ReadSInt32 p i)"
| "basic_read PSint64 p i = fmapE V64 (ReadSInt64 p i)"
| "basic_read PFixed32 p i = fmapE V32 (ReadFixed32 p i)"
| "basic_read PFixed64 p i = fmapE V64 (ReadFixed64 p i)"
| "basic_read PSfixed32 p i = fmapE V32 (ReadSFixed32 p i)"
| "basic_read PSfixed64 p i = fmapE V64 (ReadSFixed64 p i)"

definition sized :: "('a \<Rightarrow> gval) \<Rightarrow> ('a \<times> int) rd \<Rightarrow> (gval \<times> int) rd" where
  "sized f m = fmapE (\<lambda>(x, n). (f x, n)) m"

fun basic_sized_read :: "basic \<Rightarrow> Reader \<Rightarrow> int \<Rightarrow> (gval \<times> int) rd" where
  "basic_sized_read PString p i = sized VStr (SizedReadString p i)"
| "basic_sized_read PBytes p i = sized (\<lambda>s. VByt (sl_bytes s)) (SizedReadBytes p i)"
| "basic_sized_read PBool p i = sized VBool (SizedReadBool p i)"
| "basic_sized_read PDouble p i = sized V64 (SizedReadFloat64 p i)"
| "basic_sized_read PFloat p i = sized V32 (SizedReadFloat32 p i)"
| "basic_sized_read PInt32 p i = sized V32 (SizedReadInt32 p i)"
| "basic_sized_read PInt64 p i = sized V64 (SizedReadInt64 p i)"
| "basic_sized_read PUint32 p i = sized V32 (SizedReadUint32 p i)"
| "basic_sized_read PUint64 p i = sized V64 (SizedReadUint64 p i)"
| "basic_sized_read PSint32 p i = sized V32 (SizedReadSInt32 p i)"
| "basic_sized_read PSint64 p i = sized V64 (SizedReadSInt64 p i)"
| "basic_sized_read PFixed32 p i = sized V32 (SizedReadFixed32 p i)"
| "basic_sized_read PFixed64 p i = sized V64 (SizedReadFixed64 p i)"
| "basic_sized_read PSfixed32 p i = sized V32 (SizedReadSFixed32 p i)"
| "basic_sized_read PSfixed64 p i = sized V64 (SizedReadSFixed64 p i)"

text \<open>What an absent value reads as, and the zero value of a variable of the type.\<close>

fun single_default :: "single \<Rightarrow> gval" where
  "single_default (BasicT b d r) = (case d of Some c \<Rightarrow> c | None \<Rightarrow> basic_zero b)"
| "single_default (EnumT d r) = V32 (case d of Some c \<Rightarrow> c | None \<Rightarrow> 0)"
| "single_default (StructT n r) = VNil"

fun single_absent :: "single \<Rightarrow> rval" where
  "single_absent (StructT n r) = RNil"
| "single_absent s = RVal (single_default s)"

fun single_zero :: "single \<Rightarrow> rval" where
  "single_zero (BasicT b d r) = RVal (basic_zero b)"
| "single_zero (EnumT d r) = RVal (V32 0)"
| "single_zero (StructT n r) = RNil"

text \<open>The reader of an embedded message; the error of its \<open>Unmarshal\<close> is dropped.\<close>

definition struct_entry :: "nat \<Rightarrow> schema \<Rightarrow> nat \<Rightarrow> slice \<Rightarrow> rval rd option" where
  "struct_entry fuel M n data =
     (if sl_len data > 0 then
        (case Unmarshal fuel (M n) (NewMsgReader M n) data of
           None \<Rightarrow> None
         | Some (m, e) \<Rightarrow> if e = Some Panic then Some (Inl Panic) else Some (Inr (RMsg m)))
      else Some (Inr RNil))"

fun single_reader :: "nat \<Rightarrow> schema \<Rightarrow> single \<Rightarrow> Reader \<Rightarrow> int \<Rightarrow> rval rd option" where
  "single_reader fuel M (BasicT b d r) p wOffset =
     Some (if wOffset > 0 then fmapE RVal (basic_read b p wOffset)
           else Inr (single_absent (BasicT b d r)))"
| "single_reader fuel M (EnumT d r) p wOffset =
     Some (if wOffset > 0 then fmapE RVal (basic_read PInt32 p wOffset)
           else Inr (single_absent (EnumT d r)))"
| "single_reader fuel M (StructT n r) p wOffset =
     (if wOffset > 0 then bindO (Some (ReadBytes p wOffset)) (struct_entry fuel M n)
      else Some (Inr RNil))"

fun single_sized_reader :: "nat \<Rightarrow> schema \<Rightarrow> single \<Rightarrow> Reader \<Rightarrow> int \<Rightarrow> (rval \<times> int) rd option" where
  "single_sized_reader fuel M (BasicT b d r) p wOffset =
     Some (if wOffset > 0 then fmapE (\<lambda>(x, n). (RVal x, n)) (basic_sized_read b p wOffset)
           else Inr (single_absent (BasicT b d r), 0))"
| "single_sized_reader fuel M (EnumT d r) p wOffset =
     Some (if wOffset > 0 then fmapE (\<lambda>(x, n). (RVal x, n)) (basic_sized_read PInt32 p wOffset)
           else Inr (single_absent (EnumT d r), 0))"
| "single_sized_reader fuel M (StructT n r) p wOffset =
     (if wOffset > 0 then
        bindO (Some (SizedReadBytes p wOffset)) (\<lambda>(data, dataSize).
        bindO (struct_entry fuel M n data) (\<lambda>entry. Some (Inr (entry, dataSize))))
      else Some (Inr (RNil, 0)))"

subsection \<open>Lists\<close>

definition append_entry :: "rval rd option \<Rightarrow> rval list \<Rightarrow> rval list rd option" where
  "append_entry m entry = bindO m (\<lambda>listEntry. Some (Inr (entry @ [listEntry])))"

fun packed_loop :: "nat \<Rightarrow> nat \<Rightarrow> schema \<Rightarrow> single \<Rightarrow> Reader \<Rightarrow> int \<Rightarrow> int \<Rightarrow> uint64 \<Rightarrow> int \<Rightarrow> rval list \<Rightarrow>
    rval list rd option" where
  "packed_loop 0 fuel M s p wOffset sizeSize sz offset entry = None"
| "packed_loop (Suc k) fuel M s p wOffset sizeSize sz offset entry =
     (if offset < int_of_uint64 sz then
        bindO (single_sized_reader fuel M s p (iadd (iadd wOffset sizeSize) offset))
          (\<lambda>(listEntry, listEntrySize).
            packed_loop k fuel M s p wOffset sizeSize sz (iadd offset listEntrySize) (entry @ [listEntry]))
      else Some (Inr entry))"

definition packed_entry :: "nat \<Rightarrow> schema \<Rightarrow> single \<Rightarrow> Reader \<Rightarrow> int \<times> ProtoWireType \<Rightarrow> rval list \<Rightarrow>
    rval list rd option" where
  "packed_entry fuel M s p ow entry =
     (case ow of (wOffset, wType) \<Rightarrow>
       if wType = BytesType then
         bindO (Some (SizedReadVarInt p wOffset)) (\<lambda>(sz, sizeSize).
           packed_loop fuel fuel M s p wOffset sizeSize sz 0 entry)
       else append_entry (single_reader fuel M s p wOffset) entry)"

subsection \<open>Maps\<close>

text \<open>\<open>tag, wireType, tagSize, _ := m.buf.ReadTagAt(wOffset)\<close>: zeros in case of an error.\<close>

definition tag_or_zero :: "Reader \<Rightarrow> int \<Rightarrow> (ProtoWireNumber \<times> ProtoWireType \<times> int) rd" where
  "tag_or_zero p wOffset =
     (case ReadTagAt p wOffset of Inl (Fail e) \<Rightarrow> Inr (0, 0, 0) | Inl Panic \<Rightarrow> Inl Panic | Inr t \<Rightarrow> Inr t)"

definition skip_or_zero :: "nat \<Rightarrow> Reader \<Rightarrow> int \<Rightarrow> ProtoWireType \<Rightarrow> int rd option" where
  "skip_or_zero fuel p wOffset wireType =
     (case SkipData fuel p wOffset wireType of
        Some (Inl (Fail e)) \<Rightarrow> Some (Inr 0) | r \<Rightarrow> r)"

fun map_entry_loop :: "nat \<Rightarrow> nat \<Rightarrow> schema \<Rightarrow> single \<Rightarrow> single \<Rightarrow> Reader \<Rightarrow> int \<Rightarrow> int \<Rightarrow> rval \<Rightarrow> rval \<Rightarrow>
    (rval \<times> rval) rd option" where
  "map_entry_loop 0 fuel M kt vt p wOffset endOffset keyData valueData = None"
| "map_entry_loop (Suc k) fuel M kt vt p wOffset endOffset keyData valueData =
     (if wOffset < endOffset then
        bindO (Some (tag_or_zero p wOffset)) (\<lambda>(tag, wireType, tagSize).
          let wOffset = iadd wOffset tagSize in
          if tag = 1 then
            bindO (single_sized_reader fuel M kt p wOffset) (\<lambda>(keyEntry, keyEntrySize).
              map_entry_loop k fuel M kt vt p (iadd wOffset keyEntrySize) endOffset keyEntry valueData)
          else if tag = 2 then
            bindO (single_sized_reader fuel M vt p wOffset) (\<lambda>(valueEntry, valueEntrySize).
              map_entry_loop k fuel M kt vt p (iadd wOffset valueEntrySize) endOffset keyData valueEntry)
          else
            bindO (skip_or_zero fuel p wOffset wireType) (\<lambda>wOffset.
              map_entry_loop k fuel M kt vt p wOffset endOffset keyData valueData))
      else Some (Inr (keyData, valueData)))"

definition map_entry :: "nat \<Rightarrow> schema \<Rightarrow> single \<Rightarrow> single \<Rightarrow> Reader \<Rightarrow> int \<Rightarrow> (rval \<times> rval) list \<Rightarrow>
    (rval \<times> rval) list rd option" where
  "map_entry fuel M kt vt p wOffset entry =
     bindO (Some (SizedReadVarInt p wOffset)) (\<lambda>(entrySize, entrySizeSize).
       let endOffset = iadd (iadd wOffset entrySizeSize) (int_of_uint64 entrySize);
           wOffset = iadd wOffset entrySizeSize in
       bindO (map_entry_loop fuel fuel M kt vt p wOffset endOffset (single_zero kt) (single_zero vt))
         (\<lambda>(keyData, valueData). Some (Inr (AList.update keyData valueData entry))))"

subsection \<open>Getters\<close>

fun EntryReader :: "nat \<Rightarrow> schema \<Rightarrow> fieldType \<Rightarrow> Reader \<Rightarrow> fstate \<Rightarrow> rval rd option" where
  "EntryReader fuel M (Single s) p st = single_reader fuel M s p (f_offset st)"
| "EntryReader fuel M (Repeated s r) p st =
     bindO (foldO (\<lambda>wOffset. append_entry (single_reader fuel M s p wOffset)) (f_offsets st) [])
       (\<lambda>xs. Some (Inr (RList xs)))"
| "EntryReader fuel M (RepeatedPacked s r) p st =
     bindO (foldO (packed_entry fuel M s p) (zip (f_offsets st) (f_wires st)) [])
       (\<lambda>xs. Some (Inr (RList xs)))"
| "EntryReader fuel M (MapOf kt vt) p st =
     bindO (foldO (map_entry fuel M kt vt p) (f_offsets st) []) (\<lambda>kvs. Some (Inr (RMap kvs)))"

text \<open>\<open>readX\<close>: the cached value if there is one, else parse and keep it. \<open>GetX\<close> of a nil
  reader is the type's \<open>DefaultReturn\<close>.\<close>

definition field_value :: "nat \<Rightarrow> schema \<Rightarrow> fieldType \<Rightarrow> Reader \<Rightarrow> fstate \<Rightarrow> rval rd option" where
  "field_value fuel M ft p st =
     (case f_data st of Some d \<Rightarrow> Some (Inr d) | None \<Rightarrow> EntryReader fuel M ft p st)"

definition readField :: "nat \<Rightarrow> schema \<Rightarrow> nat \<Rightarrow> nat \<Rightarrow> msgReader \<Rightarrow> (rval \<times> msgReader) rd option" where
  "readField fuel M n i m =
     (let st = m_fields m ! i in
      case f_data st of
        Some d \<Rightarrow> Some (Inr (d, m))
      | None \<Rightarrow> bindO (EntryReader fuel M (snd (M n ! i)) (the_buf m) st) (\<lambda>entry.
          Some (Inr (entry, MsgReader (m_buf m) ((m_fields m)
            [i := FState (f_offset st) (f_offsets st) (f_wires st) (Some entry)])))))"

fun DefaultReturn :: "fieldType \<Rightarrow> rval" where
  "DefaultReturn (Single s) = single_absent s"
| "DefaultReturn (Repeated s r) = RList []"
| "DefaultReturn (RepeatedPacked s r) = RList []"
| "DefaultReturn (MapOf k s) = RMap []"

definition getField :: "nat \<Rightarrow> schema \<Rightarrow> nat \<Rightarrow> nat \<Rightarrow> msgReader option \<Rightarrow> (rval \<times> msgReader option) rd option" where
  "getField fuel M n i m =
     (case m of
        None \<Rightarrow> Some (Inr (DefaultReturn (snd (M n ! i)), None))
      | Some m \<Rightarrow> bindO (readField fuel M n i m) (\<lambda>(v, m). Some (Inr (v, Some m))))"

subsection \<open>\<open>ToStruct\<close>\<close>

text \<open>The values of a reader turned into values of the writer structs; \<open>ts\<close> is the operation of
  embedded readers. Scalars are used directly. An entry of a map whose message is nil is not
  stored.\<close>

fun rval_val :: "rval \<Rightarrow> gval" where
  "rval_val (RVal v) = v"
| "rval_val _ = VNil"

fun single_to_struct :: "(nat \<Rightarrow> msgReader \<Rightarrow> gval rd option) \<Rightarrow> single \<Rightarrow> rval \<Rightarrow> gval rd option" where
  "single_to_struct ts (StructT n r) rv = (case rv of RMsg m \<Rightarrow> ts n m | _ \<Rightarrow> Some (Inr VNil))"
| "single_to_struct ts s rv = Some (Inr (rval_val rv))"

definition list_to_struct :: "(nat \<Rightarrow> msgReader \<Rightarrow> gval rd option) \<Rightarrow> single \<Rightarrow> rval \<Rightarrow> gval rd option" where
  "list_to_struct ts s rv =
     bindO (foldO (\<lambda>x acc. bindO (single_to_struct ts s x) (\<lambda>v. Some (Inr (acc @ [v]))))
       (case rv of RList xs \<Rightarrow> xs | _ \<Rightarrow> []) []) (\<lambda>vs. Some (Inr (VList vs)))"

definition map_to_struct :: "(nat \<Rightarrow> msgReader \<Rightarrow> gval rd option) \<Rightarrow> single \<Rightarrow> rval \<Rightarrow> gval rd option" where
  "map_to_struct ts s rv =
     bindO (foldO (\<lambda>(k, x) acc.
         if (case s of StructT n r \<Rightarrow> x = RNil | _ \<Rightarrow> False) then Some (Inr acc)
         else bindO (single_to_struct ts s x) (\<lambda>v. Some (Inr (AList.update (rval_val k) v acc))))
       (case rv of RMap kvs \<Rightarrow> kvs | _ \<Rightarrow> []) []) (\<lambda>kvs. Some (Inr (VMap kvs)))"

fun field_to_struct :: "(nat \<Rightarrow> msgReader \<Rightarrow> gval rd option) \<Rightarrow> fieldType \<Rightarrow> rval \<Rightarrow> gval rd option" where
  "field_to_struct ts (Single s) rv = single_to_struct ts s rv"
| "field_to_struct ts (Repeated s r) rv = list_to_struct ts s rv"
| "field_to_struct ts (RepeatedPacked s r) rv = list_to_struct ts s rv"
| "field_to_struct ts (MapOf k s) rv = map_to_struct ts s rv"

text \<open>\<open>d\<close> bounds the nesting of messages. The getters' caching is \<open>readField\<close>'s; it does not
  change what they return (\<open>readField_again\<close> below).\<close>

fun ToStruct :: "nat \<Rightarrow> nat \<Rightarrow> schema \<Rightarrow> nat \<Rightarrow> msgReader \<Rightarrow> gval rd option" where
  "ToStruct 0 fuel M n m = None"
| "ToStruct (Suc d) fuel M n m =
     bindO (foldO (\<lambda>(f, st) acc.
         bindO (field_value fuel M (snd f) (the_buf m) st) (\<lambda>data.
         bindO (field_to_struct (ToStruct d fuel M) (snd f) data) (\<lambda>v. Some (Inr (acc @ [v])))))
       (zip (M n) (m_fields m)) []) (\<lambda>vs. Some (Inr (VMsg vs)))"

subsection \<open>\<open>Copy\<close>\<close>

text \<open>\<open>Copy\<close> of a writer struct, on values: slices and maps of messages are rebuilt entry by
  entry, everything else is shared. Entries of a map whose message is nil are not copied.\<close>

fun single_copy :: "(nat \<Rightarrow> gval \<Rightarrow> gval) \<Rightarrow> single \<Rightarrow> gval \<Rightarrow> gval" where
  "single_copy cp (StructT n r) v = (if v = VNil then VNil else cp n v)"
| "single_copy cp s v = v"

fun EntryCopy :: "(nat \<Rightarrow> gval \<Rightarrow> gval) \<Rightarrow> fieldType \<Rightarrow> gval \<Rightarrow> gval" where
  "EntryCopy cp (Single s) v = single_copy cp s v"
| "EntryCopy cp (Repeated s r) v = VList (map (single_copy cp s) (elements v))"
| "EntryCopy cp (RepeatedPacked s r) v = VList (map (single_copy cp s) (elements v))"
| "EntryCopy cp (MapOf k s) v =
     VMap (map (\<lambda>kv. (fst kv, single_copy cp s (snd kv)))
       (filter (\<lambda>kv. case s of StructT n r \<Rightarrow> snd kv \<noteq> VNil | _ \<Rightarrow> True) (entries v)))"

lemma single_copy_cong: "(\<And>n. cp n v = cp' n v) \<Longrightarrow> single_copy cp s v = single_copy cp' s v"
  by (cases s) simp_all

lemma EntryCopy_cong [fundef_cong]:
  assumes "ft = ft'" "v = v'" "\<And>n x. x \<in> set (parts ft' v') \<Longrightarrow> cp n x = cp' n x"
  shows "EntryCopy cp ft v = EntryCopy cp' ft' v'"
proof -
  have "single_copy cp s x = single_copy cp' s x" if "x \<in> set (parts ft' v')" for s x
    using that assms(3) by (intro single_copy_cong)
  with assms(1,2) show ?thesis by (cases ft') auto
qed

function Copy :: "schema \<Rightarrow> nat \<Rightarrow> gval \<Rightarrow> gval" where
  "Copy M n v =
     (if v = VNil then VNil
      else VMsg (map (\<lambda>x. EntryCopy (Copy M) (snd (fst x)) (snd x)) (zip (M n) (msg_fields v))))"
  by pat_completeness auto
termination
  by (relation "measure (\<lambda>(M, n, v). size v)")
    (auto dest: zip_fields_size)

declare Copy.simps [simp del]

end
