(* ===== verification/Message_Roundtrip.thy ===== *)
theory Message_Roundtrip
  imports Message_Reader
begin

section \<open>Reading back what was written\<close>

text \<open>
  The readers against the encoding: \<open>Unmarshal\<close> of a message's bytes finds every field at its
  place, every getter returns the value that was written, and \<open>ToStruct\<close> gives the message
  back, up to what the format does not keep (\<open>message_norm\<close>): an embedded message without
  content is written with length 0 and reads as nil, and a float that Go's \<open>!=\<close> takes for the
  default (a negative zero) is not written.
\<close>

subsection \<open>Typed values\<close>

fun basic_typed :: "basic \<Rightarrow> gval \<Rightarrow> bool" where
  "basic_typed PString v = (case v of VStr x \<Rightarrow> True | _ \<Rightarrow> False)"
| "basic_typed PBytes v = (case v of VByt x \<Rightarrow> True | _ \<Rightarrow> False)"
| "basic_typed PBool v = (case v of VBool x \<Rightarrow> True | _ \<Rightarrow> False)"
| "basic_typed PFloat v = (case v of V32 x \<Rightarrow> True | _ \<Rightarrow> False)"
| "basic_typed PInt32 v = (case v of V32 x \<Rightarrow> True | _ \<Rightarrow> False)"
| "basic_typed PUint32 v = (case v of V32 x \<Rightarrow> True | _ \<Rightarrow> False)"
| "basic_typed PSint32 v = (case v of V32 x \<Rightarrow> True | _ \<Rightarrow> False)"
| "basic_typed PFixed32 v = (case v of V32 x \<Rightarrow> True | _ \<Rightarrow> False)"
| "basic_typed PSfixed32 v = (case v of V32 x \<Rightarrow> True | _ \<Rightarrow> False)"
| "basic_typed _ v = (case v of V64 x \<Rightarrow> True | _ \<Rightarrow> False)"

fun single_typed :: "(nat \<Rightarrow> gval \<Rightarrow> bool) \<Rightarrow> single \<Rightarrow> gval \<Rightarrow> bool" where
  "single_typed ht (BasicT b d r) v = basic_typed b v"
| "single_typed ht (EnumT d r) v = (case v of V32 x \<Rightarrow> True | _ \<Rightarrow> False)"
| "single_typed ht (StructT n r) v = (v = VNil \<or> ht n v)"

fun field_typed :: "(nat \<Rightarrow> gval \<Rightarrow> bool) \<Rightarrow> fieldType \<Rightarrow> gval \<Rightarrow> bool" where
  "field_typed ht (Single s) v = single_typed ht s v"
| "field_typed ht (Repeated s r) v = (v = VList (elements v) \<and> (\<forall>x \<in> set (elements v). single_typed ht s x))"
| "field_typed ht (RepeatedPacked s r) v =
     (v = VList (elements v) \<and> (\<forall>x \<in> set (elements v). single_typed ht s x))"
| "field_typed ht (MapOf k s) v =
     (v = VMap (entries v) \<and> distinct (map fst (entries v))
      \<and> (\<forall>kv \<in> set (entries v). single_typed ht k (fst kv) \<and> single_typed ht s (snd kv)))"

lemma single_typed_cong: "(\<And>n. ht n v = ht' n v) \<Longrightarrow> single_typed ht s v = single_typed ht' s v"
  by (cases s) simp_all

lemma field_typed_cong [fundef_cong]:
  assumes "ft = ft'" "v = v'" "\<And>n x. x \<in> set (parts ft' v') \<Longrightarrow> ht n x = ht' n x"
  shows "field_typed ht ft v = field_typed ht' ft' v'"
proof -
  have "single_typed ht s x = single_typed ht' s x" if "x \<in> set (parts ft' v')" for s x
    using that assms(3) by (intro single_typed_cong)
  with assms(1,2) show ?thesis by (cases ft') (auto simp del: single_typed.simps)
qed

function message_typed :: "schema \<Rightarrow> nat \<Rightarrow> gval \<Rightarrow> bool" where
  "message_typed M n v =
     (v = VMsg (msg_fields v) \<and> length (msg_fields v) = length (M n)
      \<and> (\<forall>x \<in> set (zip (M n) (msg_fields v)). field_typed (message_typed M) (snd (fst x)) (snd x)))"
  by pat_completeness auto
termination
  by (relation "measure (\<lambda>(M, n, v). size v)") (auto dest: zip_fields_size)

declare message_typed.simps [simp del]

lemma msg_fields_VNil [simp]: "msg_fields VNil = []"
  by simp

lemma message_bytes_VNil [simp]: "message_bytes M n VNil = []"
  by (simp add: message_bytes.simps present_fields_def)

subsection \<open>Reading one value\<close>

lemma basic_read_at:
  assumes "basic_typed b v" and "at_off p o' (basic_payload b v)"
  shows "basic_read b p (int o') = Inr v"
    and "basic_sized_read b p (int o') = Inr (v, int (length (basic_payload b v)))"
proof -
  note reads = bool.read_enc int32.read_enc int64.read_enc uint32.read_enc uint64.read_enc
    sint32.read_enc sint64.read_enc fixed32.read_enc fixed64.read_enc sfixed32.read_enc
    sfixed64.read_enc float32.read_enc float64.read_enc
  note sized = bool.sized_read_enc int32.sized_read_enc int64.sized_read_enc uint32.sized_read_enc
    uint64.sized_read_enc sint32.sized_read_enc sint64.sized_read_enc fixed32.sized_read_enc
    fixed64.sized_read_enc sfixed32.sized_read_enc sfixed64.sized_read_enc float32.sized_read_enc
    float64.sized_read_enc
  have d: "fmapE VStr (ReadString p (int o')) = Inr (VStr d)"
    "fmapE (\<lambda>s. VByt (sl_bytes s)) (ReadBytes p (int o')) = Inr (VByt d)"
    "sized VStr (SizedReadString p (int o')) = Inr (VStr d, int (length (enc_delimited d)))"
    "sized (\<lambda>s. VByt (sl_bytes s)) (SizedReadBytes p (int o')) = Inr (VByt d, int (length (enc_delimited d)))"
    if at: "at_off p o' (enc_delimited d)" for d
    using SizedReadBytes_at [OF at] by (auto simp: ReadString_def SizedReadString_def sized_def)
  show "basic_read b p (int o') = Inr v"
    using assms d(1,2) by (cases b; cases v) (simp_all add: reads)
  show "basic_sized_read b p (int o') = Inr (v, int (length (basic_payload b v)))"
    using assms d(3,4) by (cases b; cases v) (simp_all add: sized sized_def)
qed

fun represents :: "(nat \<Rightarrow> gval \<Rightarrow> msgReader \<Rightarrow> bool) \<Rightarrow> (nat \<Rightarrow> gval \<Rightarrow> byte list) \<Rightarrow> single \<Rightarrow> gval \<Rightarrow> rval \<Rightarrow> bool" where
  "represents R e (StructT n r) v rv = (if e n v = [] then rv = RNil else (\<exists>m. rv = RMsg m \<and> R n v m))"
| "represents R e s v rv = (rv = RVal v)"

text \<open>Embedded messages of a value read back, from any view of their bytes.\<close>

definition nested_ok :: "(nat \<Rightarrow> gval \<Rightarrow> msgReader \<Rightarrow> bool) \<Rightarrow> (nat \<Rightarrow> gval \<Rightarrow> byte list) \<Rightarrow> nat \<Rightarrow> schema \<Rightarrow>
    single \<Rightarrow> gval \<Rightarrow> bool" where
  "nested_ok R e fuel M s v \<longleftrightarrow>
     (\<forall>n r t. s = StructT n r \<longrightarrow> e n v \<noteq> [] \<longrightarrow> sl_wf t \<longrightarrow> sl_bytes t = e n v \<longrightarrow> sl_len t < 2 ^ 62 \<longrightarrow>
       (\<exists>m. Unmarshal fuel (M n) (NewMsgReader M n) t = Some (m, None) \<and> R n v m))"

lemma single_read_at:
  assumes "0 < o'" and at: "at_off p o' (single_payload e s v)" and "single_typed ht s v"
    and nested: "nested_ok R e fuel M s v"
  shows "\<exists>rv. single_reader fuel M s p (int o') = Some (Inr rv)
    \<and> single_sized_reader fuel M s p (int o') = Some (Inr (rv, int (length (single_payload e s v))))
    \<and> represents R e s v rv"
proof (cases s)
  case (BasicT b d r)
  with assms basic_read_at [of b v p o'] show ?thesis by simp
next
  case (EnumT d r)
  then have "basic_typed PInt32 v" using assms(3) by simp
  with EnumT assms basic_read_at [of PInt32 v p o'] show ?thesis by simp
next
  case (StructT n r)
  then have at: "at_off p o' (enc_delimited (e n v))" using at by simp
  from SizedReadBytes_at [OF at] obtain t where
    t: "SizedReadBytes p (int o') = Inr (t, int (length (enc_delimited (e n v))))"
      "ReadBytes p (int o') = Inr t" "sl_wf t" "sl_bytes t = e n v" "sl_len t = length (e n v)"
    by blast
  have len: "sl_len t < 2 ^ 62"
    using at_off_small [OF at] t(5) by (simp add: enc_delimited_def)
  have "\<exists>rv. struct_entry fuel M n t = Some (Inr rv) \<and> represents R e s v rv"
  proof (cases "e n v = []")
    case True
    with t StructT show ?thesis by (simp add: struct_entry_def)
  next
    case False
    then obtain m where "Unmarshal fuel (M n) (NewMsgReader M n) t = Some (m, None)" "R n v m"
      using nested StructT t len unfolding nested_ok_def by blast
    with False t StructT show ?thesis by (simp add: struct_entry_def)
  qed
  with StructT t assms(1) show ?thesis by auto
qed

subsection \<open>Items\<close>

definition item_ok :: "item \<Rightarrow> bool" where
  "item_ok it \<longleftrightarrow> fst it < 8 \<and> 0 < length (snd it) \<and> (\<forall>p o' k. at_off p o' (snd it) \<longrightarrow>
     SkipData (Suc k) p (int o') (fst it) = Some (Inr (int (o' + length (snd it)))))"

lemma delimited_item_ok: "item_ok (BytesType, enc_delimited d)"
  using skip_delimited_at len_bytes_length(1) [of "length d"]
  by (simp add: item_ok_def wire_type_defs enc_delimited_def del: length_greater_0_conv SkipData.simps)

lemma basic_item_ok: "item_ok (basic_wt b, basic_payload b v)"
proof -
  note skips = bool.skip_enc int32.skip_enc int64.skip_enc uint32.skip_enc uint64.skip_enc
    sint32.skip_enc sint64.skip_enc fixed32.skip_enc fixed64.skip_enc sfixed32.skip_enc
    sfixed64.skip_enc float32.skip_enc float64.skip_enc
  consider "b = PString" | "b = PBytes" | "basic_can_be_packed b" by (cases b) simp_all
  then show ?thesis
  proof cases
    case 3
    have "SkipData (Suc k) p (int o') (basic_wt b) = Some (Inr (int (o' + length (basic_payload b v))))"
      if "at_off p o' (basic_payload b v)" for p o' k
      using 3 that skips by (cases b) (simp_all only: basic_wt.simps basic_payload.simps basic_can_be_packed.simps)
    with 3 basic_payload_length [of b v] basic_wt_small [of b] show ?thesis
      unfolding item_ok_def fst_conv snd_conv by blast
  qed (simp_all only: basic_wt.simps basic_payload.simps delimited_item_ok)
qed

lemma single_item_ok: "item_ok (single_item e s v)"
  using basic_item_ok [of PInt32] basic_item_ok delimited_item_ok
  by (cases s) (simp_all add: single_item_def)

lemma field_items_ok: "it \<in> set (field_items e ft v) \<Longrightarrow> item_ok it"
  by (cases ft) (auto simp: single_item_ok delimited_item_ok split: if_splits)

lemma item_bytes_length: "item_ok it \<Longrightarrow> 2 \<le> length (item_bytes tag it)"
  using length_varint_bytes_pos [of "unat (tag_word tag (fst it))"]
  by (simp add: item_bytes_def item_ok_def tag_bytes_def Suc_le_eq del: length_greater_0_conv)

subsection \<open>\<open>Unmarshal\<close> over a sequence of items\<close>

type_synonym tagged = "ProtoWireNumber \<times> item"

definition tagged_bytes :: "tagged list \<Rightarrow> byte list" where
  "tagged_bytes its = concat (map (\<lambda>x. item_bytes (fst x) (snd x)) its)"

text \<open>Items with the offset of their payload, when the first starts at \<open>o'\<close>.\<close>

fun place :: "nat \<Rightarrow> tagged list \<Rightarrow> (tagged \<times> nat) list" where
  "place o' [] = []"
| "place o' (x # xs) = (x, o' + length (tag_bytes (fst x) (fst (snd x))))
     # place (o' + length (item_bytes (fst x) (snd x))) xs"

definition save_placed :: "(ProtoWireNumber \<times> fieldType) list \<Rightarrow> fstate list \<Rightarrow> tagged \<times> nat \<Rightarrow> fstate list" where
  "save_placed fs sts x = save_field fs (fst (fst x)) (fst (snd (fst x))) (int (snd x)) sts"

lemma tagged_bytes_simps [simp]:
  "tagged_bytes [] = []"
  "tagged_bytes (x # xs) = item_bytes (fst x) (snd x) @ tagged_bytes xs"
  "tagged_bytes (xs @ ys) = tagged_bytes xs @ tagged_bytes ys"
  by (simp_all add: tagged_bytes_def)

lemma place_append: "place o' (xs @ ys) = place o' xs @ place (o' + length (tagged_bytes xs)) ys"
  by (induction xs arbitrary: o') (simp_all add: add.assoc)

lemma HasNext_at:
  assumes "at_off p o' xs" and "xs \<noteq> []"
  shows "HasNext p (int o') 0"
proof -
  have "o' < sl_len (buf p)"
    using assms length_greater_0_conv [of xs] unfolding at_off_def by linarith
  then show ?thesis using at_off_iadd [OF assms(1), of 0] by (simp add: HasNext_def)
qed

lemma HasNext_end: "\<lbrakk>sl_wf (buf p); sl_len (buf p) < 2 ^ 62\<rbrakk> \<Longrightarrow> \<not> HasNext p (int (sl_len (buf p))) 0"
  using iadd_nat [of "sl_len (buf p)" 0] by (simp add: HasNext_def)

lemma unmarshal_items:
  assumes "\<And>x. x \<in> set its \<Longrightarrow> valid_tag (fst x) \<and> item_ok (snd x)"
    and "at_off p o' (tagged_bytes its)" and "o' + length (tagged_bytes its) = sl_len (buf p)"
    and "length (tagged_bytes its) < k"
  shows "unmarshal_loop k fs p (int o') sts = Some (foldl (save_placed fs) sts (place o' its), None)"
  using assms
proof (induction its arbitrary: o' k sts)
  case Nil
  then obtain k' where k: "k = Suc k'" by (cases k) auto
  have "\<not> HasNext p (int o') 0"
    using Nil.prems(2,3) HasNext_end [of p] by (auto simp: at_off_def)
  then show ?case by (simp add: k)
next
  case (Cons x its)
  obtain tag wt d where x: "x = (tag, wt, d)" by (cases x) auto
  have tag: "valid_tag tag" and it: "item_ok (wt, d)" using Cons.prems(1) [of x] x by simp_all
  have len: "2 \<le> length (item_bytes tag (wt, d))" using it by (rule item_bytes_length)
  moreover have "length (item_bytes tag (wt, d)) < k" using Cons.prems(4) x by simp
  ultimately have "2 < k" by simp
  then obtain k' where k: "k = Suc (Suc k')"
    by (metis add_2_eq_Suc less_imp_Suc_add add_Suc_right)
  let ?t = "length (tag_bytes tag wt)" and ?o = "o' + length (item_bytes tag (wt, d))"
  have at: "at_off p o' (tag_bytes tag wt)" "at_off p (o' + ?t) d" "at_off p ?o (tagged_bytes its)"
    using Cons.prems(2) by (simp_all add: x item_bytes_def at_off_append add.assoc)
  have "tag_bytes tag wt \<noteq> []" by (simp add: tag_bytes_def)
  then have more: "HasNext p (int o') 0" by (rule HasNext_at [OF at(1)])
  have wt: "wt < 8" using it by (simp add: item_ok_def)
  have tagread: "ReadTagAt p (int o') = Inr (tag, wt, int ?t)"
    by (rule ReadTagAt_at [OF tag wt at(1)])
  have off: "iadd (int o') (int ?t) = int (o' + ?t)" by (rule at_off_iadd [OF at(1)]) simp
  have skip: "SkipData (Suc k') p (int (o' + ?t)) wt = Some (Inr (int ?o))"
  proof -
    have "SkipData (Suc k') p (int (o' + ?t)) wt = Some (Inr (int (o' + ?t + length d)))"
      using it at(2) unfolding item_ok_def fst_conv snd_conv by blast
    then show ?thesis by (simp only: item_bytes_def fst_conv snd_conv length_append add.assoc)
  qed
  have "unmarshal_loop k fs p (int o') sts
      = unmarshal_loop (Suc k') fs p (int ?o) (save_placed fs sts (x, o' + ?t))"
    by (simp only: k unmarshal_loop.simps(2) [of "Suc k'"] more tagread off skip Let_def save_placed_def x
        simp_thms if_False sum.case prod.case option.case fst_conv snd_conv)
  also have "\<dots> = Some (foldl (save_placed fs) (save_placed fs sts (x, o' + ?t)) (place ?o its), None)"
  proof (rule Cons.IH)
    show "valid_tag (fst y) \<and> item_ok (snd y)" if "y \<in> set its" for y
      using that Cons.prems(1) by simp
    show "?o + length (tagged_bytes its) = sl_len (buf p)" using Cons.prems(3) x by simp
    show "length (tagged_bytes its) < Suc k'" using Cons.prems(4) len by (simp add: k x)
  qed (rule at(3))
  finally show ?case by (simp add: x)
qed

text \<open>Each field sees its own items only, in order.\<close>

definition save_own :: "fieldType \<Rightarrow> fstate \<Rightarrow> tagged \<times> nat \<Rightarrow> fstate" where
  "save_own ft st x = EntryUnmarshalSaveOffsets ft (fst (snd (fst x))) (int (snd x)) st"

lemma length_save_field [simp]: "length (save_field fs tag wt i sts) = length sts"
  by (induction fs tag wt i sts rule: save_field.induct) simp_all

lemma length_save_placed [simp]: "length (foldl (save_placed fs) sts xs) = length sts"
  by (induction xs arbitrary: sts) (simp_all add: save_placed_def)

lemma nth_save_field:
  "distinct (map fst fs) \<Longrightarrow> length sts = length fs \<Longrightarrow> i < length fs \<Longrightarrow>
   save_field fs tag wt j sts ! i =
     (if tag = fst (fs ! i) then EntryUnmarshalSaveOffsets (snd (fs ! i)) wt j (sts ! i) else sts ! i)"
proof (induction fs tag wt j sts arbitrary: i rule: save_field.induct)
  case (1 t ft fs tag wire offset st sts)
  have "t \<noteq> fst (fs ! i')" if "i' < length fs" for i'
    using that "1.prems"(1) by (metis distinct.simps(2) fst_conv image_eqI list.set_map list.simps(9) nth_mem)
  with 1 show ?case by (cases i) auto
qed simp_all

lemma nth_save_placed:
  assumes "distinct (map fst fs)" and "length sts = length fs" and "i < length fs"
  shows "foldl (save_placed fs) sts xs ! i =
    foldl (save_own (snd (fs ! i))) (sts ! i) (filter (\<lambda>x. fst (fst x) = fst (fs ! i)) xs)"
  using assms(2)
proof (induction xs arbitrary: sts)
  case (Cons x xs)
  have "save_placed fs sts x ! i = (if fst (fst x) = fst (fs ! i) then save_own (snd (fs ! i)) (sts ! i) x else sts ! i)"
    using nth_save_field [OF assms(1) Cons.prems assms(3)] by (simp add: save_placed_def save_own_def)
  moreover have "length (save_placed fs sts x) = length fs" using Cons.prems by (simp add: save_placed_def)
  ultimately show ?case using Cons.IH [of "save_placed fs sts x"] by simp
qed simp

text \<open>The items of a message, and where those of one field are.\<close>

definition group_items :: "(nat \<Rightarrow> gval \<Rightarrow> byte list) \<Rightarrow> (ProtoWireNumber \<times> fieldType) \<times> gval \<Rightarrow> tagged list" where
  "group_items e x = map (Pair (fst (fst x))) (field_items e (snd (fst x)) (snd x))"

lemma tagged_group: "tagged_bytes (group_items e x) = field_bytes e (snd (fst x)) (fst (fst x)) (snd x)"
  by (simp add: tagged_bytes_def group_items_def field_bytes_def comp_def)

lemma tagged_groups:
  "tagged_bytes (concat (map (group_items e) L))
     = concat (map (\<lambda>x. field_bytes e (snd (fst x)) (fst (fst x)) (snd x)) L)"
  by (induction L) (simp_all add: tagged_group)

lemma place_tags: "y \<in> set (place o' xs) \<Longrightarrow> fst y \<in> set xs"
  by (induction xs arbitrary: o') auto

lemma place_filter_none:
  "tag \<notin> (fst \<circ> fst) ` set L \<Longrightarrow>
   filter (\<lambda>y. fst (fst y) = tag) (place o' (concat (map (group_items e) L))) = []"
  by (force simp: filter_empty_conv group_items_def dest!: place_tags)

lemma place_filter_all:
  "(\<And>y. y \<in> set xs \<Longrightarrow> fst y = tag) \<Longrightarrow> filter (\<lambda>y. fst (fst y) = tag) (place o' xs) = place o' xs"
  by (metis (mono_tags, lifting) filter_True place_tags)

lemma place_filter_group:
  assumes "distinct (map (fst \<circ> fst) L)" and "x \<in> set L"
    and "at_off p o' (tagged_bytes (concat (map (group_items e) L)))"
  shows "\<exists>o1 \<ge> o'. at_off p o1 (tagged_bytes (group_items e x))
    \<and> filter (\<lambda>y. fst (fst y) = fst (fst x)) (place o' (concat (map (group_items e) L)))
      = place o1 (group_items e x)"
  using assms
proof (induction L arbitrary: o')
  case (Cons z L)
  let ?o = "o' + length (tagged_bytes (group_items e z))"
  have at: "at_off p o' (tagged_bytes (group_items e z))"
    "at_off p ?o (tagged_bytes (concat (map (group_items e) L)))"
    using Cons.prems(3) by (simp_all add: at_off_append)
  show ?case
  proof (cases "x = z")
    case True
    then have "fst (fst x) \<notin> (fst \<circ> fst) ` set L" using Cons.prems(1) by auto
    moreover have "filter (\<lambda>y. fst (fst y) = fst (fst x)) (place o' (group_items e x)) = place o' (group_items e x)"
      by (rule place_filter_all) (auto simp: group_items_def)
    ultimately show ?thesis
      using True at(1) by (intro exI [of _ o']) (simp add: place_append place_filter_none)
  next
    case False
    with Cons.prems(2) have x: "x \<in> set L" by simp
    with Cons.prems(1) have "fst (fst x) \<noteq> fst (fst z)" by (auto simp: rev_image_eqI)
    then have "filter (\<lambda>y. fst (fst y) = fst (fst x)) (place o' (group_items e z)) = []"
      by (auto simp: filter_empty_conv group_items_def dest!: place_tags)
    moreover obtain o1 where "?o \<le> o1" "at_off p o1 (tagged_bytes (group_items e x))"
      "filter (\<lambda>y. fst (fst y) = fst (fst x)) (place ?o (concat (map (group_items e) L))) = place o1 (group_items e x)"
      using Cons.IH [OF _ x at(2)] Cons.prems(1) by auto
    ultimately show ?thesis by (intro exI [of _ o1]) (simp add: place_append)
  qed
qed simp

subsection \<open>Getters\<close>

abbreviation fresh_field :: fstate where
  "fresh_field \<equiv> FState 0 [] [] None"

lemma save_own_repeated:
  "foldl (save_own (Repeated s r)) (FState i is ws d) xs = FState i (is @ map (\<lambda>x. int (snd x)) xs) ws d"
  by (induction xs arbitrary: "is") (simp_all add: save_own_def)

lemma save_own_packed:
  "foldl (save_own (RepeatedPacked s r)) (FState i is ws d) xs
    = FState i (is @ map (\<lambda>x. int (snd x)) xs) (ws @ map (\<lambda>x. fst (snd (fst x))) xs) d"
  by (induction xs arbitrary: "is" ws) (simp_all add: save_own_def)

lemma save_own_map:
  "foldl (save_own (MapOf k s)) (FState i is ws d) xs = FState i (is @ map (\<lambda>x. int (snd x)) xs) ws d"
  by (induction xs arbitrary: "is") (simp_all add: save_own_def)

fun field_represents :: "(nat \<Rightarrow> gval \<Rightarrow> msgReader \<Rightarrow> bool) \<Rightarrow> (nat \<Rightarrow> gval \<Rightarrow> byte list) \<Rightarrow> fieldType \<Rightarrow> gval \<Rightarrow> rval \<Rightarrow> bool" where
  "field_represents R e (Single s) v rv = represents R e s v rv"
| "field_represents R e (Repeated s r) v rv =
     (\<exists>rs. rv = RList rs \<and> list_all2 (represents R e s) (elements v) rs)"
| "field_represents R e (RepeatedPacked s r) v rv =
     (\<exists>rs. rv = RList rs \<and> list_all2 (represents R e s) (elements v) rs)"
| "field_represents R e (MapOf k s) v rv =
     (\<exists>rs. rv = RMap rs \<and> list_all2 (\<lambda>kv rkv. fst rkv = RVal (fst kv) \<and> represents R e s (snd kv) (snd rkv)) (entries v) rs)"

lemma tag_bytes_pos: "0 < length (tag_bytes tag wt)"
  using length_varint_bytes_pos by (simp only: tag_bytes_def)

lemma item_at:
  assumes "at_off p o' (item_bytes tag it)"
  shows "at_off p (o' + length (tag_bytes tag (fst it))) (snd it)"
  using assms by (simp add: item_bytes_def at_off_append)

text \<open>A list written element by element.\<close>

lemma repeated_read:
  assumes "at_off p o' (tagged_bytes (map (\<lambda>x. (tag, single_item e s x)) xs))"
    and "\<And>x. x \<in> set xs \<Longrightarrow> single_typed ht s x \<and> nested_ok R e fuel M s x"
  shows "\<exists>rs. foldO (\<lambda>wOffset. append_entry (single_reader fuel M s p wOffset))
      (map (\<lambda>x. int (snd x)) (place o' (map (\<lambda>x. (tag, single_item e s x)) xs))) acc = Some (Inr (acc @ rs))
    \<and> list_all2 (represents R e s) xs rs"
  using assms
proof (induction xs arbitrary: o' acc)
  case (Cons x xs)
  let ?o1 = "o' + length (tag_bytes tag (single_wt s))"
  have at: "at_off p o' (item_bytes tag (single_item e s x))"
    "at_off p (o' + length (item_bytes tag (single_item e s x))) (tagged_bytes (map (\<lambda>x. (tag, single_item e s x)) xs))"
    using Cons.prems(1) by (simp_all add: at_off_append)
  have at1: "at_off p ?o1 (single_payload e s x)"
    using item_at [OF at(1)] by (simp add: single_item_def)
  obtain rv where rv: "single_reader fuel M s p (int ?o1) = Some (Inr rv)" "represents R e s x rv"
    using single_read_at [OF _ at1] Cons.prems(2) [of x] tag_bytes_pos [of tag "single_wt s"] by fastforce
  obtain rs where "foldO (\<lambda>wOffset. append_entry (single_reader fuel M s p wOffset))
      (map (\<lambda>x. int (snd x)) (place (o' + length (item_bytes tag (single_item e s x))) (map (\<lambda>x. (tag, single_item e s x)) xs)))
        (acc @ [rv]) = Some (Inr ((acc @ [rv]) @ rs))"
    "list_all2 (represents R e s) xs rs"
    using Cons.IH [OF at(2)] Cons.prems(2) by (metis list.set_intros(2))
  with rv have "foldO (\<lambda>wOffset. append_entry (single_reader fuel M s p wOffset))
      (map (\<lambda>x. int (snd x)) (place o' (map (\<lambda>x. (tag, single_item e s x)) (x # xs)))) acc = Some (Inr (acc @ rv # rs))
    \<and> list_all2 (represents R e s) (x # xs) (rv # rs)"
    by (simp add: single_item_def append_entry_def del: of_nat_add)
  then show ?case by blast
qed simp

text \<open>A packed list: the loop runs once per element.\<close>

lemma packed_loop_read:
  assumes "at_off p (w + ss + off) (concat (map (single_payload e s) xs))" and "0 < w"
    and "int_of_uint64 sz = int (off + length (concat (map (single_payload e s) xs)))"
    and "length xs < k" and "CanBePacked s"
    and "\<And>x. x \<in> set xs \<Longrightarrow> single_typed ht s x \<and> nested_ok R e fuel M s x"
  shows "\<exists>rs. packed_loop k fuel M s p (int w) (int ss) sz (int off) acc = Some (Inr (acc @ rs))
    \<and> list_all2 (represents R e s) xs rs"
  using assms
proof (induction xs arbitrary: off k acc)
  case Nil
  then obtain k' where "k = Suc k'" by (cases k) auto
  with Nil show ?case by simp
next
  case (Cons x xs)
  from Cons.prems(4) obtain k' where k: "k = Suc k'" by (cases k) auto
  have at: "at_off p (w + ss + off) (single_payload e s x)"
    "at_off p (w + ss + (off + length (single_payload e s x))) (concat (map (single_payload e s) xs))"
    using Cons.prems(1) by (simp_all add: at_off_append add.assoc)
  have pos: "0 < length (single_payload e s x)"
    using Cons.prems(5) basic_payload_length [of _ x] by (cases s) (auto simp del: basic_payload.simps)
  have small: "w + ss + off + length (single_payload e s x) < 2 ^ 62" using at_off_small [OF at(1)] .
  then have offs: "iadd (iadd (int w) (int ss)) (int off) = int (w + ss + off)"
    "iadd (int off) (int (length (single_payload e s x))) = int (off + length (single_payload e s x))"
    by (simp_all add: iadd_nat del: of_nat_add)
  obtain rv where rv: "single_sized_reader fuel M s p (int (w + ss + off))
      = Some (Inr (rv, int (length (single_payload e s x))))" "represents R e s x rv"
    using single_read_at [OF _ at(1)] Cons.prems(2) Cons.prems(6) [of x] by fastforce
  have "int_of_uint64 sz = int (off + length (single_payload e s x) + length (concat (map (single_payload e s) xs)))"
    using Cons.prems(3) by simp
  then obtain rs where "packed_loop k' fuel M s p (int w) (int ss) sz (int (off + length (single_payload e s x)))
      (acc @ [rv]) = Some (Inr ((acc @ [rv]) @ rs))" "list_all2 (represents R e s) xs rs"
    using Cons.IH [OF at(2) Cons.prems(2), of k' "acc @ [rv]"] Cons.prems(4-6) k by force
  moreover have "int off < int_of_uint64 sz" using Cons.prems(3) pos by (simp del: length_greater_0_conv)
  ultimately have "packed_loop k fuel M s p (int w) (int ss) sz (int off) acc = Some (Inr (acc @ rv # rs))
      \<and> list_all2 (represents R e s) (x # xs) (rv # rs)"
    using rv by (simp add: k offs del: of_nat_add)
  then show ?case by blast
qed

text \<open>A map entry: key, then value.\<close>

lemma map_entry_read:
  assumes at: "at_off p o' (enc_delimited (map_entry_bytes e kt vt kv))" and "0 < o'"
    and key: "single_typed ht kt (fst kv)" and kt: "kt = BasicT b d r"
    and val: "single_typed ht vt (snd kv)" "nested_ok R e fuel M vt (snd kv)"
    and fuel: "2 < fuel"
  shows "\<exists>rv. map_entry fuel M kt vt p (int o') acc = Some (Inr (AList.update (RVal (fst kv)) rv acc))
    \<and> represents R e vt (snd kv) rv"
proof -
  let ?d = "map_entry_bytes e kt vt kv"
  let ?o1 = "o' + length (len_bytes (length ?d))" and ?stop = "o' + length (enc_delimited ?d)"
  let ?t1 = "length (tag_bytes 1 (single_wt kt))" and ?t2 = "length (tag_bytes 2 (single_wt vt))"
  let ?k = "single_payload e kt (fst kv)" and ?v = "single_payload e vt (snd kv)"
  obtain f where f: "fuel = Suc (Suc (Suc f))"
    using fuel by (metis add_2_eq_Suc less_imp_Suc_add add_Suc_right)
  let ?o2 = "?o1 + ?t1 + length ?k"
  have at1: "at_off p ?o1 (tag_bytes 1 (single_wt kt))" "at_off p (?o1 + ?t1) ?k"
    "at_off p ?o2 (tag_bytes 2 (single_wt vt))" "at_off p (?o2 + ?t2) ?v"
    using at by (simp_all add: enc_delimited_def map_entry_bytes_def item_bytes_def single_item_def
        at_off_append add.assoc)
  have stop: "?stop = ?o2 + ?t2 + length ?v"
    by (simp add: enc_delimited_def map_entry_bytes_def item_bytes_def single_item_def)
  have tags: "tag_or_zero p (int ?o1) = Inr (1, single_wt kt, int ?t1)"
    "tag_or_zero p (int ?o2) = Inr (2, single_wt vt, int ?t2)"
    using ReadTagAt_at [OF valid_tag_12(1) single_wt_small at1(1)]
      ReadTagAt_at [OF valid_tag_12(2) single_wt_small at1(3)]
    by (simp_all add: tag_or_zero_def del: of_nat_add)
  have offs: "iadd (int ?o1) (int ?t1) = int (?o1 + ?t1)" "iadd (int (?o1 + ?t1)) (int (length ?k)) = int ?o2"
    "iadd (int ?o2) (int ?t2) = int (?o2 + ?t2)" "iadd (int (?o2 + ?t2)) (int (length ?v)) = int ?stop"
    using at_off_iadd [OF at1(1)] at_off_iadd [OF at1(2)] at_off_iadd [OF at1(3)] at_off_iadd [OF at1(4)]
    by (simp_all only: stop order_refl)
  have "nested_ok R e fuel M kt (fst kv)" by (simp add: nested_ok_def kt)
  from single_read_at [OF _ at1(2) key this]
  have rk: "single_sized_reader fuel M kt p (int (?o1 + ?t1)) = Some (Inr (RVal (fst kv), int (length ?k)))"
    using \<open>0 < o'\<close> by (auto simp: kt)
  from single_read_at [OF _ at1(4) val] obtain rv where
    rv: "single_sized_reader fuel M vt p (int (?o2 + ?t2)) = Some (Inr (rv, int (length ?v)))"
      "represents R e vt (snd kv) rv"
    using \<open>0 < o'\<close> by auto
  have less: "int ?o1 < int ?stop" "int ?o2 < int ?stop" "\<not> int ?stop < int ?stop"
    using tag_bytes_pos [of 1 "single_wt kt"] tag_bytes_pos [of 2 "single_wt vt"] by (simp_all add: stop del: length_greater_0_conv)
  have two: "((2::ProtoWireNumber) = 1) = False" by simp
  have "map_entry_loop fuel fuel M kt vt p (int ?o1) (int ?stop) a b = Some (Inr (RVal (fst kv), rv))" for a b
  proof -
    have "map_entry_loop (Suc (Suc (Suc f))) fuel M kt vt p (int ?o1) (int ?stop) a b
        = map_entry_loop (Suc (Suc f)) fuel M kt vt p (int ?o2) (int ?stop) (RVal (fst kv)) b"
      by (subst map_entry_loop.simps(2)) (simp only: less tags offs rk bindO_simps prod.case Let_def if_True simp_thms)
    also have "\<dots> = map_entry_loop (Suc f) fuel M kt vt p (int ?stop) (int ?stop) (RVal (fst kv)) rv"
      by (subst map_entry_loop.simps(2))
        (simp only: less tags offs rv two bindO_simps prod.case Let_def if_True if_False simp_thms)
    also have "\<dots> = Some (Inr (RVal (fst kv), rv))" by (simp add: less)
    finally show ?thesis by (simp only: f)
  qed
  with rv(2) show ?thesis
    by (intro exI [of _ rv]) (simp add: map_entry_def SizedReadVarInt_def delimited_length_read [OF at] delimited_offsets [OF at]
        Let_def del: of_nat_add)
qed

lemma update_new: "k \<notin> fst ` set al \<Longrightarrow> AList.update k v al = al @ [(k, v)]"
  by (induction al) auto

lemma map_read:
  assumes "at_off p o' (tagged_bytes (map (\<lambda>kv. (tag, BytesType, enc_delimited (map_entry_bytes e kt vt kv))) kvs))"
    and "distinct (map fst kvs)" and "(\<lambda>kv. RVal (fst kv)) ` set kvs \<inter> fst ` set acc = {}"
    and "\<And>kv. kv \<in> set kvs \<Longrightarrow> single_typed ht kt (fst kv) \<and> single_typed ht vt (snd kv)
      \<and> nested_ok R e fuel M vt (snd kv)"
    and "kt = BasicT b d r" and "2 < fuel"
  shows "\<exists>rs. foldO (map_entry fuel M kt vt p) (map (\<lambda>x. int (snd x)) (place o'
      (map (\<lambda>kv. (tag, BytesType, enc_delimited (map_entry_bytes e kt vt kv))) kvs))) acc = Some (Inr (acc @ rs))
    \<and> list_all2 (\<lambda>kv rkv. fst rkv = RVal (fst kv) \<and> represents R e vt (snd kv) (snd rkv)) kvs rs"
  using assms(1-4)
proof (induction kvs arbitrary: o' acc)
  case (Cons kv kvs)
  let ?it = "(BytesType, enc_delimited (map_entry_bytes e kt vt kv))"
  let ?its = "map (\<lambda>kv. (tag, BytesType, enc_delimited (map_entry_bytes e kt vt kv))) kvs"
  let ?o1 = "o' + length (tag_bytes tag BytesType)" and ?o2 = "o' + length (item_bytes tag ?it)"
  have at: "at_off p o' (item_bytes tag ?it)" "at_off p ?o2 (tagged_bytes ?its)"
    using Cons.prems(1) by (simp_all add: at_off_append)
  have at1: "at_off p ?o1 (enc_delimited (map_entry_bytes e kt vt kv))"
    using item_at [OF at(1)] by simp
  obtain rv where rv: "map_entry fuel M kt vt p (int ?o1) acc = Some (Inr (AList.update (RVal (fst kv)) rv acc))"
      "represents R e vt (snd kv) rv"
    using map_entry_read [OF at1 _ _ assms(5) _ _ assms(6)] Cons.prems(4) [of kv] tag_bytes_pos [of tag BytesType]
    by (metis add_gr_0 list.set_intros(1))
  have new: "AList.update (RVal (fst kv)) rv acc = acc @ [(RVal (fst kv), rv)]"
    using Cons.prems(3) by (intro update_new) auto
  have "(\<lambda>kv. RVal (fst kv)) ` set kvs \<inter> fst ` set (acc @ [(RVal (fst kv), rv)]) = {}"
    using Cons.prems(2,3) by (auto simp: rev_image_eqI)
  from Cons.IH [OF at(2) _ this] obtain rs where
    "foldO (map_entry fuel M kt vt p) (map (\<lambda>x. int (snd x)) (place ?o2 ?its)) (acc @ [(RVal (fst kv), rv)])
      = Some (Inr ((acc @ [(RVal (fst kv), rv)]) @ rs))"
    "list_all2 (\<lambda>kv rkv. fst rkv = RVal (fst kv) \<and> represents R e vt (snd kv) (snd rkv)) kvs rs"
    using Cons.prems(2,4) by auto
  with rv new have "foldO (map_entry fuel M kt vt p) (map (\<lambda>x. int (snd x)) (place o'
      (map (\<lambda>kv. (tag, BytesType, enc_delimited (map_entry_bytes e kt vt kv))) (kv # kvs)))) acc
        = Some (Inr (acc @ (RVal (fst kv), rv) # rs))
    \<and> list_all2 (\<lambda>kv rkv. fst rkv = RVal (fst kv) \<and> represents R e vt (snd kv) (snd rkv)) (kv # kvs) ((RVal (fst kv), rv) # rs)"
    by (simp del: of_nat_add)
  then show ?case by blast
qed simp

lemma packable_wt: "CanBePacked s \<Longrightarrow> single_wt s \<noteq> BytesType"
  by (cases s) (auto simp: wire_type_defs elim!: basic_can_be_packed.elims)

lemma concat_pos_length:
  "(\<And>x. x \<in> set xs \<Longrightarrow> 0 < length (f x)) \<Longrightarrow> length xs \<le> length (concat (map f xs))"
proof (induction xs)
  case (Cons x xs)
  then have "length xs \<le> length (concat (map f xs))" and "0 < length (f x)" by simp_all
  then show ?case by (simp del: length_greater_0_conv)
qed simp

text \<open>The values inside a field's value, each with its type.\<close>

fun typed_parts :: "fieldType \<Rightarrow> gval \<Rightarrow> (single \<times> gval) list" where
  "typed_parts (Single s) v = [(s, v)]"
| "typed_parts (Repeated s r) v = map (Pair s) (elements v)"
| "typed_parts (RepeatedPacked s r) v = map (Pair s) (elements v)"
| "typed_parts (MapOf k s) v = map (\<lambda>kv. (k, fst kv)) (entries v) @ map (\<lambda>kv. (s, snd kv)) (entries v)"

lemma typed_parts_part: "(s, x) \<in> set (typed_parts ft v) \<Longrightarrow> x \<in> set (parts ft v)"
  by (cases ft) auto

lemma typed_parts_typed: "field_typed ht ft v \<Longrightarrow> (s, x) \<in> set (typed_parts ft v) \<Longrightarrow> single_typed ht s x"
  by (cases ft) auto

lemma length_le_concat: "x \<in> set xs \<Longrightarrow> length (f x) \<le> length (concat (map f xs))"
  by (induction xs) auto

lemma typed_parts_length:
  assumes "(s, x) \<in> set (typed_parts ft v)"
  shows "length (single_payload e s x) < length (field_bytes e ft tag v)"
proof -
  have item: "length (single_payload e s y) < length (item_bytes t (single_item e s y))" for s y t
    using tag_bytes_pos [of t "single_wt s"] by (simp add: item_bytes_def single_item_def del: length_greater_0_conv)
  show ?thesis
  proof (cases ft)
    case (Single s')
    with assms item show ?thesis by (simp add: field_bytes_def)
  next
    case (Repeated s' r)
    with assms item [of s x tag] length_le_concat [of x "elements v" "\<lambda>x. item_bytes tag (single_item e s x)"]
    show ?thesis by (force simp: field_bytes_def comp_def)
  next
    case (RepeatedPacked s' r)
    then have x: "x \<in> set (elements v)" "s = s'" using assms by auto
    show ?thesis
    proof (cases "length (elements v) > 1")
      case True
      have "length (single_payload e s x) \<le> length (concat (map (single_payload e s) (elements v)))"
        by (rule length_le_concat [OF x(1)])
      also have "\<dots> < length (field_bytes e ft tag v)"
        using True tag_bytes_pos [of tag BytesType]
        by (simp add: RepeatedPacked x(2) field_bytes_def item_bytes_def enc_delimited_def del: length_greater_0_conv)
      finally show ?thesis .
    next
      case False
      then have "field_bytes e ft tag v = concat (map (\<lambda>x. item_bytes tag (single_item e s x)) (elements v))"
        by (simp add: RepeatedPacked x(2) field_bytes_def comp_def)
      then show ?thesis
        using item [of s x tag] length_le_concat [OF x(1), of "\<lambda>x. item_bytes tag (single_item e s x)"] by simp
    qed
  next
    case (MapOf k s')
    then obtain kv where kv: "kv \<in> set (entries v)" "(s, x) = (k, fst kv) \<or> (s, x) = (s', snd kv)"
      using assms by auto
    have "length (single_payload e s x) < length (map_entry_bytes e k s' kv)"
      using kv(2) item [of s x 1] item [of s x 2] by (auto simp: map_entry_bytes_def)
    also have "\<dots> \<le> length (item_bytes tag (BytesType, enc_delimited (map_entry_bytes e k s' kv)))"
      by (simp add: item_bytes_def enc_delimited_def)
    also have "\<dots> \<le> length (field_bytes e ft tag v)"
      using length_le_concat [OF kv(1), of "\<lambda>kv. item_bytes tag (BytesType, enc_delimited (map_entry_bytes e k s' kv))"]
      by (simp add: MapOf field_bytes_def comp_def)
    finally show ?thesis .
  qed
qed

lemma group_items_simp: "group_items e ((tag, ft), v) = map (Pair tag) (field_items e ft v)"
  by (simp add: group_items_def)

lemma bindO_wrap:
  "\<exists>rs. m = Some (Inr rs) \<and> P rs \<Longrightarrow>
   \<exists>rv. bindO m (\<lambda>xs. Some (Inr (F xs))) = Some (Inr rv) \<and> (\<exists>rs. rv = F rs \<and> P rs)"
  by auto

lemma field_read:
  assumes at: "at_off p o' (field_bytes e ft tag v)" and "type_ok ft" and "field_typed ht ft v"
    and nested: "\<And>s x. (s, x) \<in> set (typed_parts ft v) \<Longrightarrow> nested_ok R e fuel M s x"
    and fuel: "length (field_bytes e ft tag v) < fuel"
  shows "\<exists>rv. EntryReader fuel M ft p (foldl (save_own ft) fresh_field (place o' (group_items e ((tag, ft), v))))
      = Some (Inr rv) \<and> field_represents R e ft v rv"
proof -
  have at': "at_off p o' (tagged_bytes (group_items e ((tag, ft), v)))"
    using at by (simp add: tagged_group)
  show ?thesis
  proof (cases ft)
    case (Single s)
    let ?o1 = "o' + length (tag_bytes tag (single_wt s))"
    have at1: "at_off p ?o1 (single_payload e s v)"
      using at item_at [of p o' tag "single_item e s v"] by (simp add: Single field_bytes_def single_item_def)
    have "0 < ?o1" using tag_bytes_pos [of tag "single_wt s"] by linarith
    moreover have "single_typed ht s v" "nested_ok R e fuel M s v"
      using assms(3) nested [of s v] Single by simp_all
    ultimately obtain rv where
      "single_reader fuel M s p (int ?o1) = Some (Inr rv)" "represents R e s v rv"
      using single_read_at [OF _ at1] by blast
    with Single show ?thesis by (simp add: group_items_simp save_own_def single_item_def del: of_nat_add)
  next
    case (Repeated s r)
    have its: "group_items e ((tag, ft), v) = map (\<lambda>x. (tag, single_item e s x)) (elements v)"
      by (simp add: Repeated group_items_simp)
    have "\<exists>rs. foldO (\<lambda>wOffset. append_entry (single_reader fuel M s p wOffset))
        (map (\<lambda>x. int (snd x)) (place o' (group_items e ((tag, ft), v)))) [] = Some (Inr ([] @ rs))
      \<and> list_all2 (represents R e s) (elements v) rs"
      unfolding its
      by (rule repeated_read [OF at' [unfolded its]]) (use assms(3) nested Repeated in auto)
    then show ?thesis
      unfolding Repeated save_own_repeated EntryReader.simps field_represents.simps fstate.sel append_Nil
      by (rule bindO_wrap)
  next
    case (RepeatedPacked s r)
    then have pk: "CanBePacked s" using assms(2) by simp
    have nest: "single_typed ht s x \<and> nested_ok R e fuel M s x" if "x \<in> set (elements v)" for x
      using that assms(3) nested RepeatedPacked by auto
    show ?thesis
    proof (cases "length (elements v) > 1")
      case True
      let ?d = "concat (map (single_payload e s) (elements v))"
      let ?o1 = "o' + length (tag_bytes tag BytesType)"
      have its: "field_items e ft v = [(BytesType, enc_delimited ?d)]" using True RepeatedPacked by simp
      have at1: "at_off p ?o1 (enc_delimited ?d)"
        using at item_at [of p o' tag "(BytesType, enc_delimited ?d)"] by (simp add: field_bytes_def its)
      have at2: "at_off p (?o1 + length (len_bytes (length ?d)) + 0) ?d"
        using at1 by (simp add: enc_delimited_def at_off_append)
      have pos: "0 < length (single_payload e s x)" for x
        using pk basic_payload_length [of _ x] by (cases s) (auto simp del: basic_payload.simps)
      have "length ?d < fuel" using fuel by (simp add: field_bytes_def its item_bytes_def enc_delimited_def)
      then have k: "length (elements v) < fuel"
        using concat_pos_length [of "elements v" "single_payload e s", OF pos] by linarith
      have "\<exists>rs. packed_loop fuel fuel M s p (int ?o1) (int (length (len_bytes (length ?d)))) (of_nat (length ?d)) (int 0) []
          = Some (Inr ([] @ rs)) \<and> list_all2 (represents R e s) (elements v) rs"
        by (rule packed_loop_read [OF at2, where ht = ht]) (use tag_bytes_pos [of tag BytesType] delimited_length_read(2) [OF at1] k pk nest in simp_all)
      then obtain rs where rs: "packed_loop fuel fuel M s p (int ?o1) (int (length (len_bytes (length ?d))))
          (of_nat (length ?d)) 0 [] = Some (Inr rs)" "list_all2 (represents R e s) (elements v) rs" by auto
      have "packed_entry fuel M s p (int ?o1, BytesType) [] = Some (Inr rs)"
        using rs(1) delimited_length_read(1) [OF at1]
        by (simp add: packed_entry_def SizedReadVarInt_def del: of_nat_add)
      with rs(2) show ?thesis
        unfolding group_items_simp its by (simp add: RepeatedPacked save_own_def del: of_nat_add)
    next
      case False
      then have its: "group_items e ((tag, ft), v) = map (\<lambda>x. (tag, single_item e s x)) (elements v)"
        by (simp add: RepeatedPacked group_items_simp)
      have entry: "packed_entry fuel M s p (i, single_wt s) = append_entry (single_reader fuel M s p i)" for i
        using packable_wt [OF pk] by (auto simp: packed_entry_def)
      have zip: "zip (map (\<lambda>x. int (snd x)) xs) (map (\<lambda>x. fst (snd (fst x))) xs)
          = map (\<lambda>x. (int (snd x), single_wt s)) xs"
        if "\<And>y. y \<in> set xs \<Longrightarrow> fst (snd (fst y)) = single_wt s" for xs :: "(tagged \<times> nat) list"
        using that by (induction xs) auto
      have fold: "foldO (packed_entry fuel M s p) (map (\<lambda>x. (int (snd x), single_wt s)) xs) acc
          = foldO (\<lambda>wOffset. append_entry (single_reader fuel M s p wOffset)) (map (\<lambda>x. int (snd x)) xs) acc"
        for xs :: "(tagged \<times> nat) list" and acc
        by (induction xs arbitrary: acc) (simp_all add: entry bindO_def split: option.splits sum.splits)
      have read: "\<exists>rs. foldO (\<lambda>wOffset. append_entry (single_reader fuel M s p wOffset))
          (map (\<lambda>x. int (snd x)) (place o' (group_items e ((tag, ft), v)))) [] = Some (Inr ([] @ rs))
        \<and> list_all2 (represents R e s) (elements v) rs"
        unfolding its by (rule repeated_read [OF at' [unfolded its]]) (use nest in auto)
      have z: "zip (map (\<lambda>x. int (snd x)) (place o' (group_items e ((tag, ft), v))))
            (map (\<lambda>x. fst (snd (fst x))) (place o' (group_items e ((tag, ft), v))))
          = map (\<lambda>x. (int (snd x), single_wt s)) (place o' (group_items e ((tag, ft), v)))"
        by (rule zip) (auto simp: its single_item_def dest!: place_tags)
      show ?thesis
        unfolding RepeatedPacked save_own_packed EntryReader.simps field_represents.simps fstate.sel append_Nil
          z [unfolded RepeatedPacked] fold
        by (rule bindO_wrap [OF read [unfolded RepeatedPacked append_Nil]])
    qed
  next
    case (MapOf kt vt)
    then obtain b d r where kt: "kt = BasicT b d r" using assms(2) by (cases kt) auto
    have its: "group_items e ((tag, ft), v)
        = map (\<lambda>kv. (tag, BytesType, enc_delimited (map_entry_bytes e kt vt kv))) (entries v)"
      by (simp add: MapOf group_items_simp)
    show ?thesis
    proof (cases "entries v")
      case Nil
      then show ?thesis by (simp add: MapOf its [unfolded MapOf])
    next
      case (Cons kv kvs)
      have "4 \<le> length (field_bytes e ft tag v)"
        using Cons item_bytes_length [OF single_item_ok, of 1 e kt "fst kv"]
          item_bytes_length [OF single_item_ok, of 2 e vt "snd kv"]
        by (simp add: MapOf field_bytes_def item_bytes_def [of tag] enc_delimited_def map_entry_bytes_def)
      then have "2 < fuel" using fuel by linarith
      have "\<exists>rs. foldO (map_entry fuel M kt vt p) (map (\<lambda>x. int (snd x)) (place o' (group_items e ((tag, ft), v)))) []
          = Some (Inr ([] @ rs))
        \<and> list_all2 (\<lambda>kv rkv. fst rkv = RVal (fst kv) \<and> represents R e vt (snd kv) (snd rkv)) (entries v) rs"
        unfolding its
        by (rule map_read [OF at' [unfolded its] _ _ _ kt \<open>2 < fuel\<close>]) (use assms(3) nested MapOf in auto)
      then show ?thesis
        unfolding MapOf save_own_map EntryReader.simps field_represents.simps fstate.sel append_Nil
        by (rule bindO_wrap)
    qed
  qed
qed

subsection \<open>The message that comes back\<close>

fun single_back :: "(nat \<Rightarrow> gval \<Rightarrow> byte list) \<Rightarrow> (nat \<Rightarrow> gval \<Rightarrow> gval) \<Rightarrow> single \<Rightarrow> gval \<Rightarrow> gval" where
  "single_back e nm (StructT n r) v = (if e n v = [] then VNil else nm n v)"
| "single_back e nm s v = v"

fun field_back :: "(nat \<Rightarrow> gval \<Rightarrow> byte list) \<Rightarrow> (nat \<Rightarrow> gval \<Rightarrow> gval) \<Rightarrow> fieldType \<Rightarrow> gval \<Rightarrow> gval" where
  "field_back e nm (Single s) v = single_back e nm s v"
| "field_back e nm (Repeated s r) v = VList (map (single_back e nm s) (elements v))"
| "field_back e nm (RepeatedPacked s r) v = VList (map (single_back e nm s) (elements v))"
| "field_back e nm (MapOf k s) v =
     VMap (map (\<lambda>kv. (fst kv, single_back e nm s (snd kv)))
       (filter (\<lambda>kv. case s of StructT n r \<Rightarrow> e n (snd kv) \<noteq> [] | _ \<Rightarrow> True) (entries v)))"

fun field_absent :: "fieldType \<Rightarrow> gval" where
  "field_absent (Single s) = single_default s"
| "field_absent (Repeated s r) = VList []"
| "field_absent (RepeatedPacked s r) = VList []"
| "field_absent (MapOf k s) = VMap []"

definition field_norm :: "(nat \<Rightarrow> gval \<Rightarrow> byte list) \<Rightarrow> (nat \<Rightarrow> gval \<Rightarrow> gval) \<Rightarrow> fieldType \<Rightarrow> gval \<Rightarrow> gval" where
  "field_norm e nm ft v = (if EntryIsNotEmpty ft v then field_back e nm ft v else field_absent ft)"

lemma field_norm_cong [fundef_cong]:
  assumes "e = e'" "ft = ft'" "v = v'" "\<And>n x. x \<in> set (parts ft' v') \<Longrightarrow> nm n x = nm' n x"
  shows "field_norm e nm ft v = field_norm e' nm' ft' v'"
proof -
  have "single_back e nm s x = single_back e nm' s x" if "x \<in> set (parts ft' v')" for s x
    using that assms(4) by (cases s) simp_all
  with assms(1-3) show ?thesis by (cases ft') (auto simp: field_norm_def)
qed

function message_norm :: "schema \<Rightarrow> nat \<Rightarrow> gval \<Rightarrow> gval" where
  "message_norm M n v =
     VMsg (map (\<lambda>x. field_norm (message_bytes M) (message_norm M) (snd (fst x)) (snd x))
       (zip (M n) (msg_fields v)))"
  by pat_completeness auto
termination
  by (relation "measure (\<lambda>(M, n, v). size v)") (auto dest: zip_fields_size)

declare message_norm.simps [simp del]

definition gives :: "(nat \<Rightarrow> msgReader \<Rightarrow> gval rd option) \<Rightarrow> (nat \<Rightarrow> gval \<Rightarrow> gval) \<Rightarrow> nat \<Rightarrow> gval \<Rightarrow> msgReader \<Rightarrow> bool" where
  "gives ts nm n v m \<longleftrightarrow> ts n m = Some (Inr (nm n v))"

lemma single_to_struct_back:
  "represents (gives ts nm) e s v rv \<Longrightarrow> single_to_struct ts s rv = Some (Inr (single_back e nm s v))"
  by (cases s) (auto simp: gives_def split: if_splits)

lemma list_to_struct_back:
  assumes "list_all2 (represents (gives ts nm) e s) xs rs"
  shows "list_to_struct ts s (RList rs) = Some (Inr (VList (map (single_back e nm s) xs)))"
proof -
  have "foldO (\<lambda>x acc. bindO (single_to_struct ts s x) (\<lambda>v. Some (Inr (acc @ [v])))) rs acc
      = Some (Inr (acc @ map (single_back e nm s) xs))" for acc
    using assms by (induction arbitrary: acc rule: list_all2_induct) (simp_all add: single_to_struct_back)
  then show ?thesis by (simp add: list_to_struct_def)
qed

lemma map_to_struct_back:
  assumes "list_all2 (\<lambda>kv rkv. fst rkv = RVal (fst kv) \<and> represents (gives ts nm) e s (snd kv) (snd rkv)) kvs rs"
    and "distinct (map fst kvs)"
  shows "map_to_struct ts s (RMap rs) = Some (Inr (VMap (map (\<lambda>kv. (fst kv, single_back e nm s (snd kv)))
       (filter (\<lambda>kv. case s of StructT n r \<Rightarrow> e n (snd kv) \<noteq> [] | _ \<Rightarrow> True) kvs))))"
proof -
  let ?step = "\<lambda>(k, x) acc.
         if (case s of StructT n r \<Rightarrow> x = RNil | _ \<Rightarrow> False) then Some (Inr acc)
         else bindO (single_to_struct ts s x) (\<lambda>v. Some (Inr (AList.update (rval_val k) v acc)))"
  let ?conv = "map (\<lambda>kv. (fst kv, single_back e nm s (snd kv)))"
  let ?keep = "filter (\<lambda>kv. case s of StructT n r \<Rightarrow> e n (snd kv) \<noteq> [] | _ \<Rightarrow> True)"
  have "foldO ?step rs acc = Some (Inr (acc @ ?conv (?keep kvs)))"
    if "fst ` set acc \<inter> fst ` set kvs = {}" for acc
    using assms that
  proof (induction arbitrary: acc rule: list_all2_induct)
    case (Cons kv kvs rkv rs)
    obtain k x where rkv: "rkv = (RVal (fst kv), x)" using Cons.hyps by (cases rkv) auto
    have rep: "represents (gives ts nm) e s (snd kv) x" using Cons.hyps rkv by simp
    have nil: "(case s of StructT n r \<Rightarrow> x = RNil | _ \<Rightarrow> False) \<longleftrightarrow>
        \<not> (case s of StructT n r \<Rightarrow> e n (snd kv) \<noteq> [] | _ \<Rightarrow> True)"
      using rep by (cases s) (auto split: if_splits)
    have upd: "AList.update (fst kv) y acc = acc @ [(fst kv, y)]" for y
      using Cons.prems(2) by (intro update_new) auto
    show ?case
    proof (cases "case s of StructT n r \<Rightarrow> e n (snd kv) \<noteq> [] | _ \<Rightarrow> True")
      case True
      have "foldO ?step rs (acc @ [(fst kv, single_back e nm s (snd kv))])
          = Some (Inr ((acc @ [(fst kv, single_back e nm s (snd kv))]) @ ?conv (?keep kvs)))"
        using Cons.prems by (intro Cons.IH) (auto simp: rev_image_eqI)
      with True nil show ?thesis by (simp add: rkv single_to_struct_back [OF rep] upd)
    next
      case False
      have "foldO ?step rs acc = Some (Inr (acc @ ?conv (?keep kvs)))"
        using Cons.prems by (intro Cons.IH) auto
      with False nil show ?thesis by (simp add: rkv)
    qed
  qed simp
  from this [of "[]"] show ?thesis by (simp add: map_to_struct_def)
qed

lemma field_to_struct_back:
  assumes "field_represents (gives ts nm) e ft v rv" and "field_typed ht ft v"
  shows "field_to_struct ts ft rv = Some (Inr (field_back e nm ft v))"
  using assms single_to_struct_back list_to_struct_back map_to_struct_back
  by (cases ft) (auto simp del: single_typed.simps)

lemma absent_read:
  "\<exists>rv. EntryReader fuel M ft p fresh_field = Some (Inr rv) \<and> field_to_struct ts ft rv = Some (Inr (field_absent ft))"
proof (cases ft)
  case (Single s)
  then show ?thesis by (cases s) simp_all
qed (simp_all add: list_to_struct_def map_to_struct_def)

lemma f_data_save_own: "f_data (foldl (save_own ft) st xs) = f_data st"
proof (induction xs arbitrary: st)
  case (Cons x xs)
  have "f_data (save_own ft st x) = f_data st" by (cases ft; cases st) (simp_all add: save_own_def)
  with Cons show ?case by simp
qed simp

end
