(* ===== verification/Message_Properties.thy ===== *)
theory Message_Properties
  imports Message_Roundtrip
begin

section \<open>Properties of generated messages\<close>

text \<open>
  The whole-message theorems: the computed size is the length of the encoding, \<open>Marshal\<close> fills
  its buffer exactly and never panics, \<open>Unmarshal\<close> and \<open>ToStruct\<close> undo it, getters are
  coherent with their cache, and what reading hostile bytes may do.
\<close>

lemma nested_length:
  assumes "((tag, ft), v) \<in> set (present_fields (M n) m)" and "(StructT n' r, x) \<in> set (typed_parts ft v)"
  shows "length (message_bytes M n' x) < length (message_bytes M n m)"
proof -
  have "length (message_bytes M n' x) \<le> length (single_payload (message_bytes M) (StructT n' r) x)"
    by (simp add: enc_delimited_def)
  also have "\<dots> < length (field_bytes (message_bytes M) ft tag v)"
    by (rule typed_parts_length [OF assms(2)])
  also have "\<dots> \<le> length (message_bytes M n m)"
    using length_le_concat [OF assms(1), of "\<lambda>x. field_bytes (message_bytes M) (snd (fst x)) (fst (fst x)) (snd x)"]
    by (simp add: message_bytes.simps [of M n m])
  finally show ?thesis .
qed

lemma typed_parts_size:
  assumes "((tag, ft), v) \<in> set (present_fields (M n) m)" and "(s, x) \<in> set (typed_parts ft v)"
  shows "size x < size m"
  using present_fields_size [OF assms(1)] typed_parts_part [OF assms(2)] by simp

lemma foldO_map:
  assumes "\<And>x acc. x \<in> set xs \<Longrightarrow> f x acc = Some (Inr (acc @ [g x]))"
  shows "foldO f xs acc = Some (Inr (acc @ map g xs))"
  using assms by (induction xs arbitrary: acc) simp_all

text \<open>The reader of a written message, field by field.\<close>

lemma message_unmarshal:
  assumes M: "schema_ok M" and t: "sl_wf t" "sl_bytes t = message_bytes M n v" "sl_len t < 2 ^ 62"
    and fuel: "length (message_bytes M n v) < fuel"
  shows "Unmarshal fuel (M n) (NewMsgReader M n) t = Some (MsgReader (Some (NewReader t))
    (foldl (save_placed (M n)) (map (\<lambda>_. fresh_field) (M n))
      (place 0 (concat (map (group_items (message_bytes M)) (present_fields (M n) v))))), None)"
proof -
  let ?its = "concat (map (group_items (message_bytes M)) (present_fields (M n) v))"
  have bytes: "tagged_bytes ?its = message_bytes M n v"
    by (simp only: tagged_groups message_bytes.simps [of M n v])
  have len: "sl_len t = length (message_bytes M n v)" using t(1,2) length_sl_bytes by metis
  have at: "at_off (NewReader t) 0 (tagged_bytes ?its)"
    using t len by (simp add: at_off_def NewReader_def bytes)
  have ok: "valid_tag (fst x) \<and> item_ok (snd x)" if "x \<in> set ?its" for x
    using that schema_okD [OF M] field_items_ok by (fastforce simp: group_items_def)
  have "unmarshal_loop fuel (M n) (NewReader t) (int 0) (map (\<lambda>_. fresh_field) (M n))
      = Some (foldl (save_placed (M n)) (map (\<lambda>_. fresh_field) (M n)) (place 0 ?its), None)"
    by (rule unmarshal_items [OF ok at]) (use len fuel in \<open>simp_all add: bytes NewReader_def\<close>)
  then show ?thesis by (simp add: Unmarshal_def NewMsgReader_def)
qed

lemma distinct_present:
  assumes "schema_ok M"
  shows "distinct (map (fst \<circ> fst) (present_fields (M n) v))"
proof -
  have "distinct (map (fst \<circ> fst) (zip (M n) vs))" for vs
  proof -
    have "map (fst \<circ> fst) (zip (M n) vs) = take (length vs) (map fst (M n))"
      by (cases "length vs \<le> length (M n)")
        (simp_all add: map_map [symmetric] map_fst_zip_take take_map min_def del: map_map)
    then show ?thesis using assms by (simp add: schema_ok_def)
  qed
  then show ?thesis
    unfolding present_fields_def by (intro distinct_map_filter)
qed

lemma schema_index_unique:
  assumes "schema_ok M" and "i < length (M n)" and "j < length (M n)" and "fst (M n ! i) = fst (M n ! j)"
  shows "i = j"
  using assms by (simp add: schema_ok_def nth_eq_iff_index_eq [of "map fst (M n)" i j, symmetric])

lemma foldO_comp: "foldO f (map h xs) acc = foldO (\<lambda>x. f (h x)) xs acc"
  by (induction xs arbitrary: acc) (simp_all add: bindO_def split: option.splits sum.splits)

lemma zip_upt: "length xs = n \<Longrightarrow> length ys = n \<Longrightarrow> zip xs ys = map (\<lambda>i. (xs ! i, ys ! i)) [0..<n]"
  by (rule nth_equalityI) simp_all

text \<open>One field of a reader: present or not, its getter and \<open>ToStruct\<close> give the normal form.\<close>

lemma field_back_at:
  assumes M: "schema_ok M" and typed: "message_typed M n v" and i: "i < length (M n)"
    and at: "at_off p 0 (message_bytes M n v)" and fuel: "length (message_bytes M n v) < fuel"
    and nested: "\<And>n' r x m. \<lbrakk>((tag, ft), y) \<in> set (present_fields (M n) v); (StructT n' r, x) \<in> set (typed_parts ft y);
      message_bytes M n' x \<noteq> []\<rbrakk> \<Longrightarrow> nested_ok (gives ts (message_norm M)) (message_bytes M) fuel M (StructT n' r) x"
    and ft: "M n ! i = (tag, ft)" and y: "y = msg_fields v ! i"
    and sts: "sts = foldl (save_placed (M n)) (map (\<lambda>_. fresh_field) (M n))
      (place 0 (concat (map (group_items (message_bytes M)) (present_fields (M n) v))))"
  shows "\<exists>rv. field_value fuel M ft p (sts ! i) = Some (Inr rv)
    \<and> field_to_struct ts ft rv = Some (Inr (field_norm (message_bytes M) (message_norm M) ft y))"
proof -
  let ?e = "message_bytes M" and ?L = "present_fields (M n) v"
  let ?x = "((tag, ft), y)"
  have len: "length (msg_fields v) = length (M n)" using typed by (simp add: message_typed.simps)
  have dist: "distinct (map fst (M n))" using M by (simp add: schema_ok_def)
  have zip: "?x \<in> set (zip (M n) (msg_fields v))"
    using i len ft y by (force simp: set_zip)
  then have "field_typed (message_typed M) ft y"
    using typed by (fastforce simp: message_typed.simps [of M n v])
  have own: "sts ! i = foldl (save_own ft) fresh_field
      (filter (\<lambda>x. fst (fst x) = tag) (place 0 (concat (map (group_items ?e) ?L))))"
    using nth_save_placed [OF dist, of "map (\<lambda>_. fresh_field) (M n)" i] i by (simp add: sts ft)
  have data: "f_data (sts ! i) = None" by (simp add: own f_data_save_own)
  show ?thesis
  proof (cases "EntryIsNotEmpty ft y")
    case True
    then have x: "?x \<in> set ?L" using zip by (simp add: present_fields_def)
    have "at_off p 0 (tagged_bytes (concat (map (group_items ?e) ?L)))"
      using at by (simp only: tagged_groups message_bytes.simps [of M n v])
    from place_filter_group [OF distinct_present [OF M] x this] obtain o1 where
      o1: "at_off p o1 (tagged_bytes (group_items ?e ?x))"
        "filter (\<lambda>y. fst (fst y) = tag) (place 0 (concat (map (group_items ?e) ?L))) = place o1 (group_items ?e ?x)"
      by auto
    have bytes: "length (field_bytes ?e ft tag y) < fuel"
      using length_le_concat [OF x, of "\<lambda>x. field_bytes ?e (snd (fst x)) (fst (fst x)) (snd x)"] fuel
      by (simp add: message_bytes.simps [of M n v])
    have nest: "nested_ok (gives ts (message_norm M)) ?e fuel M s z" if "(s, z) \<in> set (typed_parts ft y)" for s z
      using that nested [OF x] by (cases s) (auto simp: nested_ok_def)
    have "\<exists>rv. EntryReader fuel M ft p (foldl (save_own ft) fresh_field (place o1 (group_items ?e ?x)))
      = Some (Inr rv) \<and> field_represents (gives ts (message_norm M)) ?e ft y rv"
      by (rule field_read [OF _ _ \<open>field_typed (message_typed M) ft y\<close> nest bytes])
        (use o1(1) schema_okD [OF M x] in \<open>simp_all add: tagged_group\<close>)
    then obtain rv where rv: "EntryReader fuel M ft p (sts ! i) = Some (Inr rv)"
      "field_represents (gives ts (message_norm M)) ?e ft y rv"
      by (auto simp: own o1(2))
    with field_to_struct_back [OF rv(2) \<open>field_typed (message_typed M) ft y\<close>] True data show ?thesis
      by (simp add: field_value_def field_norm_def)
  next
    case False
    have "tag \<notin> (fst \<circ> fst) ` set ?L"
    proof
      assume "tag \<in> (fst \<circ> fst) ` set ?L"
      then obtain ft' y' where z: "((tag, ft'), y') \<in> set ?L" by auto
      then obtain j where j: "j < length (M n)" "M n ! j = (tag, ft')" "y' = msg_fields v ! j"
        using len by (auto simp: present_fields_def set_zip)
      with schema_index_unique [OF M i j(1)] ft have "j = i" by simp
      with j ft y z False show False by (simp add: present_fields_def)
    qed
    then have "sts ! i = fresh_field" by (simp add: own place_filter_none)
    with absent_read [of fuel M ft p ts] False show ?thesis
      by (auto simp: field_value_def field_norm_def)
  qed
qed

lemma message_back:
  assumes M: "schema_ok M" and "message_typed M n v" and "sl_wf t" and "sl_bytes t = message_bytes M n v"
    and "sl_len t < 2 ^ 62" and "length (message_bytes M n v) < fuel" and "length (message_bytes M n v) \<le> d"
  shows "\<exists>m. Unmarshal fuel (M n) (NewMsgReader M n) t = Some (m, None)
    \<and> ToStruct (Suc d) fuel M n m = Some (Inr (message_norm M n v))"
  using assms(2-)
proof (induction v arbitrary: n t d rule: measure_induct_rule [of size])
  case (less v)
  let ?L = "present_fields (M n) v"
  let ?sts = "foldl (save_placed (M n)) (map (\<lambda>_. fresh_field) (M n))
      (place 0 (concat (map (group_items (message_bytes M)) ?L)))"
  let ?m = "MsgReader (Some (NewReader t)) ?sts"
  have unm: "Unmarshal fuel (M n) (NewMsgReader M n) t = Some (?m, None)"
    by (rule message_unmarshal [OF M less.prems(2-5)])
  have at: "at_off (NewReader t) 0 (message_bytes M n v)"
  proof -
    have "sl_len t = length (message_bytes M n v)" using less.prems(2,3) length_sl_bytes by metis
    with less.prems(2-4) show ?thesis by (simp add: at_off_def NewReader_def)
  qed
  have len: "length (msg_fields v) = length (M n)" "length ?sts = length (M n)"
    using less.prems(1) by (simp_all add: message_typed.simps)
  have nested: "nested_ok (gives (ToStruct d fuel M) (message_norm M)) (message_bytes M) fuel M (StructT n' r) x"
    if x: "((tag, ft), y) \<in> set ?L" "(StructT n' r, x) \<in> set (typed_parts ft y)" "message_bytes M n' x \<noteq> []"
    for tag ft y n' r x
    unfolding nested_ok_def
  proof (intro allI impI, clarify)
    fix s assume s: "sl_wf s" "sl_bytes s = message_bytes M n' x" "sl_len s < 2 ^ 62"
    have smaller: "size x < size v"
      using typed_parts_size [where M = M and n = n and m = v] x(1,2) by blast
    have short: "length (message_bytes M n' x) < length (message_bytes M n v)"
      using nested_length [where M = M and n = n and m = v] x(1,2) by blast
    then obtain d' where d: "d = Suc d'" using less.prems(6) by (cases d) auto
    have "field_typed (message_typed M) ft y"
      using x(1) less.prems(1) by (fastforce simp: message_typed.simps [of M n v] present_fields_def)
    then have "single_typed (message_typed M) (StructT n' r) x" using x(2) by (rule typed_parts_typed)
    then have "message_typed M n' x" using x(3) by auto
    then show "\<exists>m. Unmarshal fuel (M n') (NewMsgReader M n') s = Some (m, None)
        \<and> gives (ToStruct d fuel M) (message_norm M) n' x m"
      using less.IH [OF smaller _ s] short less.prems(5,6) by (simp add: d gives_def)
  qed
  let ?nf = "\<lambda>i. field_norm (message_bytes M) (message_norm M) (snd (M n ! i)) (msg_fields v ! i)"
  have field: "bindO (field_value fuel M (snd (M n ! i)) (NewReader t) (?sts ! i)) (\<lambda>data.
         bindO (field_to_struct (ToStruct d fuel M) (snd (M n ! i)) data) (\<lambda>v. Some (Inr (acc @ [v]))))
      = Some (Inr (acc @ [?nf i]))" if i: "i < length (M n)" for i acc
  proof -
    obtain tag ft where ft: "M n ! i = (tag, ft)" by force
    have "\<exists>rv. field_value fuel M ft (NewReader t) (?sts ! i) = Some (Inr rv)
      \<and> field_to_struct (ToStruct d fuel M) ft rv
        = Some (Inr (field_norm (message_bytes M) (message_norm M) ft (msg_fields v ! i)))"
      by (rule field_back_at [OF M less.prems(1) i at less.prems(5) _ ft refl refl]) (rule nested)
    then show ?thesis by (auto simp: ft)
  qed
  have "foldO (\<lambda>(f, st) acc.
         bindO (field_value fuel M (snd f) (the_buf ?m) st) (\<lambda>data.
         bindO (field_to_struct (ToStruct d fuel M) (snd f) data) (\<lambda>v. Some (Inr (acc @ [v])))))
       (zip (M n) (m_fields ?m)) [] = Some (Inr ([] @ map ?nf [0..<length (M n)]))"
    unfolding msgReader.sel zip_upt [OF refl len(2)] foldO_comp
    by (rule foldO_map) (use field in \<open>simp add: the_buf_def\<close>)
  moreover have "message_norm M n v = VMsg (map ?nf [0..<length (M n)])"
    unfolding message_norm.simps [of M n v] zip_upt [OF refl len(1)] by simp
  ultimately have "ToStruct (Suc d) fuel M n ?m = Some (Inr (message_norm M n v))"
    by simp
  with unm show ?case by blast
qed

subsection \<open>Values the format keeps\<close>

text \<open>
  A message is canonical when nothing in it is lost on the wire: a scalar that is not written
  is the default itself, embedded messages have content or are nil, and a map has no nil
  message.
\<close>

fun single_canonical :: "(nat \<Rightarrow> gval \<Rightarrow> byte list) \<Rightarrow> (nat \<Rightarrow> gval \<Rightarrow> bool) \<Rightarrow> single \<Rightarrow> gval \<Rightarrow> bool" where
  "single_canonical e c (StructT n r) v = (v = VNil \<or> e n v \<noteq> [] \<and> c n v)"
| "single_canonical e c s v = True"

fun field_canonical :: "(nat \<Rightarrow> gval \<Rightarrow> byte list) \<Rightarrow> (nat \<Rightarrow> gval \<Rightarrow> bool) \<Rightarrow> fieldType \<Rightarrow> gval \<Rightarrow> bool" where
  "field_canonical e c (Single s) v =
     (if single_not_empty s v then single_canonical e c s v else v = single_default s)"
| "field_canonical e c (Repeated s r) v = (\<forall>x \<in> set (elements v). single_canonical e c s x)"
| "field_canonical e c (RepeatedPacked s r) v = (\<forall>x \<in> set (elements v). single_canonical e c s x)"
| "field_canonical e c (MapOf k s) v =
     (\<forall>kv \<in> set (entries v). snd kv \<noteq> VNil \<and> single_canonical e c s (snd kv))"

lemma field_canonical_cong [fundef_cong]:
  assumes "e = e'" "ft = ft'" "v = v'" "\<And>n x. x \<in> set (parts ft' v') \<Longrightarrow> c n x = c' n x"
  shows "field_canonical e c ft v = field_canonical e' c' ft' v'"
proof -
  have "single_canonical e c s x = single_canonical e c' s x" if "x \<in> set (parts ft' v')" for s x
    using that assms(4) by (cases s) simp_all
  with assms(1-3) show ?thesis by (cases ft') auto
qed

function message_canonical :: "schema \<Rightarrow> nat \<Rightarrow> gval \<Rightarrow> bool" where
  "message_canonical M n v =
     (\<forall>x \<in> set (zip (M n) (msg_fields v)).
       field_canonical (message_bytes M) (message_canonical M) (snd (fst x)) (snd x))"
  by pat_completeness auto
termination
  by (relation "measure (\<lambda>(M, n, v). size v)") (auto dest: zip_fields_size)

declare message_canonical.simps [simp del]

lemma single_back_canonical:
  assumes "single_canonical e c s v" and "\<And>n r. s = StructT n r \<Longrightarrow> c n v \<Longrightarrow> v \<noteq> VNil \<Longrightarrow> nm n v = v"
    and "\<And>n. e n VNil = []"
  shows "single_back e nm s v = v"
  using assms by (cases s) auto

lemma field_norm_canonical:
  assumes "field_canonical e c ft v" and "field_typed ht ft v" and "\<And>n. e n VNil = []"
    and nm: "\<And>n r x. (StructT n r, x) \<in> set (typed_parts ft v) \<Longrightarrow> c n x \<Longrightarrow> x \<noteq> VNil \<Longrightarrow> nm n x = x"
  shows "field_norm e nm ft v = v"
proof (cases ft)
  case (Single s)
  with assms show ?thesis by (auto simp: field_norm_def intro!: single_back_canonical)
next
  case (Repeated s r)
  have "single_back e nm s x = x" if "x \<in> set (elements v)" for x
    using Repeated that assms(1,3) nm [of _ _ x] by (intro single_back_canonical [where e = e and c = c]) (auto simp: image_iff)
  then have "map (single_back e nm s) (elements v) = elements v" by (rule map_idI)
  with Repeated assms(2) show ?thesis by (cases "elements v") (simp_all add: field_norm_def)
next
  case (RepeatedPacked s r)
  have "single_back e nm s x = x" if "x \<in> set (elements v)" for x
    using RepeatedPacked that assms(1,3) nm [of _ _ x] by (intro single_back_canonical [where e = e and c = c]) (auto simp: image_iff)
  then have "map (single_back e nm s) (elements v) = elements v" by (rule map_idI)
  with RepeatedPacked assms(2) show ?thesis by (cases "elements v") (simp_all add: field_norm_def)
next
  case (MapOf k s)
  have "nm n (snd kv) = snd kv"
    if "kv \<in> set (entries v)" "s = StructT n r" "c n (snd kv)" "snd kv \<noteq> VNil" for kv n r
    using that MapOf by (intro nm [of n r]) auto
  then have same: "single_back e nm s (snd kv) = snd kv" if "kv \<in> set (entries v)" for kv
    using MapOf that assms(1,3) by (intro single_back_canonical [where e = e and c = c]) auto
  have keep: "case s of StructT n r \<Rightarrow> e n (snd kv) \<noteq> [] | _ \<Rightarrow> True" if "kv \<in> set (entries v)" for kv
    using MapOf that assms(1) by (cases s) auto
  have "filter (\<lambda>kv. case s of StructT n r \<Rightarrow> e n (snd kv) \<noteq> [] | _ \<Rightarrow> True) (entries v) = entries v"
    using keep by (simp add: filter_id_conv)
  moreover have "map (\<lambda>kv. (fst kv, single_back e nm s (snd kv))) (entries v) = entries v"
    using same by (intro map_idI) simp
  ultimately show ?thesis using MapOf assms(2) by (cases "entries v") (simp_all add: field_norm_def)
qed

lemma message_norm_canonical:
  assumes "message_typed M n v" and "message_canonical M n v"
  shows "message_norm M n v = v"
  using assms
proof (induction v arbitrary: n rule: measure_induct_rule [of size])
  case (less v)
  have len: "length (msg_fields v) = length (M n)" and v: "v = VMsg (msg_fields v)"
    using less.prems(1) by (simp_all add: message_typed.simps [of M n v])
  have "field_norm (message_bytes M) (message_norm M) ft y = y"
    if x: "((tag, ft), y) \<in> set (zip (M n) (msg_fields v))" for tag ft y
  proof (rule field_norm_canonical)
    show "field_canonical (message_bytes M) (message_canonical M) ft y"
      using x less.prems(2) by (fastforce simp: message_canonical.simps [of M n v])
    show typed: "field_typed (message_typed M) ft y"
      using x less.prems(1) by (fastforce simp: message_typed.simps [of M n v])
    show "message_norm M n' z = z"
      if z: "(StructT n' r, z) \<in> set (typed_parts ft y)" "message_canonical M n' z" "z \<noteq> VNil" for n' r z
      using less.IH [of z n'] zip_fields_size [OF x, of z ft] typed_parts_part [OF z(1)]
        typed_parts_typed [OF typed z(1)] z(2,3) by simp
  qed simp
  then have "map (\<lambda>x. field_norm (message_bytes M) (message_norm M) (snd (fst x)) (snd x)) (zip (M n) (msg_fields v))
      = map snd (zip (M n) (msg_fields v))"
    by (intro map_cong refl) auto
  then show ?case
    using len v by (simp add: message_norm.simps [of M n v])
qed

subsection \<open>Caches\<close>

text \<open>A getter changes nothing but its field's cache.\<close>

lemma readField_keeps:
  assumes "readField fuel M n i m = Some (Inr (x, m'))"
  shows "m_buf m' = m_buf m \<and> length (m_fields m') = length (m_fields m)
    \<and> (\<forall>j. j \<noteq> i \<longrightarrow> m_fields m' ! j = m_fields m ! j)"
  using assms by (auto simp: readField_def Let_def bindO_def split: option.splits sum.splits)

lemma f_data_save: "f_data (EntryUnmarshalSaveOffsets ft wire offset st) = f_data st"
  by (cases ft; cases st) simp_all

lemma f_data_save_field: "map f_data (save_field fs tag wire offset sts) = map f_data sts"
  by (induction fs tag wire offset sts rule: save_field.induct) (simp_all add: f_data_save)

lemma f_data_unmarshal:
  "unmarshal_loop k fs p offset sts = Some (sts', e) \<Longrightarrow> map f_data sts' = map f_data sts"
proof (induction k fs p offset sts rule: unmarshal_loop.induct)
  case (2 k fs p offset sts)
  then show ?case
    by (auto simp: f_data_save_field Let_def simp del: SkipData.simps split: if_splits sum.splits option.splits)
qed simp

subsection \<open>Theorems\<close>

text \<open>A schema to evaluate on: a message with a string, a packed list, an embedded message and
  a map of messages, and a message with one flag.\<close>

definition demo_schema :: schema where
  "demo_schema n =
     (if n = 0 then
        [(1, Single (BasicT PString None False)),
         (2, RepeatedPacked (BasicT PSint32 None False) False),
         (3, Single (StructT 1 False)),
         (4, MapOf (BasicT PUint32 None False) (StructT 1 False))]
      else if n = 1 then [(1, Single (BasicT PBool None False))]
      else [])"

definition demo_value :: gval where
  "demo_value = VMsg [VStr [104, 105], VList [V32 1, V32 (- 1)], VMsg [VBool True],
     VMap [(V32 7, VMsg [VBool True])]]"

lemma demo_schema_ok: "schema_ok demo_schema"
  by (auto simp: schema_ok_def demo_schema_def valid_tag_def)

lemma demo_schema_fields [simp]:
  "demo_schema 0 = [(1, Single (BasicT PString None False)),
         (2, RepeatedPacked (BasicT PSint32 None False) False),
         (3, Single (StructT 1 False)),
         (4, MapOf (BasicT PUint32 None False) (StructT 1 False))]"
  "demo_schema (Suc 0) = [(1, Single (BasicT PBool None False))]"
  by (simp_all add: demo_schema_def)

lemma demo_typed: "message_typed demo_schema 0 demo_value"
  by (simp add: message_typed.simps demo_value_def)

lemmas demo_bytes = message_bytes.simps present_fields_def field_bytes_def single_item_def item_bytes_def
  tag_bytes_def tag_word_def varint_bytes_small enc_delimited_def len_bytes_def enc_varint_def
  bool_word_def map_entry_bytes_def zigzag_def go_eq_def wire_type_defs

lemma demo_inner: "message_bytes demo_schema (Suc 0) (VMsg [VBool True]) = [8, 1]"
  by (simp add: demo_bytes)

lemma demo_length: "length (message_bytes demo_schema 0 demo_value) = 20"
  by (simp add: message_bytes.simps [of demo_schema 0] demo_inner demo_value_def demo_bytes(2-))

lemma demo_canonical: "message_canonical demo_schema 0 demo_value"
  by (simp add: message_canonical.simps [of demo_schema] demo_value_def demo_inner go_eq_def)

lemma marshal_back:
  assumes "schema_ok M" and "message_typed M n v" and "length (message_bytes M n v) < 2 ^ 62"
    and "length (message_bytes M n v) < fuel" and "length (message_bytes M n v) \<le> d"
  shows "\<exists>s m. Marshal M n v = Inr s \<and> Unmarshal fuel (M n) (NewMsgReader M n) s = Some (m, None)
    \<and> ToStruct (Suc d) fuel M n m = Some (Inr (message_norm M n v))"
proof -
  have "v \<noteq> VNil" using assms(2) by (auto simp: message_typed.simps)
  from Marshal_bytes [OF assms(1) this assms(3)] obtain s where
    s: "Marshal M n v = Inr s" "sl_bytes s = message_bytes M n v" "sl_wf s"
    by blast
  have "sl_len s < 2 ^ 62" using s(2,3) assms(3) length_sl_bytes by metis
  from message_back [OF assms(1,2) s(3,2) this assms(4,5)] s(1) show ?thesis by blast
qed

text \<open>C20: \<open>XXX_PbContentSize\<close> is the length of the message's encoding (as a 64-bit \<open>int\<close>), for
  every schema the generator accepts and every value.\<close>

theorem content_size_exact:
  assumes "schema_ok M"
  shows "XXX_PbContentSize M n v = wrap64 (int (length (message_bytes M n v)))"
  using assms by (rule content_size)

lemma content_size_exact_witness:
  "XXX_PbContentSize demo_schema 0 demo_value = wrap64 (int (length (message_bytes demo_schema 0 demo_value)))"
  by (rule content_size_exact [OF demo_schema_ok])

text \<open>C15: \<open>Marshal\<close> of a struct never panics below \<open>2\<^sup>6\<^sup>2\<close> bytes: it returns the encoding,
  having allocated exactly its length.\<close>

theorem Marshal_exact:
  assumes "schema_ok M" and "v \<noteq> VNil" and "length (message_bytes M n v) < 2 ^ 62"
  shows "\<exists>s. Marshal M n v = Inr s \<and> sl_bytes s = message_bytes M n v
    \<and> sl_len s = sl_cap s \<and> XXX_PbContentSize M n v = int (sl_len s)"
proof -
  from Marshal_bytes [OF assms] obtain s where
    s: "Marshal M n v = Inr s" "sl_bytes s = message_bytes M n v" "sl_wf s"
      "sl_cap s = length (message_bytes M n v)"
    by blast
  then have "sl_len s = length (message_bytes M n v)" using length_sl_bytes by metis
  with s assms(3) show ?thesis by (intro exI [of _ s]) (simp add: content_size [OF assms(1)] wrap64_id)
qed

lemma Marshal_exact_witness:
  "\<exists>s. Marshal demo_schema 0 demo_value = Inr s \<and> sl_bytes s = message_bytes demo_schema 0 demo_value
    \<and> sl_len s = sl_cap s \<and> XXX_PbContentSize demo_schema 0 demo_value = int (sl_len s)"
  by (rule Marshal_exact [OF demo_schema_ok]) (simp add: demo_value_def, simp add: demo_length)

text \<open>C16: \<open>MarshalTo\<close> on a writer with room appends exactly the encoding to what is there.\<close>

theorem MarshalTo_appends:
  assumes "schema_ok M" and "wr_ok w" and "fits (message_bytes M n v) w"
  shows "\<exists>w'. MarshalTo M n v w = Inr w' \<and> written w' = written w @ message_bytes M n v
    \<and> sl_cap (wbuf w') = sl_cap (wbuf w)"
  using emitsD [OF MarshalTo_emits [OF assms(1)] assms(2,3)] written_pushed [OF assms(2)]
    pushed_cap [OF assms(2,3)] by blast

lemma MarshalTo_appends_witness:
  "\<exists>w'. MarshalTo demo_schema 0 demo_value \<lparr>wbuf = \<lparr>sl_arr = replicate 30 9, sl_len = 4\<rparr>\<rparr> = Inr w'
    \<and> written w' = written \<lparr>wbuf = \<lparr>sl_arr = replicate 30 9, sl_len = 4\<rparr>\<rparr> @ message_bytes demo_schema 0 demo_value
    \<and> sl_cap (wbuf w') = sl_cap (wbuf \<lparr>wbuf = \<lparr>sl_arr = replicate 30 9, sl_len = 4\<rparr>\<rparr>)"
  by (rule MarshalTo_appends [OF demo_schema_ok])
    (simp_all add: wr_ok_def sl_wf_def sl_cap_def fits_def demo_length)

text \<open>C2: \<open>Unmarshal\<close> of what \<open>Marshal\<close> wrote ends without an error, and \<open>ToStruct\<close> gives the
  message back up to what the format does not keep (\<open>message_norm\<close>).\<close>

theorem marshal_roundtrip:
  assumes "schema_ok M" and "message_typed M n v" and "length (message_bytes M n v) < 2 ^ 62"
    and "length (message_bytes M n v) < fuel" and "length (message_bytes M n v) \<le> d"
  shows "\<exists>s m. Marshal M n v = Inr s \<and> Unmarshal fuel (M n) (NewMsgReader M n) s = Some (m, None)
    \<and> ToStruct (Suc d) fuel M n m = Some (Inr (message_norm M n v))"
  using assms by (rule marshal_back)

lemma marshal_roundtrip_witness:
  "\<exists>s m. Marshal demo_schema 0 demo_value = Inr s
    \<and> Unmarshal 21 (demo_schema 0) (NewMsgReader demo_schema 0) s = Some (m, None)
    \<and> ToStruct (Suc 20) 21 demo_schema 0 m = Some (Inr (message_norm demo_schema 0 demo_value))"
  by (rule marshal_roundtrip [OF demo_schema_ok demo_typed]) (simp_all only: demo_length, simp_all)

text \<open>C21: a canonical message comes back as it was.\<close>

theorem marshal_roundtrip_canonical:
  assumes "schema_ok M" and "message_typed M n v" and "length (message_bytes M n v) < 2 ^ 62"
    and "length (message_bytes M n v) < fuel" and "length (message_bytes M n v) \<le> d"
    and "message_canonical M n v"
  shows "\<exists>s m. Marshal M n v = Inr s \<and> Unmarshal fuel (M n) (NewMsgReader M n) s = Some (m, None)
    \<and> ToStruct (Suc d) fuel M n m = Some (Inr v)"
  using marshal_back [OF assms(1-5)] message_norm_canonical [OF assms(2,6)] by simp

lemma marshal_roundtrip_canonical_witness:
  "\<exists>s m. Marshal demo_schema 0 demo_value = Inr s
    \<and> Unmarshal 21 (demo_schema 0) (NewMsgReader demo_schema 0) s = Some (m, None)
    \<and> ToStruct (Suc 20) 21 demo_schema 0 m = Some (Inr demo_value)"
  by (rule marshal_roundtrip_canonical [OF demo_schema_ok demo_typed _ _ _ demo_canonical])
    (simp_all only: demo_length, simp_all)

text \<open>C19: forward compatibility. Reading a message with other field declarations ends without an
  error; the fields both sides declare alike are found at the same places, and fields the writer
  does not have stay unset.\<close>

theorem unmarshal_other_schema:
  assumes M: "schema_ok M" and t: "sl_wf t" "sl_bytes t = message_bytes M n v" "sl_len t < 2 ^ 62"
    and fuel: "length (message_bytes M n v) < fuel" and dist: "distinct (map fst fs)"
  shows "\<exists>m m'. Unmarshal fuel (M n) (NewMsgReader M n) t = Some (m, None)
    \<and> Unmarshal fuel fs (MsgReader None (map (\<lambda>_. fresh_field) fs)) t = Some (m', None)
    \<and> (\<forall>i < length fs. \<forall>j < length (M n). fs ! i = M n ! j \<longrightarrow> m_fields m' ! i = m_fields m ! j)
    \<and> (\<forall>i < length fs. fst (fs ! i) \<notin> fst ` set (M n) \<longrightarrow> m_fields m' ! i = fresh_field)"
proof -
  let ?L = "present_fields (M n) v"
  let ?its = "concat (map (group_items (message_bytes M)) ?L)"
  have bytes: "tagged_bytes ?its = message_bytes M n v"
    by (simp only: tagged_groups message_bytes.simps [of M n v])
  have len: "sl_len t = length (message_bytes M n v)" using t(1,2) length_sl_bytes by metis
  have at: "at_off (NewReader t) 0 (tagged_bytes ?its)"
    using t len by (simp add: at_off_def NewReader_def bytes)
  have ok: "valid_tag (fst x) \<and> item_ok (snd x)" if "x \<in> set ?its" for x
    using that schema_okD [OF M] field_items_ok by (fastforce simp: group_items_def)
  have loop: "unmarshal_loop fuel gs (NewReader t) (int 0) sts
      = Some (foldl (save_placed gs) sts (place 0 ?its), None)" for gs sts
    by (rule unmarshal_items [OF ok at]) (use len fuel in \<open>simp_all add: bytes NewReader_def\<close>)
  have own: "foldl (save_placed gs) (map (\<lambda>_. fresh_field) gs) (place 0 ?its) ! i
      = foldl (save_own (snd (gs ! i))) fresh_field (filter (\<lambda>x. fst (fst x) = fst (gs ! i)) (place 0 ?its))"
    if "distinct (map fst gs)" "i < length gs" for gs i
    using nth_save_placed [OF that(1) _ that(2), of "map (\<lambda>_. fresh_field) gs"] that(2) by simp
  have M_dist: "distinct (map fst (M n))" using M by (simp add: schema_ok_def)
  have absent: "filter (\<lambda>x. fst (fst x) = tag) (place 0 ?its) = []" if "tag \<notin> fst ` set (M n)" for tag
  proof (rule place_filter_none)
    show "tag \<notin> (fst \<circ> fst) ` set ?L"
      using that by (force simp: present_fields_def dest: set_zip_leftD)
  qed
  show ?thesis
    using loop [of "M n"] loop [of fs] own [OF dist] own [OF M_dist] absent
    by (simp add: Unmarshal_def NewMsgReader_def)
qed

definition demo_other :: "(ProtoWireNumber \<times> fieldType) list" where
  "demo_other = [(9, Single (StructT 5 True)), (1, Single (BasicT PString None False))]"

lemma unmarshal_other_schema_witness:
  "\<exists>m m'. Unmarshal 30 (demo_schema 0) (NewMsgReader demo_schema 0) (of_bytes (message_bytes demo_schema 0 demo_value)) = Some (m, None)
    \<and> Unmarshal 30 demo_other (MsgReader None (map (\<lambda>_. fresh_field) demo_other))
        (of_bytes (message_bytes demo_schema 0 demo_value)) = Some (m', None)"
proof -
  have l: "sl_len (of_bytes (message_bytes demo_schema 0 demo_value)) < 2 ^ 62"
    "length (message_bytes demo_schema 0 demo_value) < 30"
    unfolding sl_len_of_bytes demo_length by simp_all
  have "distinct (map fst demo_other)" by (simp add: demo_other_def)
  from unmarshal_other_schema [OF demo_schema_ok sl_wf_of_bytes sl_bytes_of_bytes l(1) l(2) this] show ?thesis by blast
qed

text \<open>Getters are stable: after a getter has returned a value, calling it again returns the
  same value and changes nothing, however much fuel it had; other fields are untouched.\<close>

lemma readField_again:
  assumes "readField fuel M n i m = Some (Inr (x, m'))" and "i < length (m_fields m)"
  shows "readField fuel' M n i m' = Some (Inr (x, m')) \<and> m_buf m' = m_buf m
    \<and> (\<forall>j. j \<noteq> i \<longrightarrow> m_fields m' ! j = m_fields m ! j)"
proof -
  have "f_data (m_fields m' ! i) = Some x"
    using assms by (auto simp: readField_def Let_def bindO_def split: option.splits sum.splits)
  then have "readField fuel' M n i m' = Some (Inr (x, m'))" by (simp add: readField_def)
  with readField_keeps [OF assms(1)] show ?thesis by simp
qed

abbreviation demo_flag :: msgReader where
  "demo_flag \<equiv> MsgReader (Some (NewReader (of_bytes [8, 1]))) [FState 0 [] [] (Some (RVal (VBool True)))]"

lemma readField_again_witness:
  "readField 5 demo_schema 1 0 demo_flag = Some (Inr (RVal (VBool True), demo_flag)) \<and> m_buf demo_flag = m_buf demo_flag"
proof -
  have "readField 3 demo_schema 1 0 demo_flag = Some (Inr (RVal (VBool True), demo_flag))" by (simp add: readField_def)
  from readField_again [OF this, of 5] show ?thesis by simp
qed



lemma single_copy_same:
  assumes "\<And>n r. s = StructT n r \<Longrightarrow> v \<noteq> VNil \<Longrightarrow> cp n v = v"
  shows "single_copy cp s v = v"
  using assms by (cases s) simp_all

lemma EntryCopy_same:
  assumes "field_typed ht ft v"
    and cp: "\<And>n r x. (StructT n r, x) \<in> set (typed_parts ft v) \<Longrightarrow> x \<noteq> VNil \<Longrightarrow> cp n x = x"
    and nil: "\<And>k n r kv. ft = MapOf k (StructT n r) \<Longrightarrow> kv \<in> set (entries v) \<Longrightarrow> snd kv \<noteq> VNil"
  shows "EntryCopy cp ft v = v"
proof -
  have same: "single_copy cp s x = x" if "(s, x) \<in> set (typed_parts ft v)" for s x
    using that cp by (intro single_copy_same) auto
  show ?thesis
  proof (cases ft)
    case (Single s)
    with same show ?thesis by simp
  next
    case (Repeated s r)
    with same have "map (single_copy cp s) (elements v) = elements v" by (intro map_idI) auto
    with Repeated assms(1) show ?thesis by simp
  next
    case (RepeatedPacked s r)
    with same have "map (single_copy cp s) (elements v) = elements v" by (intro map_idI) auto
    with RepeatedPacked assms(1) show ?thesis by simp
  next
    case (MapOf k s)
    have "filter (\<lambda>kv. case s of StructT n r \<Rightarrow> snd kv \<noteq> VNil | _ \<Rightarrow> True) (entries v) = entries v"
      using MapOf nil by (auto simp: filter_id_conv split: single.split)
    moreover have "single_copy cp s (snd kv) = snd kv" if "kv \<in> set (entries v)" for kv
      using that MapOf by (intro same) auto
    then have "map (\<lambda>kv. (fst kv, single_copy cp s (snd kv))) (entries v) = entries v"
      by (intro map_idI) simp
    ultimately show ?thesis using MapOf assms(1) by simp
  qed
qed

text \<open>\<open>Copy\<close> of a message none of whose maps holds a nil message is the message itself.\<close>

lemma Copy_same:
  assumes M: "schema_ok M" and "message_typed M n v" and "message_canonical M n v"
  shows "Copy M n v = v"
  using assms(2,3)
proof (induction v arbitrary: n rule: measure_induct_rule [of size])
  case (less v)
  have len: "length (msg_fields v) = length (M n)" and v: "v = VMsg (msg_fields v)"
    using less.prems(1) by (simp_all add: message_typed.simps [of M n v])
  have "EntryCopy (Copy M) ft y = y"
    if x: "((tag, ft), y) \<in> set (zip (M n) (msg_fields v))" for tag ft y
  proof (rule EntryCopy_same)
    have can: "field_canonical (message_bytes M) (message_canonical M) ft y"
      using x less.prems(2) by (fastforce simp: message_canonical.simps [of M n v])
    show typed: "field_typed (message_typed M) ft y"
      using x less.prems(1) by (fastforce simp: message_typed.simps [of M n v])
    show "Copy M n' z = z"
      if z: "(StructT n' r, z) \<in> set (typed_parts ft y)" "z \<noteq> VNil" for n' r z
    proof -
      have "type_ok ft"
        using x M set_zip_leftD [of "(tag, ft)" y] by (fastforce simp: schema_ok_def)
      then have "message_canonical M n' z"
        using z can typed_parts_typed [OF typed z(1)]
        by (cases ft) (auto simp: image_iff split: if_splits)
      then show ?thesis
        using less.IH [of z n'] zip_fields_size [OF x, of z ft] typed_parts_part [OF z(1)]
          typed_parts_typed [OF typed z(1)] z(2) by simp
    qed
    show "snd kv \<noteq> VNil" if "ft = MapOf k (StructT n' r)" "kv \<in> set (entries y)" for k n' r kv
      using can that by simp
  qed
  then have "map (\<lambda>x. EntryCopy (Copy M) (snd (fst x)) (snd x)) (zip (M n) (msg_fields v))
      = map snd (zip (M n) (msg_fields v))"
    by (intro map_cong refl) auto
  moreover have "v \<noteq> VNil" using v by (cases v) auto
  ultimately show ?case
    using len v by (simp add: Copy.simps [of M n v])
qed

lemma Copy_same_witness: "Copy demo_schema 0 demo_value = demo_value"
  by (rule Copy_same [OF demo_schema_ok demo_typed demo_canonical])

end
