(* ===== verification/Message_Hazards.thy ===== *)
theory Message_Hazards
  imports Message_Properties
begin

section \<open>What the message code does not keep or check\<close>

text \<open>
  Runs of the models on concrete inputs at which the generated code loses data, panics or does
  not return. Each is a statement about the code as written, for every amount of fuel where the
  code never returns.
\<close>

lemmas eval_reader = ReadTagAt_def readVarIntAt_def varint_block_def varint_last_block_def HasNext_def
  NewReader_def iadd_def wrap64_def sl_index_def of_bytes_def int_of_uint64_def wire_type_defs
  getVarIntSize_def

subsection \<open>\<open>Unmarshal\<close> on hostile lengths\<close>

definition backward_bytes :: "byte list" where
  "backward_bytes = [0x0A, 0xF5, 0xFF, 0xFF, 0xFF, 0xFF, 0xFF, 0xFF, 0xFF, 0xFF, 1]"

lemma backward_tag: "ReadTagAt (NewReader (of_bytes backward_bytes)) 0 = Inr (1, 2, 1)"
  by (simp add: eval_reader backward_bytes_def)

lemma backward_skip: "SkipData (Suc k) (NewReader (of_bytes backward_bytes)) 1 2 = Some (Inr 0)"
  by (simp add: eval_reader backward_bytes_def)

lemma backward_next: "HasNext (NewReader (of_bytes backward_bytes)) 0 0"
  by (simp add: eval_reader backward_bytes_def)

text \<open>C37: an 11-byte input on which \<open>Unmarshal\<close> of any message never returns: a length of
  \<open>2\<^sup>6\<^sup>4 - 11\<close> moves the offset back to the start. For a repeated field 1 each
  round also appends to its offsets.\<close>

theorem Unmarshal_never_returns:
  "Unmarshal k fs m (of_bytes backward_bytes) = None"
proof -
  have "unmarshal_loop k fs (NewReader (of_bytes backward_bytes)) 0 sts = None" for sts
  proof (induction k arbitrary: sts)
    case (Suc k)
    have off: "iadd 0 1 = 1" by (simp add: eval_reader)
    show ?case
      using Suc by (cases k) (simp_all add: backward_tag backward_skip backward_next off Let_def del: SkipData.simps(2))
  qed simp
  then show ?thesis by (simp add: Unmarshal_def)
qed

definition negative_bytes :: "byte list" where
  "negative_bytes = [0x0A, 0xF4, 0xFF, 0xFF, 0xFF, 0xFF, 0xFF, 0xFF, 0xFF, 0xFF, 1]"

text \<open>C39: with the length \<open>2\<^sup>6\<^sup>4 - 12\<close> the offset becomes negative, \<open>HasNext\<close> is true
  of it, and \<open>Unmarshal\<close> panics instead of returning an error.\<close>

theorem Unmarshal_panics:
  "\<exists>m'. Unmarshal (Suc (Suc (Suc k))) fs m (of_bytes negative_bytes) = Some (m', Some Panic)"
proof -
  have tag: "ReadTagAt (NewReader (of_bytes negative_bytes)) 0 = Inr (1, 2, 1)"
    and skip: "SkipData (Suc (Suc k)) (NewReader (of_bytes negative_bytes)) 1 2 = Some (Inr (- 1))"
    and more: "HasNext (NewReader (of_bytes negative_bytes)) 0 0" "HasNext (NewReader (of_bytes negative_bytes)) (- 1) 0"
    and bad: "ReadTagAt (NewReader (of_bytes negative_bytes)) (- 1) = Inl Panic"
    and off: "iadd 0 1 = 1"
    by (simp_all add: eval_reader negative_bytes_def)
  show ?thesis
    by (simp add: Unmarshal_def tag skip more bad off Let_def del: SkipData.simps(2))
qed

subsection \<open>Getters that never return\<close>

text \<open>A length-delimited field 1 that holds the single byte \<open>0x80\<close>, an unfinished varint.\<close>

definition unfinished :: slice where
  "unfinished = of_bytes [0x0A, 1, 0x80]"

lemma unfinished_size: "getVarIntSize (NewReader unfinished) 2 = Inl (Fail NotEnoughBytes)"
proof -
  have "(10 :: nat) = Suc (Suc 8)" by simp
  then show ?thesis
    by (simp only: getVarIntSize_def getVarIntSize_loop.simps)
      (simp add: eval_reader unfinished_def)
qed

lemma unfinished_reads:
  "ReadTagAt (NewReader unfinished) 0 = Inr (1, 2, 1)"
  "ReadTagAt (NewReader unfinished) 2 = Inl (Fail InvalidTag)"
  "readVarIntAt (NewReader unfinished) 1 = Inr (1, 1)"
  "readVarIntAt (NewReader unfinished) 2 = Inr (0, - 1)"
  "SkipData (Suc k) (NewReader unfinished) 1 2 = Some (Inr 3)"
  "HasNext (NewReader unfinished) 0 0"
  "\<not> HasNext (NewReader unfinished) 3 0"
  by (simp_all add: eval_reader unfinished_def)

lemma unfinished_skip: "SkipData (Suc k) (NewReader unfinished) 2 0 = Some (Inl (Fail NotEnoughBytes))"
  by (simp add: unfinished_size wire_type_defs)

lemma unfinished_adds:
  "iadd 0 1 = 1" "iadd 1 1 = 2" "iadd 2 0 = 2" "iadd 0 (- 1) = - 1" "iadd 2 (- 1) = 1" "iadd (- 1) 1 = 0"
  by (simp_all add: iadd_def wrap64_def)

lemma unfinished_unmarshal:
  "Unmarshal (Suc (Suc (Suc k))) [(1, ft)] (MsgReader None [fresh_field]) unfinished
     = Some (MsgReader (Some (NewReader unfinished)) [EntryUnmarshalSaveOffsets ft 2 1 fresh_field], None)"
  by (simp add: Unmarshal_def unfinished_reads unfinished_adds Let_def del: SkipData.simps(2))

text \<open>The getter of a packed list of \<open>int32\<close> never returns on this field, which \<open>Unmarshal\<close>
  accepts: the failed read has size -1, the loop steps back and forth and appends for ever.\<close>

lemma packed_getter_never_returns:
  "\<exists>m. Unmarshal (Suc (Suc (Suc k))) [(1, RepeatedPacked (BasicT PInt32 None False) False)]
        (MsgReader None [fresh_field]) unfinished = Some (m, None)
    \<and> (\<forall>fuel. readField fuel (\<lambda>_. [(1, RepeatedPacked (BasicT PInt32 None False) False)]) 0 0 m = None)"
proof -
  let ?s = "BasicT PInt32 None False" and ?p = "NewReader unfinished"
  have one: "int_of_uint64 1 = 1" by (simp add: int_of_uint64_def)
  have reads: "single_sized_reader fuel M ?s ?p 2 = Some (Inr (RVal (V32 0), - 1))"
    "single_sized_reader fuel M ?s ?p 1 = Some (Inr (RVal (V32 1), 1))" for fuel M
    by (simp_all add: SizedReadInt32_def unfinished_reads sized_def)
  have loop: "packed_loop j fuel M ?s ?p 1 1 1 0 acc = None \<and> packed_loop j fuel M ?s ?p 1 1 1 (- 1) acc = None"
    for j fuel M acc
    by (induction j arbitrary: acc) (simp_all add: one reads unfinished_adds del: single_sized_reader.simps)
  have "readField fuel (\<lambda>_. [(1, RepeatedPacked ?s False)]) 0 0
      (MsgReader (Some ?p) [EntryUnmarshalSaveOffsets (RepeatedPacked ?s False) 2 1 fresh_field]) = None" for fuel
    using loop by (simp add: readField_def the_buf_def packed_entry_def wire_type_defs SizedReadVarInt_def unfinished_reads)
  with unfinished_unmarshal show ?thesis by blast
qed

text \<open>Nor does the getter of a map with \<open>int32\<close> keys: errors inside an entry reset the offset
  to 0, outside the entry, from where the loop comes back.\<close>

lemma map_getter_never_returns:
  "\<exists>m. Unmarshal (Suc (Suc (Suc k))) [(1, MapOf (BasicT PInt32 None False) (BasicT PBool None False))]
        (MsgReader None [fresh_field]) unfinished = Some (m, None)
    \<and> (\<forall>fuel. readField fuel (\<lambda>_. [(1, MapOf (BasicT PInt32 None False) (BasicT PBool None False))]) 0 0 m = None)"
proof -
  let ?kt = "BasicT PInt32 None False" and ?vt = "BasicT PBool None False" and ?p = "NewReader unfinished"
  have one: "int_of_uint64 1 = 1" by (simp add: int_of_uint64_def)
  have key: "single_sized_reader fuel M ?kt ?p 1 = Some (Inr (RVal (V32 1), 1))" for fuel M
    by (simp add: SizedReadInt32_def unfinished_reads sized_def)
  have tags: "tag_or_zero ?p 2 = Inr (0, 0, 0)" "tag_or_zero ?p 0 = Inr (1, 2, 1)"
    by (simp_all add: tag_or_zero_def unfinished_reads)
  have skip: "skip_or_zero fuel ?p 2 0 = None \<or> skip_or_zero fuel ?p 2 0 = Some (Inr 0)" for fuel
    by (cases fuel) (simp_all add: skip_or_zero_def unfinished_skip del: SkipData.simps(2))
  have loop: "map_entry_loop j fuel M ?kt ?vt ?p 2 3 a b = None \<and> map_entry_loop j fuel M ?kt ?vt ?p 0 3 a b = None"
    for j fuel M a b
    using skip [of fuel]
    by (induction j arbitrary: a b) (auto simp add: key tags unfinished_adds Let_def simp del: single_sized_reader.simps)
  have "iadd 2 1 = 3" by (simp add: iadd_def wrap64_def)
  then have "readField fuel (\<lambda>_. [(1, MapOf ?kt ?vt)]) 0 0
      (MsgReader (Some ?p) [EntryUnmarshalSaveOffsets (MapOf ?kt ?vt) 2 1 fresh_field]) = None" for fuel
    using loop by (simp add: readField_def the_buf_def map_entry_def SizedReadVarInt_def unfinished_reads
        unfinished_adds one Let_def)
  with unfinished_unmarshal show ?thesis by blast
qed

subsection \<open>Values that do not come back\<close>

definition empty_entry_schema :: schema where
  "empty_entry_schema n =
     (if n = 0 then [(1, MapOf (BasicT PString None False) (StructT 1 False))]
      else if n = 1 then [(1, Single (BasicT PBool None False))] else [])"

definition empty_entry :: gval where
  "empty_entry = VMsg [VMap [(VStr [97], VMsg [VBool False])]]"

lemma empty_entry_fields [simp]:
  "empty_entry_schema 0 = [(1, MapOf (BasicT PString None False) (StructT 1 False))]"
  "empty_entry_schema (Suc 0) = [(1, Single (BasicT PBool None False))]"
  by (simp_all add: empty_entry_schema_def)

lemma empty_entry_facts:
  "schema_ok empty_entry_schema" "message_typed empty_entry_schema 0 empty_entry"
  "message_bytes empty_entry_schema (Suc 0) (VMsg [VBool False]) = []"
  by (simp_all add: schema_ok_def empty_entry_schema_def valid_tag_def message_typed.simps empty_entry_def
      message_bytes.simps present_fields_def go_eq_def)

lemma empty_entry_bytes: "length (message_bytes empty_entry_schema 0 empty_entry) = 7"
  by (simp add: message_bytes.simps [of empty_entry_schema 0] empty_entry_facts(3) demo_bytes(2-) empty_entry_def)

text \<open>A map entry whose message has only default values is written, but \<open>ToStruct\<close> of the
  reader drops its key: the map comes back empty.\<close>

lemma empty_map_entry_lost:
  "\<exists>s m. Marshal empty_entry_schema 0 empty_entry = Inr s \<and> sl_len s = 7
    \<and> Unmarshal 8 (empty_entry_schema 0) (NewMsgReader empty_entry_schema 0) s = Some (m, None)
    \<and> ToStruct 8 8 empty_entry_schema 0 m = Some (Inr (VMsg [VMap []]))"
proof -
  have v: "empty_entry \<noteq> VNil" by (simp add: empty_entry_def)
  from Marshal_bytes [OF empty_entry_facts(1) v, of 0] obtain s where
    s: "Marshal empty_entry_schema 0 empty_entry = Inr s"
      "sl_bytes s = message_bytes empty_entry_schema 0 empty_entry" "sl_wf s"
    by (auto simp: empty_entry_bytes)
  then have len: "sl_len s = 7" using length_sl_bytes empty_entry_bytes by metis
  have "message_norm empty_entry_schema 0 empty_entry = VMsg [VMap []]"
    by (simp add: message_norm.simps [of _ 0] empty_entry_def field_norm_def empty_entry_facts(3))
  with marshal_back [OF empty_entry_facts(1,2), of 8 7] s len show ?thesis
    by (auto simp: empty_entry_bytes)
qed

text \<open>A negative zero is equal to the default for Go's \<open>!=\<close>, so it is not written: the
  message marshals to nothing and the sign is lost.\<close>

lemma negative_zero_not_written:
  "Marshal (\<lambda>_. [(1, Single (BasicT PDouble None False))]) 0 (VMsg [V64 0x8000000000000000]) = Inr nil_slice"
  by (simp add: Marshal_def XXX_PbContentSize.simps present_fields_def go_eq_def float64_eq_def float64_nan_def
      isum_def)

end
