(* ===== verification/Servo_Memory.thy ===== *)
theory Servo_Memory
  imports Go_Runtime
begin

section \<open>The ST3215 servo's memory map\<close>

text \<open>
  \<^verbatim>\<open>software/drivers/st3215/memory.go\<close>: the driver reads positions, current, velocity and
  status out of a dump of the servo's registers. Every index of the code is a read that may
  panic (\<open>reg\<close>), and the theorems show that the length checks rule this out for any input.
\<close>

definition ADDR_PRESENT_POSITION :: nat where "ADDR_PRESENT_POSITION = 0x38"
definition ADDR_PRESENT_CURRENT :: nat where "ADDR_PRESENT_CURRENT = 0x45"
definition ADDR_PRESENT_VELOCITY :: nat where "ADDR_PRESENT_VELOCITY = 0x3A"
definition ADDR_GOAL_POSITION :: nat where "ADDR_GOAL_POSITION = 0x2A"
definition ADDR_STATUS :: nat where "ADDR_STATUS = 0x40"
definition ADDR_TORQUE_ENABLE :: nat where "ADDR_TORQUE_ENABLE = 0x28"
definition SIGN_BIT_MASK :: uint16 where "SIGN_BIT_MASK = 0x8000"
definition MAX_ANGLE_STEP :: uint16 where "MAX_ANGLE_STEP = 4095"
definition BUFFER_SIZE :: nat where "BUFFER_SIZE = 0x47"

lemmas servo_map = ADDR_PRESENT_POSITION_def ADDR_PRESENT_CURRENT_def ADDR_PRESENT_VELOCITY_def
  ADDR_GOAL_POSITION_def ADDR_STATUS_def ADDR_TORQUE_ENABLE_def SIGN_BIT_MASK_def MAX_ANGLE_STEP_def
  BUFFER_SIZE_def

text \<open>\<open>data[i]\<close>\<close>

definition reg :: "byte list \<Rightarrow> nat \<Rightarrow> unit fault + byte" where
  "reg data i = (if i < length data then Inr (data ! i) else Inl Panic)"

text \<open>\<open>uint16(data[i]) | uint16(data[i+1])<<8\<close>\<close>

definition reg16 :: "byte list \<Rightarrow> nat \<Rightarrow> unit fault + uint16" where
  "reg16 data i =
     andThen (reg data i) (\<lambda>lo. andThen (reg data (i + 1)) (\<lambda>hi. Inr (ucast lo OR push_bit 8 (ucast hi))))"

definition GetMotorPosition :: "byte list \<Rightarrow> unit fault + uint16" where
  "GetMotorPosition data =
     (if length data < ADDR_PRESENT_POSITION + 2 then Inr 0
      else andThen (reg16 data ADDR_PRESENT_POSITION) (\<lambda>position.
        if position AND SIGN_BIT_MASK \<noteq> 0 then
          (let magnitude = position AND MAX_ANGLE_STEP
           in Inr ((MAX_ANGLE_STEP + 1 - magnitude) AND MAX_ANGLE_STEP))
        else Inr (position AND MAX_ANGLE_STEP)))"

definition GetMotorGoalPosition :: "byte list \<Rightarrow> unit fault + uint16" where
  "GetMotorGoalPosition data =
     (if length data < ADDR_GOAL_POSITION + 2 then Inr 0
      else andThen (reg data ADDR_TORQUE_ENABLE) (\<lambda>b.
        if \<not> (b \<noteq> 0) then GetMotorPosition data
        else reg16 data ADDR_GOAL_POSITION))"

definition GetMotorCurrent :: "byte list \<Rightarrow> unit fault + uint16" where
  "GetMotorCurrent data =
     (if length data < ADDR_PRESENT_CURRENT + 2 then Inr 0 else reg16 data ADDR_PRESENT_CURRENT)"

definition GetMotorVelocity :: "byte list \<Rightarrow> unit fault + uint16" where
  "GetMotorVelocity data =
     (if length data < ADDR_PRESENT_VELOCITY + 2 then Inr 0 else reg16 data ADDR_PRESENT_VELOCITY)"

definition IsError :: "byte list \<Rightarrow> unit fault + bool" where
  "IsError data =
     (if length data < BUFFER_SIZE then Inr True
      else andThen (reg data ADDR_STATUS) (\<lambda>b. Inr (b \<noteq> 0)))"

definition IsTorqueEnabled :: "byte list \<Rightarrow> unit fault + bool" where
  "IsTorqueEnabled data =
     (if length data < ADDR_TORQUE_ENABLE + 1 then Inr False
      else andThen (reg data ADDR_TORQUE_ENABLE) (\<lambda>b. Inr (b \<noteq> 0)))"

lemma reg_in: "i < length data \<Longrightarrow> reg data i = Inr (data ! i)"
  by (simp add: reg_def)

lemma reg16_in: "i + 1 < length data \<Longrightarrow> reg16 data i = Inr (ucast (data ! i) OR push_bit 8 (ucast (data ! (i + 1))))"
  by (simp add: reg16_def reg_in)

text \<open>The register pair as the number it stores, little endian.\<close>

lemma reg16_value:
  "unat (ucast (lo :: byte) OR push_bit 8 (ucast (hi :: byte)) :: uint16) = unat lo + 256 * unat hi"
proof -
  have "(ucast lo :: uint16) AND push_bit 8 (ucast hi) = 0"
    by (rule bit_word_eqI) (auto simp: bit_simps dest: bit_imp_le_length)
  then have "(ucast lo :: uint16) OR push_bit 8 (ucast hi) = ucast lo + push_bit 8 (ucast hi)"
    by (simp add: disjunctive_add_eq_or)
  also have "\<dots> = of_nat (unat lo + 256 * unat hi)"
    by (simp add: push_bit_eq_mult)
  finally show ?thesis
    using unat_byte_less [of lo] unat_byte_less [of hi] by (simp add: unat_of_nat del: of_nat_add of_nat_mult)
qed

text \<open>The position register is sign and magnitude; the code gives the angle step modulo a turn.\<close>

definition signed_position :: "uint16 \<Rightarrow> int" where
  "signed_position raw =
     (if bit raw 15 then - int (unat raw mod 4096) else int (unat raw mod 4096))"

lemma mask_4095: "unat ((x :: uint16) AND 4095) = unat x mod 4096"
proof -
  have "unat (x AND 4095) = unat x AND mask 12" by (simp add: unsigned_and_eq mask_eq_exp_minus_1)
  then show ?thesis by (simp only: take_bit_eq_mask [symmetric]) (simp add: take_bit_eq_mod)
qed

lemma sign_bit: "(x :: uint16) AND 0x8000 \<noteq> 0 \<longleftrightarrow> bit x 15"
  using bit_iff_and_push_bit_not_eq_0 [of x 15] by (simp add: push_bit_eq_mult)

lemma negate_4095: "unat ((4096 - (m AND 4095)) AND 4095 :: uint16) = nat ((- int (unat (m :: uint16) mod 4096)) mod 4096)"
proof -
  let ?k = "unat m mod 4096"
  have k: "?k < 4096" by simp
  have "m AND 4095 = (of_nat ?k :: uint16)" by (simp only: mask_4095 [symmetric]) simp
  then have "4096 - (m AND 4095) = (of_nat (4096 - ?k) :: uint16)" using k by (simp add: of_nat_diff)
  then have "unat ((4096 - (m AND 4095)) AND 4095) = (4096 - ?k) mod 4096"
    using k by (simp only: mask_4095 unat_of_nat) (simp add: mod_mod_cancel)
  also have "\<dots> = nat ((- int ?k) mod 4096)"
    using k by (cases "?k = 0") (simp_all add: zmod_zminus1_eq_if nat_diff_distrib')
  finally show ?thesis .
qed

text \<open>On any register dump, however short, no accessor panics.\<close>

lemma servo_reads_total:
  "GetMotorPosition data \<noteq> Inl e \<and> GetMotorGoalPosition data \<noteq> Inl e \<and> GetMotorCurrent data \<noteq> Inl e
 \<and> GetMotorVelocity data \<noteq> Inl e \<and> IsError data \<noteq> Inl e \<and> IsTorqueEnabled data \<noteq> Inl e"
proof -
  have "GetMotorPosition data \<noteq> Inl e"
    by (simp add: GetMotorPosition_def servo_map reg16_in Let_def)
  then show ?thesis
    by (simp add: GetMotorGoalPosition_def GetMotorCurrent_def GetMotorVelocity_def IsError_def
        IsTorqueEnabled_def servo_map reg16_in reg_in)
qed

text \<open>The position is the sign-and-magnitude register modulo one turn of 4096 steps, hence
  below 4096.\<close>

lemma GetMotorPosition_angle:
  assumes "ADDR_PRESENT_POSITION + 2 \<le> length data"
  shows "\<exists>raw p. reg16 data ADDR_PRESENT_POSITION = Inr raw \<and> GetMotorPosition data = Inr p
    \<and> unat raw = unat (data ! 0x38) + 256 * unat (data ! 0x39)
    \<and> int (unat p) = signed_position raw mod 4096 \<and> unat p < 4096"
proof -
  let ?raw = "ucast (data ! 0x38) OR push_bit 8 (ucast (data ! 0x39)) :: uint16"
  have raw: "reg16 data ADDR_PRESENT_POSITION = Inr ?raw"
    using assms by (simp add: servo_map reg16_in)
  let ?p = "if bit ?raw 15 then (4096 - (?raw AND 4095)) AND 4095 else ?raw AND 4095"
  have "GetMotorPosition data = Inr ?p"
    using assms raw by (simp add: GetMotorPosition_def servo_map sign_bit Let_def)
  moreover have "int (unat ?p) = signed_position ?raw mod 4096"
  proof (cases "bit ?raw 15")
    case True
    then show ?thesis
      by (simp add: signed_position_def negate_4095 del: unat_eq_nat_uint)
  next
    case False
    then show ?thesis
      by (simp only: signed_position_def mask_4095 if_False) (simp add: zmod_int)
  qed
  moreover have "unat ?p < 4096" by (simp add: mask_4095)
  ultimately show ?thesis using raw reg16_value by blast
qed

lemma GetMotorPosition_angle_witness:
  "\<exists>raw p. reg16 (replicate 0x39 0 @ [0x80]) ADDR_PRESENT_POSITION = Inr raw
    \<and> GetMotorPosition (replicate 0x39 0 @ [0x80]) = Inr p
    \<and> unat raw = unat ((replicate 0x39 (0 :: byte) @ [0x80]) ! 0x38) + 256 * unat ((replicate 0x39 (0 :: byte) @ [0x80]) ! 0x39)
    \<and> int (unat p) = signed_position raw mod 4096 \<and> unat p < 4096"
  by (rule GetMotorPosition_angle) (simp add: servo_map)

end
