(* ===== verification/Station_Queue.thy ===== *)
theory Station_Queue
  imports Go_Runtime
begin

section \<open>Pointers and queues of the station\<close>

text \<open>
  The dataset tools address entries of a station's queues by pointers of type \<^verbatim>\<open>uintn.UintN\<close> and
  read them with \<^verbatim>\<open>ReadFromOffset\<close>. Both come from the \<^verbatim>\<open>normfs\<close> module, which is not part of the
  repository: the record \<open>uintn\<close> holds the operations the tools call, \<open>batch\<close> what one read
  delivers. What the tools rely on is stated as \<open>uintn_ok\<close>, the meaning of the operations on
  the numbers \<open>val\<close> they stand for, and \<open>stored\<close>, a read of a queue that holds fixed entries.
\<close>

record 'p uintn =
  Greater :: "'p \<Rightarrow> 'p \<Rightarrow> bool"
  Less :: "'p \<Rightarrow> 'p \<Rightarrow> bool"
  Equal :: "'p \<Rightarrow> 'p \<Rightarrow> bool"
  IsZero :: "'p option \<Rightarrow> unit fault + bool"
  Add :: "'p \<Rightarrow> 'p \<Rightarrow> 'p option"
  Sub :: "'p \<Rightarrow> 'p \<Rightarrow> 'p option"
  FromU8 :: "byte \<Rightarrow> 'p"
  FromU64 :: "uint64 \<Rightarrow> 'p"
  FromLEBytes :: "byte list \<Rightarrow> 'p option"

text \<open>Entries in the order of the channel, and whether \<open>res.Err\<close> is set once it is closed.\<close>

record 'p batch =
  Data :: "('p \<times> byte list) list"
  Err :: bool

type_synonym 'p client = "'p \<Rightarrow> nat \<Rightarrow> 'p batch"

definition uintn_ok :: "'p uintn \<Rightarrow> ('p \<Rightarrow> nat) \<Rightarrow> bool" where
  "uintn_ok U val \<longleftrightarrow>
     (\<forall>a b. Greater U a b \<longleftrightarrow> val a > val b) \<and> (\<forall>a b. Less U a b \<longleftrightarrow> val a < val b)
   \<and> (\<forall>a b. Equal U a b \<longleftrightarrow> val a = val b)
   \<and> (\<forall>a. IsZero U (Some a) = Inr (val a = 0))
   \<and> (\<forall>a b c. Add U a b = Some c \<longrightarrow> val c = val a + val b)
   \<and> (\<forall>a b c. Sub U a b = Some c \<longrightarrow> val c + val b = val a)
   \<and> (\<forall>b. val (FromU8 U b) = unat b) \<and> (\<forall>b. val (FromU64 U b) = unat b)"

lemma uintn_okD:
  assumes "uintn_ok U val"
  shows "Greater U a b \<longleftrightarrow> val a > val b" "Less U a b \<longleftrightarrow> val a < val b" "Equal U a b \<longleftrightarrow> val a = val b"
    "IsZero U (Some a) = Inr (val a = 0)" "Add U a b = Some c \<Longrightarrow> val c = val a + val b"
    "Sub U a b = Some c \<Longrightarrow> val c + val b = val a"
    "val (FromU8 U x) = unat x" "val (FromU64 U y) = unat y"
  using assms by (simp_all add: uintn_ok_def)

text \<open>A queue with the given entries: a read returns the first \<open>n\<close> from the offset on, without
  an error. Ids grow strictly.\<close>

definition stored :: "('p \<Rightarrow> nat) \<Rightarrow> ('p \<times> byte list) list \<Rightarrow> 'p client" where
  "stored val es = (\<lambda>off n. \<lparr>Data = take n (filter (\<lambda>e. val off \<le> val (fst e)) es), Err = False\<rparr>)"

definition ids_grow :: "('p \<Rightarrow> nat) \<Rightarrow> ('p \<times> byte list) list \<Rightarrow> bool" where
  "ids_grow val es \<longleftrightarrow> sorted_wrt (\<lambda>a b. val (fst a) < val (fst b)) es"

text \<open>Pointers as natural numbers, for evaluation.\<close>

definition nat_uintn :: "nat uintn" where
  "nat_uintn = \<lparr>Greater = (\<lambda>a b. a > b), Less = (\<lambda>a b. a < b), Equal = (\<lambda>a b. a = b),
     IsZero = (\<lambda>a. case a of None \<Rightarrow> Inl Panic | Some a \<Rightarrow> Inr (a = 0)),
     Add = (\<lambda>a b. Some (a + b)), Sub = (\<lambda>a b. if b \<le> a then Some (a - b) else None),
     FromU8 = unat, FromU64 = unat,
     FromLEBytes = (\<lambda>bs. Some (foldr (\<lambda>b n. unat b + 256 * n) bs 0))\<rparr>"

lemma nat_uintn_ok: "uintn_ok nat_uintn (\<lambda>x. x)"
  by (auto simp: uintn_ok_def nat_uintn_def)

end
