(* ===== verification/Queue_Bounds.thy ===== *)
theory Queue_Bounds
  imports Station_Queue
begin

section \<open>Finding the bounds of a queue\<close>

text \<open>
  \<^verbatim>\<open>station/bin/dataset-generator/internal/bounds.go\<close>: a range of \<^verbatim>\<open>inference-states\<close> is mapped to a
  range of a target queue by looking for entries that mention the queue, at the end points and
  then in batches, forward from the start and backward from the end. \<open>rx\<close> is the generated
  reader of an entry: \<open>None\<close> when its \<open>Unmarshal\<close> fails, else the queues it names with the bytes
  of their pointers. The loops take fuel; they stop on every queue that delivers what it is
  asked for (below).
\<close>

definition searchStep :: nat where "searchStep = 10000"

record 'p QueueBounds =
  From :: 'p
  To :: 'p

datatype 'p qerror =
    ReadFailed
  | PtrFailed string
  | NotFound string 'p 'p
  | NoEntries 'p
  | IncrementFailed
  | CheckFrom "'p qerror"
  | SearchFrom "'p qerror"
  | CheckTo "'p qerror"
  | SearchTo "'p qerror"
  | FetchFrom "'p qerror"
  | FetchTo "'p qerror"

type_synonym ('p, 'a) qres = "'p qerror fault + 'a"
type_synonym rx = "byte list \<Rightarrow> (string \<times> byte list) list option"

definition queueMatchesByPostfix :: "string \<Rightarrow> string \<Rightarrow> bool" where
  "queueMatchesByPostfix queueName targetQueue =
     (if queueName = targetQueue then True
      else let suffix = ''/'' @ targetQueue in
        length queueName > length suffix \<and> drop (length queueName - length suffix) queueName = suffix)"

text \<open>The loop over the queues of one entry: the first that matches decides.\<close>

fun find_queue :: "'p uintn \<Rightarrow> string \<Rightarrow> (string \<times> byte list) list \<Rightarrow> ('p, 'p option) qres" where
  "find_queue U targetQueue [] = Inr None"
| "find_queue U targetQueue ((queueName, ptr) # es) =
     (if queueMatchesByPostfix queueName targetQueue then
        (case FromLEBytes U ptr of None \<Rightarrow> Inl (Fail (PtrFailed queueName)) | Some p \<Rightarrow> Inr (Some p))
      else find_queue U targetQueue es)"

definition tryFindQueueAtPtr :: "'p uintn \<Rightarrow> 'p client \<Rightarrow> rx \<Rightarrow> 'p \<Rightarrow> string \<Rightarrow> ('p, 'p option) qres" where
  "tryFindQueueAtPtr U client rx inferencePtr targetQueue =
     (let res = client inferencePtr 1 in
      case Data res of
        [] \<Rightarrow> if Err res then Inl (Fail ReadFailed) else Inr None
      | entry # _ \<Rightarrow>
          (case rx (snd entry) of None \<Rightarrow> Inr None | Some es \<Rightarrow> find_queue U targetQueue es))"

subsection \<open>Forward\<close>

fun scan_forward :: "'p uintn \<Rightarrow> rx \<Rightarrow> string \<Rightarrow> ('p \<times> byte list) list \<Rightarrow> ('p, 'p option) qres" where
  "scan_forward U rx targetQueue [] = Inr None"
| "scan_forward U rx targetQueue (entry # es) =
     (case rx (snd entry) of
        None \<Rightarrow> scan_forward U rx targetQueue es
      | Some qs \<Rightarrow> andThen (find_queue U targetQueue qs) (\<lambda>r.
          case r of Some p \<Rightarrow> Inr (Some p) | None \<Rightarrow> scan_forward U rx targetQueue es))"

fun searchForwardForQueue :: "nat \<Rightarrow> 'p uintn \<Rightarrow> 'p client \<Rightarrow> rx \<Rightarrow> 'p \<Rightarrow> 'p \<Rightarrow> string \<Rightarrow> 'p \<Rightarrow> ('p, 'p) qres option" where
  "searchForwardForQueue 0 U client rx startPtr endPtr targetQueue currentPtr = None"
| "searchForwardForQueue (Suc k) U client rx startPtr endPtr targetQueue currentPtr =
     (if Greater U currentPtr endPtr \<or> Equal U currentPtr endPtr
      then Some (Inl (Fail (NotFound targetQueue startPtr endPtr)))
      else let res = client currentPtr searchStep in
        bindO (Some (scan_forward U rx targetQueue (Data res))) (\<lambda>r.
        case r of
          Some ptr \<Rightarrow> Some (Inr ptr)
        | None \<Rightarrow>
            if Err res then Some (Inl (Fail ReadFailed))
            else if length (Data res) = 0 then Some (Inl (Fail (NoEntries currentPtr)))
            else (case Add U (fst (last (Data res))) (FromU8 U 1) of
                    None \<Rightarrow> Some (Inl (Fail IncrementFailed))
                  | Some currentPtr \<Rightarrow>
                      searchForwardForQueue k U client rx startPtr endPtr targetQueue currentPtr)))"

subsection \<open>Backward\<close>

text \<open>The last pointer of the matching queues of one entry; pointers that cannot be parsed are
  passed over.\<close>

definition last_queue :: "'p uintn \<Rightarrow> string \<Rightarrow> (string \<times> byte list) list \<Rightarrow> 'p option \<Rightarrow> 'p option" where
  "last_queue U targetQueue qs found =
     foldl (\<lambda>found (queueName, ptr).
       if queueMatchesByPostfix queueName targetQueue then
         (case FromLEBytes U ptr of None \<Rightarrow> found | Some p \<Rightarrow> Some p)
       else found) found qs"

text \<open>One batch: the id of the last entry looked at, and the last match up to \<open>currentPtr\<close>.\<close>

fun scan_backward :: "'p uintn \<Rightarrow> rx \<Rightarrow> string \<Rightarrow> 'p \<Rightarrow> ('p \<times> byte list) list \<Rightarrow> 'p option \<times> 'p option \<Rightarrow>
    'p option \<times> 'p option" where
  "scan_backward U rx targetQueue currentPtr [] s = s"
| "scan_backward U rx targetQueue currentPtr (entry # es) (lastEntryPtr, found) =
     (let lastEntryPtr = Some (fst entry) in
      if Greater U (fst entry) currentPtr then (lastEntryPtr, found)
      else (case rx (snd entry) of
              None \<Rightarrow> scan_backward U rx targetQueue currentPtr es (lastEntryPtr, found)
            | Some qs \<Rightarrow> scan_backward U rx targetQueue currentPtr es
                (lastEntryPtr, last_queue U targetQueue qs found)))"

definition batch_start :: "'p uintn \<Rightarrow> 'p \<Rightarrow> 'p \<Rightarrow> 'p" where
  "batch_start U startPtr currentPtr =
     (case Sub U currentPtr (FromU64 U (of_nat searchStep)) of
        None \<Rightarrow> startPtr
      | Some stepPtr \<Rightarrow> if Greater U stepPtr startPtr then stepPtr else startPtr)"

text \<open>The pointer of the next round; \<open>&&\<close> reads \<open>lastEntryPtr\<close> only when it is not zero.\<close>

definition next_current :: "'p uintn \<Rightarrow> 'p \<Rightarrow> 'p \<Rightarrow> 'p option \<Rightarrow> ('p, 'p) qres" where
  "next_current U batchStart currentPtr lastEntryPtr =
     (case IsZero U lastEntryPtr of
        Inl _ \<Rightarrow> Inl Panic
      | Inr True \<Rightarrow> Inr batchStart
      | Inr False \<Rightarrow>
          (case lastEntryPtr of
             None \<Rightarrow> Inl Panic
           | Some l \<Rightarrow> Inr (if Less U l currentPtr then l else batchStart)))"

fun searchBackwardForQueue :: "nat \<Rightarrow> 'p uintn \<Rightarrow> 'p client \<Rightarrow> rx \<Rightarrow> 'p \<Rightarrow> 'p \<Rightarrow> string \<Rightarrow> 'p \<Rightarrow> ('p, 'p) qres option" where
  "searchBackwardForQueue 0 U client rx startPtr endPtr targetQueue currentPtr = None"
| "searchBackwardForQueue (Suc k) U client rx startPtr endPtr targetQueue currentPtr =
     (if Less U currentPtr startPtr \<or> Equal U currentPtr startPtr
      then Some (Inl (Fail (NotFound targetQueue startPtr endPtr)))
      else
        let batchStart = batch_start U startPtr currentPtr;
            res = client batchStart searchStep;
            (lastEntryPtr, found) = scan_backward U rx targetQueue currentPtr (Data res) (None, None)
        in
        if Err res then Some (Inl (Fail ReadFailed))
        else case found of
          Some ptr \<Rightarrow> Some (Inr ptr)
        | None \<Rightarrow>
            bindO (Some (next_current U batchStart currentPtr lastEntryPtr)) (\<lambda>currentPtr.
              if Equal U currentPtr startPtr then Some (Inl (Fail (NotFound targetQueue startPtr endPtr)))
              else searchBackwardForQueue k U client rx startPtr endPtr targetQueue currentPtr))"

subsection \<open>Both bounds\<close>

definition map_fault :: "('e \<Rightarrow> 'g) \<Rightarrow> 'e fault + 'a \<Rightarrow> 'g fault + 'a" where
  "map_fault f m = (case m of Inl Panic \<Rightarrow> Inl Panic | Inl (Fail e) \<Rightarrow> Inl (Fail (f e)) | Inr x \<Rightarrow> Inr x)"

text \<open>One goroutine: the entry at the pointer itself, else the search.\<close>

definition find_bound :: "('p qerror \<Rightarrow> 'p qerror) \<Rightarrow> ('p qerror \<Rightarrow> 'p qerror) \<Rightarrow> ('p, 'p option) qres \<Rightarrow>
    ('p, 'p) qres option \<Rightarrow> ('p, 'p) qres option" where
  "find_bound check search first rest =
     bindO (Some (map_fault check first)) (\<lambda>ptr.
       case ptr of Some p \<Rightarrow> Some (Inr p) | None \<Rightarrow> map_option (map_fault search) rest)"

text \<open>The two goroutines write different variables and are joined before the results are read, so
  their order does not matter; a panic in either ends the program.\<close>

definition FetchQueueBounds :: "nat \<Rightarrow> 'p uintn \<Rightarrow> 'p client \<Rightarrow> rx \<Rightarrow> 'p \<Rightarrow> 'p \<Rightarrow> string \<Rightarrow>
    ('p, 'p QueueBounds) qres option" where
  "FetchQueueBounds k U client rx fromPtr toPtr targetQueue =
     (case (find_bound CheckFrom SearchFrom (tryFindQueueAtPtr U client rx fromPtr targetQueue)
              (searchForwardForQueue k U client rx fromPtr toPtr targetQueue fromPtr),
            find_bound CheckTo SearchTo (tryFindQueueAtPtr U client rx toPtr targetQueue)
              (searchBackwardForQueue k U client rx fromPtr toPtr targetQueue toPtr)) of
        (None, _) \<Rightarrow> None
      | (_, None) \<Rightarrow> None
      | (Some (Inl Panic), _) \<Rightarrow> Some (Inl Panic)
      | (_, Some (Inl Panic)) \<Rightarrow> Some (Inl Panic)
      | (Some (Inl (Fail e)), _) \<Rightarrow> Some (Inl (Fail (FetchFrom e)))
      | (_, Some (Inl (Fail e))) \<Rightarrow> Some (Inl (Fail (FetchTo e)))
      | (Some (Inr f), Some (Inr t)) \<Rightarrow> Some (Inr \<lparr>From = f, To = t\<rparr>))"

end
