(* ===== verification/Queue_Properties.thy ===== *)
theory Queue_Properties
  imports Queue_Bounds
begin

section \<open>Properties of the bounds search\<close>

text \<open>
  Over a queue with fixed entries (\<open>stored\<close>) and pointers that behave as numbers (\<open>uintn_ok\<close>)
  both searches end within a number of rounds given by the range, the forward search finds what
  one pass over all entries would find, and the backward search returns a match inside the
  range. Two further theorems show where the code differs from its comments.
\<close>

text \<open>A queue name matches when it is the target or ends in a slash and the target after at
  least one more character.\<close>

lemma queueMatchesByPostfix_iff:
  "queueMatchesByPostfix queueName targetQueue \<longleftrightarrow>
     queueName = targetQueue \<or> (\<exists>p. p \<noteq> [] \<and> queueName = p @ ''/'' @ targetQueue)"
proof -
  have "(\<exists>p. p \<noteq> [] \<and> queueName = p @ suffix) \<longleftrightarrow>
      length queueName > length suffix \<and> drop (length queueName - length suffix) queueName = suffix" for suffix
  proof
    assume r: "length queueName > length suffix \<and> drop (length queueName - length suffix) queueName = suffix"
    then have "queueName = take (length queueName - length suffix) queueName @ suffix"
      by (metis append_take_drop_id)
    moreover have "take (length queueName - length suffix) queueName \<noteq> []" using r by auto
    ultimately show "\<exists>p. p \<noteq> [] \<and> queueName = p @ suffix" by blast
  qed auto
  from this [of "''/'' @ targetQueue"] show ?thesis by (simp add: queueMatchesByPostfix_def Let_def)
qed

subsection \<open>Batches of a stored queue\<close>

lemma ids_grow_filter: "ids_grow val es \<Longrightarrow> ids_grow val (filter P es)"
  unfolding ids_grow_def by (rule sorted_wrt_filter)

lemma ids_grow_append:
  "ids_grow val (xs @ ys) \<longleftrightarrow> ids_grow val xs \<and> ids_grow val ys \<and> (\<forall>x \<in> set xs. \<forall>y \<in> set ys. val (fst x) < val (fst y))"
  by (simp add: ids_grow_def sorted_wrt_append)

lemma ids_grow_last: "ids_grow val xs \<Longrightarrow> e \<in> set xs \<Longrightarrow> val (fst e) \<le> val (fst (last xs))"
  by (cases xs rule: rev_cases) (auto simp: ids_grow_append)

text \<open>What is left of a queue behind the last entry of a batch.\<close>

lemma stored_next:
  assumes grow: "ids_grow val es" and F: "F = filter (\<lambda>e. c \<le> val (fst e)) es"
    and ne: "take n F \<noteq> []" and c': "c' = val (fst (last (take n F))) + 1"
  shows "filter (\<lambda>e. c' \<le> val (fst e)) es = drop n F"
proof -
  let ?l = "last (take n F)"
  have l: "?l \<in> set F" using ne by (meson in_set_takeD last_in_set)
  then have cl: "c \<le> val (fst ?l)" by (simp add: F)
  have growF: "ids_grow val (take n F @ drop n F)" using ids_grow_filter [OF grow] by (simp add: F)
  have "filter (\<lambda>e. c' \<le> val (fst e)) es = filter (\<lambda>e. c' \<le> val (fst e)) F"
    unfolding F filter_filter by (rule filter_cong) (use cl c' in auto)
  also have "F = take n F @ drop n F" by simp
  also have "filter (\<lambda>e. c' \<le> val (fst e)) (take n F @ drop n F) = drop n F"
  proof -
    have "ids_grow val (take n F)" using growF ids_grow_append by blast
    then have "val (fst e) \<le> val (fst ?l)" if "e \<in> set (take n F)" for e
      using that by (rule ids_grow_last)
    then have "filter (\<lambda>e. c' \<le> val (fst e)) (take n F) = []"
      unfolding filter_empty_conv using c' by fastforce
    moreover have "filter (\<lambda>e. c' \<le> val (fst e)) (drop n F) = drop n F"
    proof (intro filter_True ballI)
      fix e assume "e \<in> set (drop n F)"
      then have "val (fst ?l) < val (fst e)"
        using growF ne last_in_set [OF ne] unfolding ids_grow_append by blast
      then show "c' \<le> val (fst e)" using c' by simp
    qed
    ultimately show ?thesis unfolding filter_append by simp
  qed
  finally show ?thesis .
qed

lemma stored_last_ge:
  assumes "take n (filter (\<lambda>e. c \<le> val (fst e)) es) \<noteq> []"
  shows "c \<le> val (fst (last (take n (filter (\<lambda>e. c \<le> val (fst e)) es))))"
proof -
  have "last (take n (filter (\<lambda>e. c \<le> val (fst e)) es)) \<in> set (filter (\<lambda>e. c \<le> val (fst e)) es)"
    using assms by (meson in_set_takeD last_in_set)
  then show ?thesis by simp
qed

subsection \<open>Forward\<close>

lemma scan_forward_append:
  "scan_forward U rx tq (xs @ ys) = andThen (scan_forward U rx tq xs)
     (\<lambda>r. case r of Some p \<Rightarrow> Inr (Some p) | None \<Rightarrow> scan_forward U rx tq ys)"
proof (induction xs)
  case (Cons x xs)
  show ?case
  proof (cases "rx (snd x)")
    case (Some qs)
    then show ?thesis
      using Cons by (cases "find_queue U tq qs") (auto split: option.splits)
  qed (simp add: Cons)
qed simp

lemma searchForward_result:
  assumes "uintn_ok U val" and "ids_grow val es" and "val endPtr - val currentPtr < k"
  shows "\<exists>r. searchForwardForQueue k U (stored val es) rx startPtr endPtr tq currentPtr = Some r \<and> r \<noteq> Inl Panic
    \<and> (\<forall>p. r = Inr p \<longrightarrow>
        scan_forward U rx tq (filter (\<lambda>e. val currentPtr \<le> val (fst e)) es) = Inr (Some p))"
  using assms(3)
proof (induction k arbitrary: currentPtr)
  case (Suc k)
  note U = uintn_okD [OF assms(1)]
  let ?F = "filter (\<lambda>e. val currentPtr \<le> val (fst e)) es"
  let ?B = "take searchStep ?F"
  have data: "Data (stored val es currentPtr searchStep) = ?B" "Err (stored val es currentPtr searchStep) = False"
    by (simp_all add: stored_def)
  have scan_F: "scan_forward U rx tq ?F = andThen (scan_forward U rx tq ?B)
     (\<lambda>r. case r of Some p \<Rightarrow> Inr (Some p) | None \<Rightarrow> scan_forward U rx tq (drop searchStep ?F))"
    using scan_forward_append [of U rx tq ?B "drop searchStep ?F"] by simp
  have no_panic: "scan_forward U rx tq xs \<noteq> Inl Panic" for xs
  proof -
    have "find_queue U tq qs \<noteq> Inl Panic" for qs
      by (induction qs rule: find_queue.induct) (auto split: option.splits)
    then show ?thesis
      by (induction xs rule: scan_forward.induct)
        (auto simp: andThen_eq_Inl split: option.splits)
  qed
  show ?case
  proof (cases "Greater U currentPtr endPtr \<or> Equal U currentPtr endPtr")
    case True
    then show ?thesis by simp
  next
    case False
    then have before: "val currentPtr < val endPtr" using U by auto
    show ?thesis
    proof (cases "scan_forward U rx tq ?B")
      case (Inl e)
      with False no_panic [of ?B] data show ?thesis by (auto simp: Let_def)
    next
      case (Inr r)
      show ?thesis
      proof (cases r)
        case (Some p)
        with Inr False data scan_F show ?thesis by (simp add: Let_def)
      next
        case None
        note none = Inr [unfolded None]
        show ?thesis
        proof (cases "?B = []")
          case True
          with none False data show ?thesis by (auto simp: Let_def)
        next
          case ne: False
          show ?thesis
          proof (cases "Add U (fst (last ?B)) (FromU8 U 1)")
            case None
            with none ne False data show ?thesis by (simp add: Let_def)
          next
            case (Some c)
            then have c: "val c = val (fst (last ?B)) + 1" using U(5) [OF Some] U(7) by simp
            with stored_last_ge [OF ne] have "val endPtr - val c < k" using Suc.prems before by simp
            from Suc.IH [OF this] obtain r where
              r: "searchForwardForQueue k U (stored val es) rx startPtr endPtr tq c = Some r" "r \<noteq> Inl Panic"
                "\<forall>p. r = Inr p \<longrightarrow> scan_forward U rx tq (filter (\<lambda>e. val c \<le> val (fst e)) es) = Inr (Some p)"
              by blast
            have "filter (\<lambda>e. val c \<le> val (fst e)) es = drop searchStep ?F"
              by (rule stored_next [OF assms(2) refl ne c])
            with r scan_F none ne False data Some show ?thesis by (simp add: Let_def)
          qed
        qed
      qed
    qed
  qed
qed simp



subsection \<open>Backward\<close>

definition mentions :: "'p uintn \<Rightarrow> rx \<Rightarrow> string \<Rightarrow> 'p \<times> byte list \<Rightarrow> 'p \<Rightarrow> bool" where
  "mentions U rx tq e p \<longleftrightarrow> (\<exists>qs name ptr. rx (snd e) = Some qs \<and> (name, ptr) \<in> set qs
     \<and> queueMatchesByPostfix name tq \<and> FromLEBytes U ptr = Some p)"

lemma last_queue_mentions:
  assumes "last_queue U tq qs found = Some p"
  shows "found = Some p \<or> (\<exists>name ptr. (name, ptr) \<in> set qs \<and> queueMatchesByPostfix name tq
    \<and> FromLEBytes U ptr = Some p)"
  using assms
proof (induction qs arbitrary: found)
  case Nil
  then show ?case by (simp add: last_queue_def)
next
  case (Cons q qs)
  obtain name ptr where q: "q = (name, ptr)" by force
  let ?found = "if queueMatchesByPostfix name tq
      then (case FromLEBytes U ptr of None \<Rightarrow> found | Some p \<Rightarrow> Some p) else found"
  have "last_queue U tq qs ?found = Some p" using Cons.prems by (simp add: last_queue_def q)
  from Cons.IH [OF this] show ?case by (auto simp: q split: if_splits option.splits)
qed

lemma scan_backward_mentions:
  assumes "scan_backward U rx tq cur es (l, found) = (l', Some p)"
  shows "found = Some p \<or> (\<exists>e \<in> set es. \<not> Greater U (fst e) cur \<and> mentions U rx tq e p)"
  using assms
proof (induction es arbitrary: l found)
  case (Cons e es)
  show ?case
  proof (cases "Greater U (fst e) cur")
    case True
    with Cons.prems show ?thesis by simp
  next
    case False
    show ?thesis
    proof (cases "rx (snd e)")
      case None
      with False Cons show ?thesis by (auto simp: Let_def)
    next
      case (Some qs)
      with False Cons.prems have "scan_backward U rx tq cur es (Some (fst e), last_queue U tq qs found) = (l', Some p)"
        by (simp add: Let_def)
      from Cons.IH [OF this] show ?thesis
        using last_queue_mentions [of U tq qs found p] False Some by (auto simp: mentions_def)
    qed
  qed
qed simp

lemma batch_start_between:
  assumes "uintn_ok U val" and "val startPtr < val currentPtr"
  shows "val startPtr \<le> val (batch_start U startPtr currentPtr)
    \<and> val (batch_start U startPtr currentPtr) < val currentPtr"
proof -
  note U = uintn_okD [OF assms(1)]
  have "unat (of_nat searchStep :: uint64) = 10000" by (simp add: searchStep_def)
  with assms(2) U(6) [of currentPtr "FromU64 U (of_nat searchStep)"] show ?thesis
    by (auto simp: batch_start_def U(1,8) split: option.splits)
qed

lemma next_current_less:
  assumes "uintn_ok U val" and "next_current U b c l = Inr c'" and "val b < val c"
  shows "val c' < val c"
  using assms(2,3) uintn_okD(2) [OF assms(1)]
  by (auto simp: next_current_def split: sum.splits bool.splits option.splits if_splits)

lemma searchBackward_result:
  assumes "uintn_ok U val" and "val currentPtr - val startPtr < k"
  shows "\<exists>r. searchBackwardForQueue k U (stored val es) rx startPtr endPtr tq currentPtr = Some r
    \<and> (\<forall>p. r = Inr p \<longrightarrow> (\<exists>e \<in> set es. val startPtr \<le> val (fst e) \<and> val (fst e) \<le> val currentPtr
        \<and> mentions U rx tq e p))"
  using assms(2)
proof (induction k arbitrary: currentPtr)
  case (Suc k)
  note U = uintn_okD [OF assms(1)]
  let ?b = "batch_start U startPtr currentPtr"
  let ?es = "Data (stored val es ?b searchStep)"
  obtain l found where scan: "scan_backward U rx tq currentPtr ?es (None, None) = (l, found)" by force
  have err: "Err (stored val es ?b searchStep) = False" by (simp add: stored_def)
  show ?case
  proof (cases "Less U currentPtr startPtr \<or> Equal U currentPtr startPtr")
    case True
    then show ?thesis by simp
  next
    case False
    then have before: "val startPtr < val currentPtr" using U by auto
    note b = batch_start_between [OF assms(1) before]
    show ?thesis
    proof (cases found)
      case (Some p)
      then obtain e where "e \<in> set ?es" "\<not> Greater U (fst e) currentPtr" "mentions U rx tq e p"
        using scan_backward_mentions [OF scan [unfolded Some]] by blast
      moreover have "e \<in> set es \<and> val ?b \<le> val (fst e)"
        using \<open>e \<in> set ?es\<close> by (auto simp: stored_def dest: in_set_takeD)
      ultimately have "\<exists>e \<in> set es. val startPtr \<le> val (fst e) \<and> val (fst e) \<le> val currentPtr \<and> mentions U rx tq e p"
        using b U(1) by (intro bexI [of _ e]) auto
      with Some False scan err show ?thesis by (simp add: Let_def)
    next
      case None
      show ?thesis
      proof (cases "next_current U ?b currentPtr l")
        case (Inl e)
        with None False scan err show ?thesis by (auto simp: Let_def next_current_def)
      next
        case (Inr c)
        have c: "val c < val currentPtr" by (rule next_current_less [OF assms(1) Inr]) (use b in simp)
        with Suc.prems before have "val c - val startPtr < k" by simp
        from Suc.IH [OF this] obtain r where
          r: "searchBackwardForQueue k U (stored val es) rx startPtr endPtr tq c = Some r"
          and found: "\<forall>p. r = Inr p \<longrightarrow> (\<exists>e \<in> set es. val startPtr \<le> val (fst e) \<and> val (fst e) \<le> val c
            \<and> mentions U rx tq e p)"
          by blast
        have found': "\<forall>p. r = Inr p \<longrightarrow> (\<exists>e \<in> set es. val startPtr \<le> val (fst e)
            \<and> val (fst e) \<le> val currentPtr \<and> mentions U rx tq e p)"
        proof (intro allI impI)
          fix p assume "r = Inr p"
          with found obtain e where "e \<in> set es" "val startPtr \<le> val (fst e)" "val (fst e) \<le> val c"
            "mentions U rx tq e p" by blast
          with c show "\<exists>e \<in> set es. val startPtr \<le> val (fst e) \<and> val (fst e) \<le> val currentPtr
            \<and> mentions U rx tq e p" by (intro bexI [of _ e]) simp_all
        qed
        show ?thesis
        proof (cases "Equal U c startPtr")
          case True
          with None False scan err Inr show ?thesis by (simp add: Let_def)
        next
          case eq: False
          with None False scan err Inr r
          have "searchBackwardForQueue (Suc k) U (stored val es) rx startPtr endPtr tq currentPtr = Some r"
            by (simp add: Let_def)
          with found' show ?thesis by blast
        qed
      qed
    qed
  qed
qed simp

text \<open>C30: on a stored queue, the backward search ends after at most as many rounds as the range is
  long, and a pointer it finds is one that an entry inside the range gives for the target.\<close>

theorem searchBackward_in_range:
  assumes "uintn_ok U val" and "val currentPtr - val startPtr < k"
  shows "\<exists>r. searchBackwardForQueue k U (stored val es) rx startPtr endPtr tq currentPtr = Some r
    \<and> (\<forall>p. r = Inr p \<longrightarrow> (\<exists>e \<in> set es. val startPtr \<le> val (fst e) \<and> val (fst e) \<le> val currentPtr
        \<and> mentions U rx tq e p))"
  using assms by (rule searchBackward_result)

lemma searchBackward_in_range_witness:
  "\<exists>r. searchBackwardForQueue 9 nat_uintn (stored (\<lambda>x. x) [(4, [1])]) (\<lambda>_. Some [(''a/q'', [7])]) 0 8 ''q'' 8 = Some r"
  using searchBackward_in_range [OF nat_uintn_ok, of 8 0 9 "[(4, [1])]" "\<lambda>_. Some [(''a/q'', [7])]" 8 "''q''"] by auto

subsection \<open>Where the code differs from its comments\<close>

text \<open>The search forward and the check of the end points do not look at the end of the range:
  a range without entries gets the bounds of an entry behind it.\<close>

lemma bounds_outside_range:
  "FetchQueueBounds 5 nat_uintn (stored (\<lambda>x. x) [(50, [1])]) (\<lambda>_. Some [(''/h/q'', [7])]) 2 4 ''q''
     = Some (Inr \<lparr>From = 7, To = 7\<rparr>)"
  by (simp add: FetchQueueBounds_def find_bound_def tryFindQueueAtPtr_def stored_def map_fault_def
      queueMatchesByPostfix_def nat_uintn_def)

text \<open>"move backward in chunks": over a queue without holes and without a match, a round of
  the backward search reads ten thousand entries and moves the pointer back by one.\<close>

lemma searchBackward_moves_by_one:
  assumes "startPtr + searchStep < currentPtr" and "currentPtr \<le> n"
  shows "searchBackwardForQueue (Suc k) nat_uintn (stored (\<lambda>x. x) (map (\<lambda>i. (i, [])) [0..<n])) (\<lambda>_. None)
      startPtr endPtr tq currentPtr
    = searchBackwardForQueue k nat_uintn (stored (\<lambda>x. x) (map (\<lambda>i. (i, [])) [0..<n])) (\<lambda>_. None)
      startPtr endPtr tq (currentPtr - 1)"
proof -
  let ?b = "currentPtr - searchStep"
  have b: "batch_start nat_uintn startPtr currentPtr = ?b"
    using assms(1) by (auto simp: batch_start_def nat_uintn_def searchStep_def)
  have "filter (\<lambda>e. ?b \<le> fst e) (map (\<lambda>i. (i, [])) [0..<n]) = map (\<lambda>i. (i, [] :: byte list)) [?b..<n]"
  proof -
    have "[0..<n] = [0..<?b] @ [?b..<n]" using upt_add_eq_append [of 0 ?b "n - ?b"] assms(2) by simp
    then show ?thesis by (simp add: filter_map comp_def filter_empty_conv)
  qed
  then have data: "Data (stored (\<lambda>x. x) (map (\<lambda>i. (i, [])) [0..<n]) ?b searchStep)
      = map (\<lambda>i. (i, [])) [?b..<currentPtr]"
    using assms by (simp add: stored_def take_map)
  have scan: "scan_backward nat_uintn (\<lambda>_. None) tq currentPtr (map (\<lambda>i. (i, [])) xs) (l, None)
      = (if xs = [] then l else Some (last xs), None)" if "\<forall>x \<in> set xs. x < currentPtr" for xs l
    using that by (induction xs arbitrary: l) (auto simp: nat_uintn_def Let_def)
  have "scan_backward nat_uintn (\<lambda>_. None) tq currentPtr (map (\<lambda>i. (i, [])) [?b..<currentPtr]) (None, None)
      = (Some (currentPtr - 1), None)"
    using assms by (subst scan) (auto simp: searchStep_def last_upt)
  moreover have "next_current nat_uintn ?b currentPtr (Some (currentPtr - 1)) = Inr (currentPtr - 1)"
    using assms by (simp add: next_current_def nat_uintn_def searchStep_def)
  moreover have "\<not> (Less nat_uintn currentPtr startPtr \<or> Equal nat_uintn currentPtr startPtr)"
    "\<not> Equal nat_uintn (currentPtr - 1) startPtr" "Err (stored (\<lambda>x. x) (map (\<lambda>i. (i, [])) [0..<n]) ?b searchStep) = False"
    using assms by (auto simp: nat_uintn_def searchStep_def stored_def)
  ultimately show ?thesis by (simp add: b data Let_def)
qed

lemma searchBackward_moves_by_one_witness:
  "searchBackwardForQueue (Suc 3) nat_uintn (stored (\<lambda>x. x) (map (\<lambda>i. (i, [])) [0..<20000])) (\<lambda>_. None)
      5 20000 ''q'' 20000
    = searchBackwardForQueue 3 nat_uintn (stored (\<lambda>x. x) (map (\<lambda>i. (i, [])) [0..<20000])) (\<lambda>_. None)
      5 20000 ''q'' (20000 - 1)"
  by (rule searchBackward_moves_by_one) (simp_all add: searchStep_def)

end
