(* ===== verification/Frame_Stream.thy ===== *)
theory Frame_Stream
  imports Queue_Properties
begin

section \<open>Streaming the frames of a range\<close>

text \<open>
  \<^verbatim>\<open>station/bin/dataset-generator/internal/source.go\<close>: the frames between two bounds are read
  from the queue in batches and handed on in a channel; the model returns the frames sent and the
  error sent, if any. \<open>um\<close> is the \<open>Unmarshal\<close> of the generated frame reader. Entries that cannot
  be parsed are passed over and do not move the cursor; the theorem says that nothing is lost or
  sent twice by that.
\<close>

definition readBatchSize :: nat where "readBatchSize = 10000"

datatype stream_error = StreamReadFailed | CursorFailed

text \<open>The loop over one batch: frames sent, cursor, entries received, and whether an entry behind
  the range ended the stream.\<close>

fun stream_batch :: "'p uintn \<Rightarrow> (byte list \<Rightarrow> 'f option) \<Rightarrow> 'p \<Rightarrow> ('p \<times> byte list) list \<Rightarrow> 'p \<Rightarrow> nat \<Rightarrow>
    'f list \<times> 'p \<times> nat \<times> bool" where
  "stream_batch U um to [] cursor entriesReceived = ([], cursor, entriesReceived, False)"
| "stream_batch U um to (entry # es) cursor entriesReceived =
     (let entriesReceived = entriesReceived + 1 in
      if Greater U (fst entry) to then ([], cursor, entriesReceived, True)
      else case um (snd entry) of
        None \<Rightarrow> stream_batch U um to es cursor entriesReceived
      | Some f \<Rightarrow>
          (let (fs, rest) = stream_batch U um to es (fst entry) entriesReceived in (f # fs, rest)))"

fun StreamFrames :: "nat \<Rightarrow> 'p uintn \<Rightarrow> 'p client \<Rightarrow> (byte list \<Rightarrow> 'f option) \<Rightarrow> 'p \<Rightarrow> 'p \<Rightarrow>
    ('f list \<times> stream_error option) option" where
  "StreamFrames 0 U client um cursor to = None"
| "StreamFrames (Suc k) U client um cursor to =
     (let res = client cursor readBatchSize;
          (fs, cursor, entriesReceived, passed) = stream_batch U um to (Data res) cursor 0
      in
      if passed then Some (fs, None)
      else if Err res then Some (fs, Some StreamReadFailed)
      else if entriesReceived < readBatchSize then Some (fs, None)
      else if Greater U cursor to \<or> Equal U cursor to then Some (fs, None)
      else case Add U cursor (FromU8 U 1) of
        None \<Rightarrow> Some (fs, Some CursorFailed)
      | Some cursor \<Rightarrow>
          map_option (\<lambda>(gs, e). (fs @ gs, e)) (StreamFrames k U client um cursor to))"

subsection \<open>What is streamed\<close>

definition parsed :: "(byte list \<Rightarrow> 'f option) \<Rightarrow> ('p \<times> byte list) list \<Rightarrow> 'f list" where
  "parsed um es = concat (map (\<lambda>e. case um (snd e) of None \<Rightarrow> [] | Some f \<Rightarrow> [f]) es)"

lemma parsed_simps [simp]:
  "parsed um [] = []"
  "parsed um (e # es) = (case um (snd e) of None \<Rightarrow> parsed um es | Some f \<Rightarrow> f # parsed um es)"
  "parsed um (xs @ ys) = parsed um xs @ parsed um ys"
  by (auto simp: parsed_def split: option.splits)

lemma parsed_none: "(\<forall>e \<in> set es. um (snd e) = None) \<Longrightarrow> parsed um es = []"
  by (induction es) auto

definition between :: "('p \<Rightarrow> nat) \<Rightarrow> nat \<Rightarrow> nat \<Rightarrow> ('p \<times> byte list) list \<Rightarrow> ('p \<times> byte list) list" where
  "between val a b es = filter (\<lambda>e. a \<le> val (fst e) \<and> val (fst e) \<le> b) es"

lemma stream_batch_spec:
  assumes "uintn_ok U val" and "ids_grow val es"
    and "stream_batch U um to es c n = (fs, c', n', stop)"
  shows "fs = parsed um (filter (\<lambda>e. val (fst e) \<le> val to) es)"
    and "stop \<longleftrightarrow> (\<exists>e \<in> set es. val to < val (fst e))"
    and "\<not> stop \<Longrightarrow> n' = n + length es"
    and "\<not> stop \<Longrightarrow> c' = c \<and> (\<forall>e \<in> set es. um (snd e) = None)
      \<or> c' \<in> fst ` set es \<and> (\<forall>e \<in> set es. val c' < val (fst e) \<longrightarrow> um (snd e) = None)"
  using assms(2,3)
proof (atomize (full), induction es arbitrary: c n fs)
  case (Cons e es)
  note G = uintn_okD(1) [OF assms(1)]
  have grow: "ids_grow val es" "\<forall>x \<in> set es. val (fst e) < val (fst x)"
    using Cons.prems(1) by (auto simp: ids_grow_def)
  show ?case
  proof (cases "Greater U (fst e) to")
    case True
    then have "filter (\<lambda>e. val (fst e) \<le> val to) es = []"
      using grow G by (fastforce simp: filter_empty_conv)
    with True Cons.prems(2) G show ?thesis by (auto simp: Let_def)
  next
    case False
    then have le: "val (fst e) \<le> val to" using G by simp
    show ?thesis
    proof (cases "um (snd e)")
      case None
      with False Cons.prems(2) have "stream_batch U um to es c (n + 1) = (fs, c', n', stop)"
        by (simp add: Let_def)
      from Cons.IH [OF grow(1) this] None le grow(2) show ?thesis by (auto simp: image_iff)
    next
      case (Some f)
      with False Cons.prems(2) obtain gs where
        gs: "fs = f # gs" "stream_batch U um to es (fst e) (n + 1) = (gs, c', n', stop)"
        by (auto simp: Let_def split: prod.splits)
      note IH = Cons.IH [OF grow(1) gs(2)]
      have "c' = fst e \<or> c' \<in> fst ` set es" if "\<not> stop" using IH that by blast
      moreover have "\<forall>x \<in> set (e # es). val c' < val (fst x) \<longrightarrow> um (snd x) = None" if go: "\<not> stop"
      proof -
        consider "c' = fst e" "\<forall>x \<in> set es. um (snd x) = None"
          | "c' \<in> fst ` set es" "\<forall>x \<in> set es. val c' < val (fst x) \<longrightarrow> um (snd x) = None"
          using IH go by blast
        then show ?thesis using grow(2) by cases auto
      qed
      ultimately show ?thesis using IH Some le gs(1) by auto
    qed
  qed
qed simp

text \<open>A stored queue split at an id.\<close>

lemma ids_grow_split:
  "ids_grow val es \<Longrightarrow> es = filter (\<lambda>e. val (fst e) \<le> a) es @ filter (\<lambda>e. Suc a \<le> val (fst e)) es"
proof (induction es)
  case (Cons e es)
  then have grow: "ids_grow val es" "\<forall>x \<in> set es. val (fst e) < val (fst x)" by (auto simp: ids_grow_def)
  show ?case
  proof (cases "val (fst e) \<le> a")
    case True
    with Cons.IH [OF grow(1)] show ?thesis by (auto simp: not_less_eq_eq)
  next
    case False
    then have "filter (\<lambda>e. val (fst e) \<le> a) es = []" "filter (\<lambda>e. Suc a \<le> val (fst e)) es = es"
      using grow(2) by (fastforce simp: filter_empty_conv intro: filter_True)+
    with False show ?thesis by simp
  qed
qed simp

lemma between_split:
  assumes "ids_grow val es" and "a \<le> Suc m"
  shows "between val a b es = filter (\<lambda>e. val (fst e) \<le> m) (between val a b es) @ between val (Suc m) b es"
proof -
  have "filter (\<lambda>e. Suc m \<le> val (fst e)) (between val a b es) = between val (Suc m) b es"
    using assms(2) by (auto simp: between_def intro!: filter_cong)
  with ids_grow_split [of val "between val a b es" m] show ?thesis
    using ids_grow_filter [OF assms(1)] by (simp add: between_def)
qed

text \<open>The cursor after a full batch lies between the last frame sent and the rest of the queue.\<close>

lemma cursor_facts:
  fixes val :: "'p \<Rightarrow> nat"
  assumes "c = from \<and> (\<forall>e \<in> set B. um (snd e) = None)
      \<or> c \<in> fst ` set B \<and> (\<forall>e \<in> set B. val c < val (fst e) \<longrightarrow> um (snd e) = None)"
    and "B \<noteq> []" and "\<forall>e \<in> set B. val from \<le> val (fst e)"
    and "\<forall>x \<in> set B. \<forall>y \<in> set D. val (fst x) < val (fst y)"
  shows "val from \<le> val c" and "\<forall>d \<in> set D. val c < val (fst d)"
    and "\<forall>e \<in> set B. val c < val (fst e) \<longrightarrow> um (snd e) = None"
proof -
  obtain b where b: "b \<in> set B" using assms(2) by (cases B) auto
  consider "c = from" "\<forall>e \<in> set B. um (snd e) = None"
    | e where "e \<in> set B" "c = fst e" "\<forall>e \<in> set B. val c < val (fst e) \<longrightarrow> um (snd e) = None"
    using assms(1) by blast
  note cases = this
  show "val from \<le> val c" using assms(3) by (cases rule: cases) auto
  show "\<forall>d \<in> set D. val c < val (fst d)"
  proof (cases rule: cases)
    case 1
    show ?thesis
    proof
      fix d assume "d \<in> set D"
      then have "val (fst b) < val (fst d)" using assms(4) b by blast
      moreover have "val from \<le> val (fst b)" using assms(3) b by blast
      ultimately show "val c < val (fst d)" using 1 by simp
    qed
  next
    case (2 e)
    then show ?thesis using assms(4) by blast
  qed
  show "\<forall>e \<in> set B. val c < val (fst e) \<longrightarrow> um (snd e) = None" by (cases rule: cases) blast+
qed

lemma StreamFrames_result:
  assumes "uintn_ok U val" and "ids_grow val es" and "val to - val from < k"
    and "\<forall>p. val p < val to \<longrightarrow> Add U p (FromU8 U 1) \<noteq> None"
  shows "StreamFrames k U (stored val es) um from to = Some (parsed um (between val (val from) (val to) es), None)"
  using assms(3)
proof (induction k arbitrary: "from")
  case (Suc k)
  note U = uintn_okD [OF assms(1)]
  let ?F = "filter (\<lambda>e. val from \<le> val (fst e)) es"
  let ?B = "take readBatchSize ?F" and ?D = "drop readBatchSize ?F"
  have data: "Data (stored val es from readBatchSize) = ?B" "Err (stored val es from readBatchSize) = False"
    by (simp_all add: stored_def)
  obtain fs c n stop where batch: "stream_batch U um to ?B from 0 = (fs, c, n, stop)"
    by (metis prod_cases4)
  have growF: "ids_grow val (?B @ ?D)" using ids_grow_filter [OF assms(2)] by simp
  then have growB: "ids_grow val ?B" and later: "\<forall>x \<in> set ?B. \<forall>y \<in> set ?D. val (fst x) < val (fst y)"
    unfolding ids_grow_append by blast+
  note spec = stream_batch_spec [OF assms(1) growB batch]
  have all: "between val (val from) (val to) es
      = filter (\<lambda>e. val (fst e) \<le> val to) ?B @ filter (\<lambda>e. val (fst e) \<le> val to) ?D"
    unfolding filter_append [symmetric] append_take_drop_id by (simp add: between_def conj_commute)
  show ?case
  proof (cases stop)
    case True
    then have "filter (\<lambda>e. val (fst e) \<le> val to) ?D = []"
      using spec(2) later by (fastforce simp: filter_empty_conv)
    with True batch data spec(1) all show ?thesis by (simp add: Let_def)
  next
    case False
    then have inB: "filter (\<lambda>e. val (fst e) \<le> val to) ?B = ?B"
      using spec(2) by (fastforce intro: filter_True)
    have fs: "fs = parsed um ?B" and n: "n = length ?B" using spec(1,3) False inB by auto
    show ?thesis
    proof (cases "n < readBatchSize")
      case True
      with n have "?D = []" by simp
      with True False batch data fs all inB show ?thesis by (simp add: Let_def)
    next
      case full: False
      with n have ne: "?B \<noteq> []" by (auto simp: readBatchSize_def)
      have "\<forall>e \<in> set ?B. val from \<le> val (fst e)" by (auto dest: in_set_takeD)
      note c = cursor_facts [OF spec(4) [OF False] ne this later]
      have D: "filter (\<lambda>e. val (fst e) \<le> val c) (filter (\<lambda>e. val (fst e) \<le> val to) ?D) = []"
        using c(2) by (fastforce simp: filter_empty_conv)
      show ?thesis
      proof (cases "Greater U c to \<or> Equal U c to")
        case True
        then have "filter (\<lambda>e. val (fst e) \<le> val to) ?D = []"
          using c(2) U(1,3) by (fastforce simp: filter_empty_conv)
        with True full False batch data fs all inB show ?thesis by (simp add: Let_def)
      next
        case going: False
        then have before: "val c < val to" using U by auto
        with assms(4) obtain c' where c': "Add U c (FromU8 U 1) = Some c'" by blast
        then have val: "val c' = Suc (val c)" using U(5) [OF c'] U(7) by simp
        have "parsed um ?B = parsed um (filter (\<lambda>e. val (fst e) \<le> val c) ?B)
            @ parsed um (filter (\<lambda>e. Suc (val c) \<le> val (fst e)) ?B)"
          using ids_grow_split [OF growB, of "val c"] by (metis parsed_simps(3))
        also have "parsed um (filter (\<lambda>e. Suc (val c) \<le> val (fst e)) ?B) = []"
          using c(3) by (intro parsed_none) auto
        finally have B: "parsed um (filter (\<lambda>e. val (fst e) \<le> val c) ?B) = parsed um ?B" by simp
        have "parsed um (between val (val from) (val to) es) = parsed um ?B @ parsed um (between val (val c') (val to) es)"
          using between_split [OF assms(2), of "val from" "val c" "val to"] c(1) B D
          unfolding val all filter_append inB by simp
        moreover have "StreamFrames k U (stored val es) um c' to
            = Some (parsed um (between val (val c') (val to) es), None)"
          by (rule Suc.IH) (use Suc.prems before c(1) val in simp)
        ultimately show ?thesis using going full False batch data fs c' by (simp add: Let_def)
      qed
    qed
  qed
qed simp

text \<open>C13: between two bounds of a stored queue, the stream ends after at most as many rounds as the
  range is long; it sends exactly the entries of the range that can be parsed, each once and in
  order, and without an error unless a pointer cannot be increased.\<close>

theorem StreamFrames_exact:
  assumes "uintn_ok U val" and "ids_grow val es" and "val to - val from < k"
    and "\<forall>p. val p < val to \<longrightarrow> Add U p (FromU8 U 1) \<noteq> None"
  shows "StreamFrames k U (stored val es) um from to = Some (parsed um (between val (val from) (val to) es), None)"
  using assms by (rule StreamFrames_result)

lemma StreamFrames_exact_witness:
  "StreamFrames 9 nat_uintn (stored (\<lambda>x. x) [(1, [7]), (2, []), (4, [8])])
      (\<lambda>bs. case bs of [] \<Rightarrow> None | b # _ \<Rightarrow> Some b) 1 3
    = Some (parsed (\<lambda>bs. case bs of [] \<Rightarrow> None | b # _ \<Rightarrow> Some b)
        (between (\<lambda>x. x) 1 3 [(1, [7]), (2, []), (4, [8])]), None)"
  by (rule StreamFrames_exact [OF nat_uintn_ok]) (simp_all add: ids_grow_def nat_uintn_def)

end
