(* ===== verification/Episode_Detector.thy ===== *)
theory Episode_Detector
  imports Go_Runtime
begin

section \<open>The episode detector of the dataset generator\<close>

text \<open>
  \<^verbatim>\<open>station/bin/dataset-generator/internal\<close>: \<^verbatim>\<open>episodes.go\<close>, \<^verbatim>\<open>framedef.go\<close> and the messages of
  \<^verbatim>\<open>messages.go\<close> it sends. The detector is driven by frames; it starts an episode when the goals
  of the joints change, buffers its frames, and saves or discards it once it is long enough and
  the robot has been idle for five seconds.

  What is outside the repository is an argument: \<open>env\<close> carries the printed form of a frame id
  (\<open>uintn\<close>), the clock, and which operations of the file system succeed. A frame is what the
  getters of \<open>normvla.FrameReader\<close> return. Log lines are not modelled; messages to the terminal
  UI are collected in \<open>sent\<close> when there is a program to send them to.
\<close>

subsection \<open>Data\<close>

record JointReader =
  GetRangeMin :: uint32
  GetRangeMax :: uint32
  GetPosition :: uint32
  GetPositionNorm :: float32
  GetGoal :: uint32
  GetGoalNorm :: float32
  GetCurrentMa :: uint32
  GetVelocity :: uint32

record FrameReader =
  GetImages :: "byte list list"
  GetMonotonicStampNs :: uint64
  GetJoints :: "JointReader list"
  GetGlobalFrameId :: "byte list"

record Joint =
  RangeMin :: uint32
  RangeMax :: uint32
  Position :: uint32
  PositionNorm :: float32
  Goal :: uint32
  GoalNorm :: float32
  CurrentMA :: uint32
  Velocity :: uint32

record Image =
  JPEG :: "byte list"

record Frame =
  EpisodeStartNS :: uint64
  GlobalFrameID :: "byte list"
  TimestampNsSinceEpisodeStart :: uint64
  Joints :: "Joint list"
  Images :: "Image list"
  Task :: string

record Stats =
  EpisodesStarted :: uint64
  EpisodesSaved :: uint64
  EpisodesDiscarded :: uint64
  TotalFramesSaved :: uint64
  FramesSkippedWrongImageCount :: uint64

datatype Msg =
    EpisodeStartedMsg uint64
  | EpisodeSavedMsg uint64 int
  | EpisodeDiscardedMsg uint64 string string
  | EpisodeSkipMarkedMsg uint64 string
  | FrameBufferedMsg

text \<open>The contents of an episode's file; \<open>None\<close> is a file whose writing failed.\<close>

type_synonym ep_file = "Frame list option"

record EpisodeDetector =
  task :: string
  duration :: int64
  minCommands :: uint64
  lastGoals :: "uint32 list"
  commandsCnt :: uint64
  lastMovementStamp :: uint64
  episodeIndex :: uint64
  episodeMonotonicStart :: uint64
  episodeLocalStart :: uint64
  episodeSkipReason :: string
  episodeSkipFrameId :: string
  buffer :: "Frame list"
  stats :: Stats
  program :: bool
  sent :: "Msg list"
  disk :: "uint64 \<rightharpoonup> ep_file"
  merged :: "ep_file option"

record env =
  id_string :: "byte list \<Rightarrow> string"
  now :: uint64
  mkdir_ok :: bool
  create_ok :: bool
  write_ok :: bool

definition NewEpisodeDetector :: "int64 \<Rightarrow> string \<Rightarrow> uint64 \<Rightarrow> bool \<Rightarrow> EpisodeDetector" where
  "NewEpisodeDetector dur tsk minc prog =
     \<lparr>task = tsk, duration = dur, minCommands = minc, lastGoals = [], commandsCnt = 0,
      lastMovementStamp = 0, episodeIndex = 0, episodeMonotonicStart = 0, episodeLocalStart = 0,
      episodeSkipReason = [], episodeSkipFrameId = [], buffer = [],
      stats = \<lparr>EpisodesStarted = 0, EpisodesSaved = 0, EpisodesDiscarded = 0, TotalFramesSaved = 0,
        FramesSkippedWrongImageCount = 0\<rparr>,
      program = prog, sent = [], disk = Map.empty, merged = None\<rparr>"

definition convertJoints :: "JointReader list \<Rightarrow> Joint list" where
  "convertJoints joints = map (\<lambda>j.
     \<lparr>RangeMin = GetRangeMin j, RangeMax = GetRangeMax j, Position = GetPosition j,
      PositionNorm = GetPositionNorm j, Goal = GetGoal j, GoalNorm = GetGoalNorm j,
      CurrentMA = GetCurrentMa j, Velocity = GetVelocity j\<rparr>) joints"

definition convertImages :: "byte list list \<Rightarrow> Image list" where
  "convertImages images = map (\<lambda>img. \<lparr>JPEG = img\<rparr>) images"

subsection \<open>Goals\<close>

definition hasCommandsChanged :: "EpisodeDetector \<Rightarrow> uint32 list \<Rightarrow> bool" where
  "hasCommandsChanged ed currentGoals =
     (if length (lastGoals ed) = 0 then False
      else if length (lastGoals ed) \<noteq> length currentGoals then True
      else list_ex (\<lambda>(a, b). a \<noteq> b) (zip (lastGoals ed) currentGoals))"

definition updateGoalTracking :: "uint32 list \<Rightarrow> EpisodeDetector \<Rightarrow> EpisodeDetector" where
  "updateGoalTracking goals ed = ed\<lparr>lastGoals := goals\<rparr>"

subsection \<open>Episodes\<close>

definition send :: "Msg \<Rightarrow> EpisodeDetector \<Rightarrow> EpisodeDetector" where
  "send msg ed = (if program ed then ed\<lparr>sent := sent ed @ [msg]\<rparr> else ed)"

text \<open>\<open>xs[i]\<close> of a Go slice.\<close>

definition list_at :: "'a list \<Rightarrow> int \<Rightarrow> unit fault + 'a" where
  "list_at xs i = (if 0 \<le> i \<and> i < int (length xs) then Inr (xs ! nat i) else Inl Panic)"

definition bufferFrame :: "FrameReader \<Rightarrow> uint64 \<Rightarrow> EpisodeDetector \<Rightarrow> EpisodeDetector" where
  "bufferFrame frame inEpisodeStamp ed =
     (let f = \<lparr>EpisodeStartNS = episodeLocalStart ed, GlobalFrameID = GetGlobalFrameId frame,
               TimestampNsSinceEpisodeStart = inEpisodeStamp,
               Joints = convertJoints (GetJoints frame), Images = convertImages (GetImages frame),
               Task = task ed\<rparr>
      in send FrameBufferedMsg (ed\<lparr>buffer := buffer ed @ [f]\<rparr>))"

definition startNewEpisode :: "env \<Rightarrow> FrameReader \<Rightarrow> EpisodeDetector \<Rightarrow> EpisodeDetector" where
  "startNewEpisode e frame ed =
     (let stamp = GetMonotonicStampNs frame;
          ed = ed\<lparr>episodeMonotonicStart := stamp, episodeLocalStart := now e,
                  lastMovementStamp := stamp, commandsCnt := 1,
                  stats := (stats ed)\<lparr>EpisodesStarted := EpisodesStarted (stats ed) + 1\<rparr>,
                  buffer := []\<rparr>;
          ed = bufferFrame frame 0 ed
      in send (EpisodeStartedMsg (episodeIndex ed)) ed)"

definition markEpisodeSkip :: "env \<Rightarrow> FrameReader \<Rightarrow> string \<Rightarrow> EpisodeDetector \<Rightarrow> EpisodeDetector" where
  "markEpisodeSkip e frame reason ed =
     (if episodeSkipReason ed \<noteq> [] then ed
      else send (EpisodeSkipMarkedMsg (episodeIndex ed) reason)
        (ed\<lparr>episodeSkipReason := reason, episodeSkipFrameId := id_string e (GetGlobalFrameId frame)\<rparr>))"

definition discard :: "EpisodeDetector \<Rightarrow> EpisodeDetector" where
  "discard ed = ed\<lparr>stats := (stats ed)\<lparr>EpisodesDiscarded := EpisodesDiscarded (stats ed) + 1\<rparr>\<rparr>"

definition insufficient :: "uint64 \<Rightarrow> uint64 \<Rightarrow> string" where
  "insufficient a b = ''insufficient commands ('' @ dec (unat a) @ '' < '' @ dec (unat b) @ '')''"

definition trySaveCurrentEpisode :: "env \<Rightarrow> EpisodeDetector \<Rightarrow> unit fault + EpisodeDetector" where
  "trySaveCurrentEpisode e ed =
     (if episodeSkipReason ed \<noteq> [] then
        Inr (discard (send (EpisodeDiscardedMsg (episodeIndex ed) (episodeSkipReason ed) (episodeSkipFrameId ed)) ed))
      else if commandsCnt ed < minCommands ed then
        (let reason = insufficient (commandsCnt ed) (minCommands ed) in
         andThen (list_at (buffer ed) 0) (\<lambda>first.
         andThen (list_at (buffer ed) (int (length (buffer ed)) - 1)) (\<lambda>lastFrame.
           Inr (discard (send (EpisodeDiscardedMsg (episodeIndex ed) reason
             (id_string e (GlobalFrameID lastFrame))) ed)))))
      else if length (buffer ed) = 0 then
        (if program ed then
           andThen (list_at (buffer ed) (int (length (buffer ed)) - 1)) (\<lambda>lastFrame.
             Inr (discard (send (EpisodeDiscardedMsg (episodeIndex ed) ''no frames''
               (id_string e (GlobalFrameID lastFrame))) ed)))
         else Inr (discard ed))
      else if \<not> mkdir_ok e then Inr ed
      else if \<not> create_ok e then Inr ed
      else if \<not> write_ok e then Inr (ed\<lparr>disk := (disk ed)(episodeIndex ed \<mapsto> None)\<rparr>)
      else
        (let ed = ed\<lparr>disk := (disk ed)(episodeIndex ed \<mapsto> Some (buffer ed))\<rparr> in
         andThen (list_at (buffer ed) 0) (\<lambda>first.
         andThen (list_at (buffer ed) (int (length (buffer ed)) - 1)) (\<lambda>lastFrame.
           let ed = send (EpisodeSavedMsg (episodeIndex ed) (int (length (buffer ed)))) ed in
           Inr (ed\<lparr>stats := (stats ed)\<lparr>EpisodesSaved := EpisodesSaved (stats ed) + 1,
                      TotalFramesSaved := TotalFramesSaved (stats ed) + of_nat (length (buffer ed))\<rparr>,
                    episodeIndex := episodeIndex ed + 1\<rparr>)))))"

definition resetEpisode :: "EpisodeDetector \<Rightarrow> EpisodeDetector" where
  "resetEpisode ed = ed\<lparr>episodeMonotonicStart := 0, episodeLocalStart := 0, episodeSkipReason := [],
     episodeSkipFrameId := [], commandsCnt := 0, buffer := []\<rparr>"

subsection \<open>A frame\<close>

definition half_second :: uint64 where "half_second = 500000000"
definition five_seconds :: int64 where "five_seconds = 5000000000"

definition gap_reason :: "uint64 \<Rightarrow> string" where
  "gap_reason gap = ''frame gap '' @ dec (unat gap div 1000000) @ ''ms > 500ms''"

text \<open>The check of the gap to the last buffered frame.\<close>

definition checkGap :: "env \<Rightarrow> FrameReader \<Rightarrow> uint64 \<Rightarrow> EpisodeDetector \<Rightarrow> unit fault + EpisodeDetector" where
  "checkGap e frame inEpisodeStamp ed =
     (if episodeSkipReason ed = [] \<and> length (buffer ed) > 0 then
        andThen (list_at (buffer ed) (int (length (buffer ed)) - 1)) (\<lambda>lastFrame.
          let gap = inEpisodeStamp - TimestampNsSinceEpisodeStart lastFrame in
          Inr (if gap > half_second then markEpisodeSkip e frame (gap_reason gap) ed else ed))
      else Inr ed)"

text \<open>The steps of a frame inside an episode: commands are counted, the gap is checked, the frame
  is kept unless the episode is marked, and a long and idle episode ends.\<close>

definition trackCommands :: "uint32 list \<Rightarrow> uint64 \<Rightarrow> EpisodeDetector \<Rightarrow> EpisodeDetector" where
  "trackCommands currentGoals stamp ed =
     (if hasCommandsChanged ed currentGoals
      then (updateGoalTracking currentGoals (ed\<lparr>commandsCnt := commandsCnt ed + 1\<rparr>))\<lparr>lastMovementStamp := stamp\<rparr>
      else ed)"

definition keepFrame :: "FrameReader \<Rightarrow> uint64 \<Rightarrow> EpisodeDetector \<Rightarrow> EpisodeDetector" where
  "keepFrame frame inEpisodeStamp ed =
     (if episodeSkipReason ed = [] then bufferFrame frame inEpisodeStamp ed else ed)"

definition endEpisode :: "env \<Rightarrow> uint64 \<Rightarrow> uint64 \<Rightarrow> EpisodeDetector \<Rightarrow> unit fault + EpisodeDetector" where
  "endEpisode e stamp inEpisodeStamp ed =
     (if duration ed <=s inEpisodeStamp \<and> five_seconds <=s stamp - lastMovementStamp ed
      then andThen (trySaveCurrentEpisode e ed) (\<lambda>ed. Inr (resetEpisode ed))
      else Inr ed)"

definition ProcessFrame :: "env \<Rightarrow> FrameReader \<Rightarrow> EpisodeDetector \<Rightarrow> unit fault + EpisodeDetector" where
  "ProcessFrame e frame ed =
     (if length (GetImages frame) = 0 then
        Inr (ed\<lparr>stats := (stats ed)\<lparr>FramesSkippedWrongImageCount := FramesSkippedWrongImageCount (stats ed) + 1\<rparr>\<rparr>)
      else
        let stamp = GetMonotonicStampNs frame;
            currentGoals = map GetGoal (GetJoints frame)
        in
        if episodeMonotonicStart ed = 0 then
          Inr (updateGoalTracking currentGoals
            (if hasCommandsChanged ed currentGoals then startNewEpisode e frame ed else ed))
        else
          let ed = trackCommands currentGoals stamp ed;
              inEpisodeStamp = stamp - episodeMonotonicStart ed
          in
          andThen (checkGap e frame inEpisodeStamp ed) (\<lambda>ed.
            endEpisode e stamp inEpisodeStamp (keepFrame frame inEpisodeStamp ed)))"

definition GetSkipInfo :: "EpisodeDetector \<Rightarrow> uint64 \<times> string" where
  "GetSkipInfo ed =
     (if FramesSkippedWrongImageCount (stats ed) > 0
      then (FramesSkippedWrongImageCount (stats ed), ''no images'') else (0, []))"

subsection \<open>Finalize\<close>

text \<open>
  Merging: every episode's file is opened and its rows are copied, in order, to one file; then
  the episode files are removed. \<open>open_ok\<close> and \<open>parse_ok\<close> say which files can be opened and read;
  a file whose writing failed cannot be read. The last three steps are creating the merged file,
  copying the rows and closing the writer.
\<close>

record merge_env =
  open_ok :: "uint64 \<Rightarrow> bool"
  parse_ok :: "uint64 \<Rightarrow> bool"
  merged_create_ok :: bool
  copy_ok :: bool
  close_ok :: bool

fun read_files :: "merge_env \<Rightarrow> (uint64 \<rightharpoonup> ep_file) \<Rightarrow> uint64 list \<Rightarrow> Frame list list option" where
  "read_files g d [] = Some []"
| "read_files g d (i # is) =
     (case d i of
        Some (Some rows) \<Rightarrow>
          (if open_ok g i \<and> parse_ok g i then map_option ((#) rows) (read_files g d is) else None)
      | _ \<Rightarrow> None)"

definition mergeParquetFiles :: "merge_env \<Rightarrow> EpisodeDetector \<Rightarrow> EpisodeDetector" where
  "mergeParquetFiles g ed =
     (if episodeIndex ed = 0 then ed
      else let is = map of_nat [0..<unat (episodeIndex ed)] in
        case read_files g (disk ed) is of
          None \<Rightarrow> ed
        | Some rowGroups \<Rightarrow>
            if \<not> merged_create_ok g then ed
            else if \<not> copy_ok g \<or> \<not> close_ok g then ed\<lparr>merged := Some None\<rparr>
            else ed\<lparr>merged := Some (Some (concat rowGroups)), disk := disk ed |` (- set is)\<rparr>)"

definition Finalize :: "env \<Rightarrow> merge_env \<Rightarrow> EpisodeDetector \<Rightarrow> unit fault + EpisodeDetector" where
  "Finalize e g ed =
     andThen (if episodeMonotonicStart ed \<noteq> 0 then trySaveCurrentEpisode e ed else Inr ed)
       (\<lambda>ed. Inr (mergeParquetFiles g ed))"

end
