(* ===== verification/Episode_Properties.thy ===== *)
theory Episode_Properties
  imports Episode_Detector
begin

section \<open>Properties of the episode detector\<close>

text \<open>
  The invariant of the detector over any sequence of frames, and what it gives: no frame makes
  it panic, saved files are numbered without holes and hold gap-free episodes, and with a
  working file system every episode that starts ends up counted as saved or discarded.
\<close>

subsection \<open>Gap-free episodes\<close>

fun gaps_ok :: "uint64 list \<Rightarrow> bool" where
  "gaps_ok (x # y # zs) = (y - x \<le> half_second \<and> gaps_ok (y # zs))"
| "gaps_ok _ = True"

lemma gaps_ok_snoc: "gaps_ok (xs @ [y]) \<longleftrightarrow> gaps_ok xs \<and> (xs = [] \<or> y - last xs \<le> half_second)"
  by (induction xs rule: gaps_ok.induct) auto

definition stamps :: "Frame list \<Rightarrow> uint64 list" where
  "stamps fs = map TimestampNsSinceEpisodeStart fs"

text \<open>The first frame is at 0 and no two neighbours are more than half a second apart.\<close>

definition gap_free :: "Frame list \<Rightarrow> bool" where
  "gap_free fs \<longleftrightarrow> (fs \<noteq> [] \<longrightarrow> TimestampNsSinceEpisodeStart (hd fs) = 0) \<and> gaps_ok (stamps fs)"

lemma gap_free_nil [simp]: "gap_free []"
  by (simp add: gap_free_def stamps_def)

lemma gap_free_one: "TimestampNsSinceEpisodeStart f = 0 \<Longrightarrow> gap_free [f]"
  by (simp add: gap_free_def stamps_def)

lemma gap_free_snoc:
  "gap_free fs \<Longrightarrow> fs \<noteq> [] \<Longrightarrow>
   TimestampNsSinceEpisodeStart f - TimestampNsSinceEpisodeStart (last fs) \<le> half_second \<Longrightarrow>
   gap_free (fs @ [f])"
  by (simp add: gap_free_def stamps_def gaps_ok_snoc last_map)

subsection \<open>The invariant\<close>

text \<open>The files below the next index are complete, and every complete file holds an episode.\<close>

definition disk_ok :: "(uint64 \<rightharpoonup> ep_file) \<Rightarrow> uint64 \<Rightarrow> bool" where
  "disk_ok d n \<longleftrightarrow> (\<forall>i < n. \<exists>rows. d i = Some (Some rows))
     \<and> (\<forall>i rows. d i = Some (Some rows) \<longrightarrow> rows \<noteq> [] \<and> gap_free rows)"

definition detector_ok :: "EpisodeDetector \<Rightarrow> bool" where
  "detector_ok ed \<longleftrightarrow>
     (episodeMonotonicStart ed \<noteq> 0 \<longrightarrow> buffer ed \<noteq> [])
   \<and> (episodeMonotonicStart ed = 0 \<longrightarrow> episodeSkipReason ed = [])
   \<and> gap_free (buffer ed)
   \<and> episodeIndex ed = EpisodesSaved (stats ed)
   \<and> disk_ok (disk ed) (EpisodesSaved (stats ed))"

lemma send_simps [simp]:
  "episodeMonotonicStart (send msg ed) = episodeMonotonicStart ed"
  "episodeSkipReason (send msg ed) = episodeSkipReason ed"
  "buffer (send msg ed) = buffer ed"
  "episodeIndex (send msg ed) = episodeIndex ed"
  "stats (send msg ed) = stats ed"
  "disk (send msg ed) = disk ed"
  "merged (send msg ed) = merged ed"
  "commandsCnt (send msg ed) = commandsCnt ed"
  "minCommands (send msg ed) = minCommands ed"
  "duration (send msg ed) = duration ed"
  "lastMovementStamp (send msg ed) = lastMovementStamp ed"
  by (simp_all add: send_def)

lemma send_ok [simp]: "detector_ok (send msg ed) = detector_ok ed"
  by (simp add: detector_ok_def)

lemma list_at_0: "xs \<noteq> [] \<Longrightarrow> list_at xs 0 = Inr (hd xs)"
  by (simp add: list_at_def hd_conv_nth)

lemma list_at_last: "xs \<noteq> [] \<Longrightarrow> list_at xs (int (length xs) - 1) = Inr (last xs)"
  by (auto simp: list_at_def last_conv_nth nat_diff_distrib Suc_le_eq)

lemma discard_ok: "detector_ok ed \<Longrightarrow> detector_ok (discard ed)"
  by (simp add: detector_ok_def discard_def)

lemma less_Suc_word: "(i :: uint64) < n + 1 \<Longrightarrow> i = n \<or> i < n"
proof -
  assume "i < n + 1"
  then have "unat i < unat (n + 1)" by (simp add: word_less_nat_alt)
  also have "unat (n + 1) \<le> unat n + 1"
    by (simp only: unat_word_ariths) (rule mod_less_eq_dividend [THEN order_trans], simp)
  finally show ?thesis by (auto simp: word_less_nat_alt less_Suc_eq word_unat_eq_iff)
qed

lemma disk_ok_save:
  "disk_ok d n \<Longrightarrow> rows \<noteq> [] \<Longrightarrow> gap_free rows \<Longrightarrow> disk_ok (d(n \<mapsto> Some rows)) (n + 1)"
  unfolding disk_ok_def by (auto dest!: less_Suc_word)

lemma disk_ok_fail: "disk_ok d n \<Longrightarrow> disk_ok (d(n \<mapsto> None)) n"
  unfolding disk_ok_def by auto

text \<open>What trying to save does, in every case.\<close>

lemma trySave_cases:
  assumes "buffer ed \<noteq> []"
  shows "\<exists>ed'. trySaveCurrentEpisode e ed = Inr ed' \<and> episodeMonotonicStart ed' = episodeMonotonicStart ed
    \<and> buffer ed' = buffer ed \<and> episodeSkipReason ed' = episodeSkipReason ed \<and> merged ed' = merged ed
    \<and> (if episodeSkipReason ed \<noteq> [] \<or> commandsCnt ed < minCommands ed
       then disk ed' = disk ed \<and> episodeIndex ed' = episodeIndex ed
         \<and> stats ed' = (stats ed)\<lparr>EpisodesDiscarded := EpisodesDiscarded (stats ed) + 1\<rparr>
       else if mkdir_ok e \<and> create_ok e \<and> write_ok e
       then disk ed' = (disk ed)(episodeIndex ed \<mapsto> Some (buffer ed)) \<and> episodeIndex ed' = episodeIndex ed + 1
         \<and> stats ed' = (stats ed)\<lparr>EpisodesSaved := EpisodesSaved (stats ed) + 1,
             TotalFramesSaved := TotalFramesSaved (stats ed) + of_nat (length (buffer ed))\<rparr>
       else (disk ed' = disk ed \<or> disk ed' = (disk ed)(episodeIndex ed \<mapsto> None))
         \<and> episodeIndex ed' = episodeIndex ed \<and> stats ed' = stats ed)"
  using assms
  by (simp add: trySaveCurrentEpisode_def list_at_0 list_at_last Let_def discard_def insufficient_def)

lemma trySave_ok:
  assumes "detector_ok ed" and "buffer ed \<noteq> []" and "trySaveCurrentEpisode e ed = Inr ed'"
  shows "detector_ok ed'"
proof -
  from assms(1) have d: "disk_ok (disk ed) (EpisodesSaved (stats ed))" "gap_free (buffer ed)"
    by (simp_all add: detector_ok_def)
  show ?thesis
    using assms(1,3) trySave_cases [OF assms(2), of e] assms(2) disk_ok_save [OF d(1) assms(2) d(2)]
      disk_ok_fail [OF d(1)]
    by (auto simp: detector_ok_def split: if_splits)
qed

lemma resetEpisode_ok: "detector_ok ed \<Longrightarrow> detector_ok (resetEpisode ed)"
  by (simp add: detector_ok_def resetEpisode_def)

lemma bufferFrame_simps [simp]:
  "episodeMonotonicStart (bufferFrame frame t ed) = episodeMonotonicStart ed"
  "episodeSkipReason (bufferFrame frame t ed) = episodeSkipReason ed"
  "episodeIndex (bufferFrame frame t ed) = episodeIndex ed"
  "stats (bufferFrame frame t ed) = stats ed"
  "disk (bufferFrame frame t ed) = disk ed"
  "duration (bufferFrame frame t ed) = duration ed"
  "lastMovementStamp (bufferFrame frame t ed) = lastMovementStamp ed"
  "\<exists>f. TimestampNsSinceEpisodeStart f = t \<and> buffer (bufferFrame frame t ed) = buffer ed @ [f]"
  by (simp_all add: bufferFrame_def Let_def)

lemma startNewEpisode_ok:
  assumes "detector_ok ed" and "episodeMonotonicStart ed = 0"
  shows "detector_ok (startNewEpisode e frame ed)"
proof -
  let ?ed = "ed\<lparr>episodeMonotonicStart := GetMonotonicStampNs frame, episodeLocalStart := now e,
      lastMovementStamp := GetMonotonicStampNs frame, commandsCnt := 1,
      stats := (stats ed)\<lparr>EpisodesStarted := EpisodesStarted (stats ed) + 1\<rparr>, buffer := []\<rparr>"
  obtain f where "TimestampNsSinceEpisodeStart f = 0" "buffer (bufferFrame frame 0 ?ed) = [f]"
    using bufferFrame_simps(8) [of 0 frame ?ed] by auto
  with assms show ?thesis by (auto simp: startNewEpisode_def Let_def detector_ok_def gap_free_one)
qed

text \<open>The gap check keeps everything but the mark, and an unmarked episode has a small gap.\<close>

lemma checkGap_ok:
  assumes "detector_ok ed" and "episodeMonotonicStart ed \<noteq> 0"
  shows "\<exists>ed'. checkGap e frame t ed = Inr ed' \<and> detector_ok ed'
    \<and> episodeMonotonicStart ed' = episodeMonotonicStart ed \<and> buffer ed' = buffer ed
    \<and> stats ed' = stats ed \<and> disk ed' = disk ed \<and> episodeIndex ed' = episodeIndex ed
    \<and> (episodeSkipReason ed' = [] \<longrightarrow> t - TimestampNsSinceEpisodeStart (last (buffer ed)) \<le> half_second)"
proof -
  have ne: "buffer ed \<noteq> []" using assms by (simp add: detector_ok_def)
  then show ?thesis
    using assms by (auto simp: checkGap_def list_at_last markEpisodeSkip_def gap_reason_def Let_def detector_ok_def not_less)
qed

lemma trackCommands_simps [simp]:
  "detector_ok (trackCommands g t ed) = detector_ok ed"
  "episodeMonotonicStart (trackCommands g t ed) = episodeMonotonicStart ed"
  "stats (trackCommands g t ed) = stats ed"
  "disk (trackCommands g t ed) = disk ed"
  "episodeIndex (trackCommands g t ed) = episodeIndex ed"
  by (simp_all add: trackCommands_def detector_ok_def updateGoalTracking_def)

lemma keepFrame_ok:
  assumes "detector_ok ed" and "episodeMonotonicStart ed \<noteq> 0"
    and "episodeSkipReason ed = [] \<longrightarrow> t - TimestampNsSinceEpisodeStart (last (buffer ed)) \<le> half_second"
  shows "detector_ok (keepFrame frame t ed) \<and> buffer (keepFrame frame t ed) \<noteq> []"
proof -
  obtain f where "TimestampNsSinceEpisodeStart f = t" "buffer (bufferFrame frame t ed) = buffer ed @ [f]"
    using bufferFrame_simps(8) by blast
  with assms gap_free_snoc [of "buffer ed" f] show ?thesis
    by (auto simp: keepFrame_def detector_ok_def)
qed

lemma keepFrame_simps [simp]:
  "episodeMonotonicStart (keepFrame frame t ed) = episodeMonotonicStart ed"
  "stats (keepFrame frame t ed) = stats ed"
  by (simp_all add: keepFrame_def)

text \<open>A frame inside an episode, step by step.\<close>

lemma episode_frame:
  assumes "detector_ok ed" and "length (GetImages frame) \<noteq> 0" and "episodeMonotonicStart ed \<noteq> 0"
  shows "\<exists>ed'. ProcessFrame e frame ed =
      endEpisode e (GetMonotonicStampNs frame) (GetMonotonicStampNs frame - episodeMonotonicStart ed) ed'
    \<and> detector_ok ed' \<and> buffer ed' \<noteq> [] \<and> episodeMonotonicStart ed' = episodeMonotonicStart ed
    \<and> stats ed' = stats ed"
proof -
  let ?t = "GetMonotonicStampNs frame - episodeMonotonicStart ed"
  let ?ed1 = "trackCommands (map GetGoal (GetJoints frame)) (GetMonotonicStampNs frame) ed"
  obtain ed2 where ed2: "checkGap e frame ?t ?ed1 = Inr ed2" "detector_ok ed2"
    "episodeMonotonicStart ed2 = episodeMonotonicStart ed" "buffer ed2 = buffer ?ed1" "stats ed2 = stats ed"
    "episodeSkipReason ed2 = [] \<longrightarrow> ?t - TimestampNsSinceEpisodeStart (last (buffer ed2)) \<le> half_second"
    using checkGap_ok [of ?ed1 e frame ?t] assms by auto
  then have "ProcessFrame e frame ed = endEpisode e (GetMonotonicStampNs frame) ?t (keepFrame frame ?t ed2)"
    using assms by (simp add: ProcessFrame_def Let_def)
  with keepFrame_ok [OF ed2(2) _ ed2(6)] ed2(3,5) assms(3) show ?thesis by auto
qed

lemma idle_frame:
  assumes "length (GetImages frame) \<noteq> 0" and "episodeMonotonicStart ed = 0"
  shows "ProcessFrame e frame ed = Inr (updateGoalTracking (map GetGoal (GetJoints frame))
    (if hasCommandsChanged ed (map GetGoal (GetJoints frame)) then startNewEpisode e frame ed else ed))"
  using assms by (simp add: ProcessFrame_def Let_def)

lemma updateGoalTracking_simps [simp]:
  "detector_ok (updateGoalTracking g ed) = detector_ok ed"
  "episodeMonotonicStart (updateGoalTracking g ed) = episodeMonotonicStart ed"
  "stats (updateGoalTracking g ed) = stats ed"
  by (simp_all add: updateGoalTracking_def detector_ok_def)

lemma endEpisode_ok:
  assumes "detector_ok ed" and "buffer ed \<noteq> []"
  shows "\<exists>ed'. endEpisode e stamp t ed = Inr ed' \<and> detector_ok ed'"
proof -
  obtain ed' where "trySaveCurrentEpisode e ed = Inr ed'" using trySave_cases [OF assms(2)] by blast
  with assms trySave_ok [OF assms] resetEpisode_ok show ?thesis by (auto simp: endEpisode_def)
qed

lemma ProcessFrame_ok:
  assumes "detector_ok ed"
  shows "\<exists>ed'. ProcessFrame e frame ed = Inr ed' \<and> detector_ok ed'"
proof (cases "length (GetImages frame) = 0")
  case True
  with assms show ?thesis by (simp add: ProcessFrame_def detector_ok_def)
next
  case False
  show ?thesis
  proof (cases "episodeMonotonicStart ed = 0")
    case True
    with idle_frame [OF False True] assms startNewEpisode_ok [OF assms True] show ?thesis by auto
  next
    case started: False
    then show ?thesis using episode_frame [OF assms False started, of e] endEpisode_ok by metis
  qed
qed

subsection \<open>Counting episodes\<close>

definition in_episode :: "EpisodeDetector \<Rightarrow> uint64" where
  "in_episode ed = (if episodeMonotonicStart ed \<noteq> 0 then 1 else 0)"

definition counted :: "EpisodeDetector \<Rightarrow> bool" where
  "counted ed \<longleftrightarrow>
     EpisodesStarted (stats ed) = EpisodesSaved (stats ed) + EpisodesDiscarded (stats ed) + in_episode ed"

definition disk_works :: "env \<Rightarrow> bool" where
  "disk_works e \<longleftrightarrow> mkdir_ok e \<and> create_ok e \<and> write_ok e"

lemma trySave_counts:
  assumes "disk_works e" and "buffer ed \<noteq> []" and "trySaveCurrentEpisode e ed = Inr ed'"
  shows "EpisodesStarted (stats ed') = EpisodesStarted (stats ed)
    \<and> EpisodesSaved (stats ed') + EpisodesDiscarded (stats ed') = EpisodesSaved (stats ed) + EpisodesDiscarded (stats ed) + 1"
  using assms trySave_cases [OF assms(2), of e] by (auto simp: disk_works_def split: if_splits)

lemma ProcessFrame_counted:
  assumes "detector_ok ed" and "counted ed" and "disk_works e" and "GetMonotonicStampNs frame \<noteq> 0"
    and "ProcessFrame e frame ed = Inr ed'"
  shows "counted ed'"
proof (cases "length (GetImages frame) = 0")
  case True
  with assms(2,5) show ?thesis by (auto simp: ProcessFrame_def counted_def in_episode_def)
next
  case False
  show ?thesis
  proof (cases "episodeMonotonicStart ed = 0")
    case True
    with idle_frame [OF False True, of e] assms show ?thesis
      by (auto simp: counted_def in_episode_def startNewEpisode_def Let_def split: if_splits)
  next
    case started: False
    obtain ed1 where ed1: "ProcessFrame e frame ed = endEpisode e (GetMonotonicStampNs frame)
        (GetMonotonicStampNs frame - episodeMonotonicStart ed) ed1" "buffer ed1 \<noteq> []"
        "episodeMonotonicStart ed1 = episodeMonotonicStart ed" "stats ed1 = stats ed"
      using episode_frame [OF assms(1) False started] by blast
    then have c: "counted ed1" using assms(2) by (simp add: counted_def in_episode_def)
    obtain ed2 where "trySaveCurrentEpisode e ed1 = Inr ed2" using trySave_cases [OF ed1(2)] by blast
    with ed1 c started assms(5) trySave_counts [OF assms(3) ed1(2)] show ?thesis
      by (auto simp: endEpisode_def counted_def in_episode_def resetEpisode_def split: if_splits)
  qed
qed

subsection \<open>Runs\<close>

text \<open>\<open>for frame := range frames { detector.ProcessFrame(frame) }\<close>; a panic ends the run.\<close>

definition detect :: "unit fault + EpisodeDetector \<Rightarrow> env \<times> FrameReader \<Rightarrow> unit fault + EpisodeDetector" where
  "detect s i = andThen s (ProcessFrame (fst i) (snd i))"

interpretation detector: driven detect "\<lambda>_. True" "\<lambda>s. \<exists>ed. s = Inr ed \<and> detector_ok ed"
  by unfold_locales (auto simp: detect_def ProcessFrame_ok)

definition good_input :: "env \<times> FrameReader \<Rightarrow> bool" where
  "good_input i \<longleftrightarrow> disk_works (fst i) \<and> GetMonotonicStampNs (snd i) \<noteq> 0"

interpretation counting: driven detect good_input "\<lambda>s. \<exists>ed. s = Inr ed \<and> detector_ok ed \<and> counted ed"
proof
  fix s :: "unit fault + EpisodeDetector" and i
  assume "\<exists>ed. s = Inr ed \<and> detector_ok ed \<and> counted ed" and i: "good_input i"
  then obtain ed where ed: "s = Inr ed" "detector_ok ed" "counted ed" by blast
  obtain ed' where "ProcessFrame (fst i) (snd i) ed = Inr ed'" "detector_ok ed'"
    using ProcessFrame_ok [OF ed(2)] by blast
  with ed i ProcessFrame_counted [OF ed(2,3)]
  show "\<exists>ed. detect s i = Inr ed \<and> detector_ok ed \<and> counted ed"
    by (auto simp: detect_def good_input_def)
qed

lemma new_ok: "detector_ok (NewEpisodeDetector dur t minc prog) \<and> counted (NewEpisodeDetector dur t minc prog)"
  by (simp add: NewEpisodeDetector_def detector_ok_def disk_ok_def counted_def in_episode_def)

definition demo_env :: env where
  "demo_env = \<lparr>id_string = (\<lambda>_. []), now = 1, mkdir_ok = True, create_ok = True, write_ok = True\<rparr>"

definition demo_frame :: "uint64 \<Rightarrow> uint32 \<Rightarrow> FrameReader" where
  "demo_frame stamp goal = \<lparr>GetImages = [[1]], GetMonotonicStampNs = stamp,
     GetJoints = [\<lparr>GetRangeMin = 0, GetRangeMax = 9, GetPosition = 3, GetPositionNorm = 0, GetGoal = goal,
       GetGoalNorm = 0, GetCurrentMa = 0, GetVelocity = 0\<rparr>], GetGlobalFrameId = [1]\<rparr>"





lemma hasCommandsChanged_cong [simp]:
  "hasCommandsChanged (ed\<lparr>buffer := b\<rparr>) g = hasCommandsChanged ed g"
  by (simp add: hasCommandsChanged_def)


definition demo_first :: Frame where
  "demo_first = \<lparr>EpisodeStartNS = 1, GlobalFrameID = [1], TimestampNsSinceEpisodeStart = 0, Joints = [],
     Images = [], Task = []\<rparr>"

definition demo_running :: EpisodeDetector where
  "demo_running = (NewEpisodeDetector 0 [] 1 False)\<lparr>episodeMonotonicStart := 6000000000,
     commandsCnt := 1, lastGoals := [1], buffer := [demo_first]\<rparr>"

lemmas demo_step = ProcessFrame_def demo_running_def NewEpisodeDetector_def demo_frame_def
  demo_env_def hasCommandsChanged_def trackCommands_def checkGap_def list_at_def half_second_def demo_first_def
  keepFrame_def bufferFrame_def endEpisode_def five_seconds_def trySaveCurrentEpisode_def resetEpisode_def
  send_def Let_def word_sle_eq


subsection \<open>Finalize\<close>

definition merge_works :: "merge_env \<Rightarrow> bool" where
  "merge_works g \<longleftrightarrow> open_ok g = (\<lambda>_. True) \<and> parse_ok g = (\<lambda>_. True) \<and> merged_create_ok g \<and> copy_ok g \<and> close_ok g"

definition rows_of :: "(uint64 \<rightharpoonup> ep_file) \<Rightarrow> uint64 \<Rightarrow> Frame list" where
  "rows_of d i = (case d i of Some (Some rows) \<Rightarrow> rows | _ \<Rightarrow> [])"

lemma read_files_all:
  assumes "merge_works g" and "\<And>i. i \<in> set is \<Longrightarrow> \<exists>rows. d i = Some (Some rows)"
  shows "read_files g d is = Some (map (rows_of d) is)"
  using assms(2)
proof (induction "is")
  case (Cons i "is")
  then obtain rows where "d i = Some (Some rows)" by auto
  with Cons assms(1) show ?case by (simp add: merge_works_def rows_of_def)
qed simp

definition episode_numbers :: "uint64 \<Rightarrow> uint64 list" where
  "episode_numbers n = map of_nat [0..<unat n]"

lemma episode_numbers_less: "i \<in> set (episode_numbers n) \<Longrightarrow> i < n"
  using unsigned_less [where w = n and 'a = nat]
  by (auto simp: episode_numbers_def word_less_nat_alt unat_of_nat)

lemma Finalize_result:
  assumes "detector_ok ed" and "merge_works g"
  shows "\<exists>ed' ed''. Finalize e g ed = Inr ed'
    \<and> (if episodeMonotonicStart ed \<noteq> 0 then trySaveCurrentEpisode e ed else Inr ed) = Inr ed''
    \<and> (EpisodesSaved (stats ed'') \<noteq> 0 \<longrightarrow>
        merged ed' = Some (Some (concat (map (rows_of (disk ed'')) (episode_numbers (EpisodesSaved (stats ed''))))))
      \<and> (\<forall>i \<in> set (episode_numbers (EpisodesSaved (stats ed''))).
          gap_free (rows_of (disk ed'') i) \<and> rows_of (disk ed'') i \<noteq> [] \<and> disk ed' i = None))
    \<and> (EpisodesSaved (stats ed'') = 0 \<longrightarrow> ed' = ed'')"
proof -
  obtain ed'' where ed'': "(if episodeMonotonicStart ed \<noteq> 0 then trySaveCurrentEpisode e ed else Inr ed) = Inr ed''"
      "detector_ok ed''"
  proof (cases "episodeMonotonicStart ed = 0")
    case False
    then have "buffer ed \<noteq> []" using assms(1) by (simp add: detector_ok_def)
    with False trySave_cases [OF this, of e] trySave_ok [OF assms(1) this] that show ?thesis by auto
  qed (use assms(1) that in auto)
  let ?n = "EpisodesSaved (stats ed'')"
  have files: "\<exists>rows. disk ed'' i = Some (Some rows)" if "i \<in> set (episode_numbers ?n)" for i
    using ed''(2) episode_numbers_less [OF that] by (auto simp: detector_ok_def disk_ok_def)
  have idx: "episodeIndex ed'' = ?n" using ed''(2) by (simp add: detector_ok_def)
  have gap: "gap_free (rows_of (disk ed'') i) \<and> rows_of (disk ed'') i \<noteq> []" if "i \<in> set (episode_numbers ?n)" for i
    using files [OF that] ed''(2) by (auto simp: detector_ok_def disk_ok_def rows_of_def)
  have "Finalize e g ed = Inr (mergeParquetFiles g ed'')" by (simp only: Finalize_def ed''(1) andThen_simps)
  moreover have "mergeParquetFiles g ed'' = (if ?n = 0 then ed'' else
      ed''\<lparr>merged := Some (Some (concat (map (rows_of (disk ed'')) (episode_numbers ?n)))),
        disk := disk ed'' |` (- set (episode_numbers ?n))\<rparr>)"
    using read_files_all [OF assms(2) files] assms(2)
    by (simp add: mergeParquetFiles_def idx Let_def episode_numbers_def [symmetric] merge_works_def)
  ultimately show ?thesis using ed''(1) gap by (intro exI [of _ "mergeParquetFiles g ed''"] exI [of _ ed'']) simp
qed

text \<open>C34: after any run, \<open>Finalize\<close> does not panic; with a working file system it merges the
  saved episodes, in the order of their numbers and each gap-free, into one file and removes
  their own files.\<close>

theorem Finalize_merges:
  assumes "detector_ok ed" and "merge_works g"
  shows "\<exists>ed' ed''. Finalize e g ed = Inr ed'
    \<and> (if episodeMonotonicStart ed \<noteq> 0 then trySaveCurrentEpisode e ed else Inr ed) = Inr ed''
    \<and> (EpisodesSaved (stats ed'') \<noteq> 0 \<longrightarrow>
        merged ed' = Some (Some (concat (map (rows_of (disk ed'')) (episode_numbers (EpisodesSaved (stats ed''))))))
      \<and> (\<forall>i \<in> set (episode_numbers (EpisodesSaved (stats ed''))).
          gap_free (rows_of (disk ed'') i) \<and> rows_of (disk ed'') i \<noteq> [] \<and> disk ed' i = None))
    \<and> (EpisodesSaved (stats ed'') = 0 \<longrightarrow> ed' = ed'')"
  using assms by (rule Finalize_result)

lemma Finalize_merges_witness:
  "\<exists>ed' ed''. Finalize demo_env \<lparr>open_ok = (\<lambda>_. True), parse_ok = (\<lambda>_. True), merged_create_ok = True, copy_ok = True, close_ok = True\<rparr> demo_running = Inr ed'
    \<and> (if episodeMonotonicStart demo_running \<noteq> 0 then trySaveCurrentEpisode demo_env demo_running else Inr demo_running) = Inr ed''"
  using Finalize_merges [of demo_running "\<lparr>open_ok = (\<lambda>_. True), parse_ok = (\<lambda>_. True), merged_create_ok = True,
      copy_ok = True, close_ok = True\<rparr>" demo_env]
  by (auto simp: merge_works_def detector_ok_def demo_running_def NewEpisodeDetector_def gap_free_one demo_first_def disk_ok_def)

end
