(* ===== verification/Go_Strings.thy ===== *)
theory Go_Strings
  imports Go_Runtime
begin

section \<open>Strings of Go\<close>

text \<open>
  The functions of the \<^verbatim>\<open>strings\<close> package the modelled code uses, on strings as byte lists, and
  that splitting and joining at a separator undo each other.
\<close>

text \<open>\<^verbatim>\<open>strings.Join\<close>, and \<^verbatim>\<open>strings.Split\<close> at a single character\<close>

fun join :: "string \<Rightarrow> string list \<Rightarrow> string" where
  "join sep [] = []"
| "join sep [s] = s"
| "join sep (s # t # ss) = s @ sep @ join sep (t # ss)"

fun split_on :: "char \<Rightarrow> string \<Rightarrow> string list" where
  "split_on d [] = [[]]"
| "split_on d (c # cs) =
     (if c = d then [] # split_on d cs
      else (case split_on d cs of [] \<Rightarrow> [[c]] | x # xs \<Rightarrow> (c # x) # xs))"

lemma split_on_nonempty [simp]: "split_on d s \<noteq> []"
  by (induction s) (auto split: list.splits)

lemma join_Cons: "xs \<noteq> [] \<Longrightarrow> join d (x # xs) = x @ d @ join d xs"
  by (cases xs) auto

lemma join_snoc: "xs \<noteq> [] \<Longrightarrow> join d (xs @ [x]) = join d xs @ d @ x"
  by (induction d xs rule: join.induct) auto

lemma join_split_on: "join [d] (split_on d s) = s"
proof (induction s)
  case (Cons c s)
  obtain x xs where "split_on d s = x # xs" by (cases "split_on d s") auto
  with Cons show ?case by (cases xs) auto
qed simp

lemma split_on_plain: "d \<notin> set s \<Longrightarrow> split_on d s = [s]"
  by (induction s) auto

lemma split_on_append: "d \<notin> set s \<Longrightarrow> split_on d (s @ d # t) = s # split_on d t"
  by (induction s) auto

definition plain :: "char \<Rightarrow> string list \<Rightarrow> bool" where
  "plain d xs \<longleftrightarrow> list_all (\<lambda>x. d \<notin> set x) xs"

lemma plain_simps [simp]: "plain d []" "plain d (x # xs) \<longleftrightarrow> d \<notin> set x \<and> plain d xs"
  "plain d (xs @ ys) \<longleftrightarrow> plain d xs \<and> plain d ys"
  by (simp_all add: plain_def)

lemma split_on_join: "xs \<noteq> [] \<Longrightarrow> plain d xs \<Longrightarrow> split_on d (join [d] xs) = xs"
  by (induction "[d]" xs rule: join.induct) (auto simp: split_on_plain split_on_append)

lemma plain_split_on: "plain d (split_on d s)"
  by (induction s) (auto split: list.splits)

lemma join_inject:
  "xs \<noteq> [] \<Longrightarrow> ys \<noteq> [] \<Longrightarrow> plain d xs \<Longrightarrow> plain d ys \<Longrightarrow> join [d] xs = join [d] ys \<longleftrightarrow> xs = ys"
  by (metis split_on_join)

lemma join_eq_Nil: "plain d xs \<Longrightarrow> join [d] xs = [] \<longleftrightarrow> xs = [] \<or> xs = [[]]"
  by (induction "[d]" xs rule: join.induct) auto

text \<open>\<^verbatim>\<open>strings.Index\<close> and \<^verbatim>\<open>strings.Contains\<close>\<close>

fun index_of :: "string \<Rightarrow> string \<Rightarrow> nat option" where
  "index_of sub [] = (if sub = [] then Some 0 else None)"
| "index_of sub (c # cs) =
     (if take (length sub) (c # cs) = sub then Some 0 else map_option Suc (index_of sub cs))"

definition contains :: "string \<Rightarrow> string \<Rightarrow> bool" where
  "contains s sub \<longleftrightarrow> index_of sub s \<noteq> None"

text \<open>The text behind the first place where a key occurs.\<close>

lemma index_of_append:
  assumes "\<And>j. j < length a \<Longrightarrow> take (length sub) (drop j (a @ sub @ b)) \<noteq> sub"
  shows "index_of sub (a @ sub @ b) = Some (length a)"
  using assms
proof (induction a)
  case Nil
  then show ?case by (cases "sub @ b") (auto, metis append_eq_conv_conj)
next
  case (Cons c a)
  have "index_of sub (a @ sub @ b) = Some (length a)"
    by (rule Cons.IH) (use Cons.prems [of "Suc _"] in simp)
  with Cons.prems [of 0] show ?case by simp
qed

end
