(* ===== verification/Tui_Model.thy ===== *)
theory Tui_Model
  imports Episode_Properties Go_Strings
begin

section \<open>The terminal UI of the dataset generator\<close>

text \<open>
  \<^verbatim>\<open>station/bin/dataset-generator/internal/ui\<close>: \<^verbatim>\<open>model.go\<close>, the state of the screen with its
  \<^verbatim>\<open>Update\<close> and \<^verbatim>\<open>View\<close>, and from \<^verbatim>\<open>runner.go\<close> the writer that turns log lines into messages.
  The \<^verbatim>\<open>bubbletea\<close> loop hands messages to \<open>Update\<close> one by one. The styles of \<^verbatim>\<open>lipgloss\<close>, the
  printed pointers and progress of \<^verbatim>\<open>uintn\<close>, the clock and what is computed in floating point are
  fields of \<open>screen_env\<close>; strings are their bytes, so the two box characters are three bytes each.
\<close>

record 'p Params =
  Robot :: string
  Queue :: string
  ParamTask :: string
  Duration :: int
  Output :: string
  ParamFrom :: 'p
  ParamTo :: 'p

record LogLine =
  LogLevel :: string
  Message :: string

record 'p ProgressMsg =
  Current :: 'p
  Total :: 'p
  FramesProcessed :: uint64
  FramesSkipped :: uint64
  FramesSkipReason :: string

text \<open>What arrives at \<open>Update\<close>; an error is its text.\<close>

datatype 'p TuiMsg =
    KeyMsg string
  | WindowSizeMsg int int
  | TickMsg
  | Progress "'p ProgressMsg"
  | Episode Msg
  | Log LogLine
  | DoneMsg "string option"
  | OtherMsg

datatype Cmd = NoCmd | TickCmd | Quit

record 'p Model =
  params :: "'p Params"
  current :: 'p
  framesProcessed :: uint64
  framesSkipped :: uint64
  framesSkipReason :: string
  episodeCount :: uint64
  episodesDiscarded :: uint64
  discardedReasons :: "string list"
  discardedFrameIds :: "string list"
  currentEpisodeIndex :: uint64
  framesInEpisode :: int64
  totalFramesSaved :: int64
  uiSkipReason :: string
  startTime :: int
  logs :: "LogLine list"
  finished :: bool
  failure :: "string option"
  width :: int
  height :: int

definition minLogLines :: int where "minLogLines = 3"

definition NewModel :: "int \<Rightarrow> 'p Params \<Rightarrow> 'p Model" where
  "NewModel start p = \<lparr>params = p, current = ParamFrom p, framesProcessed = 0, framesSkipped = 0,
     framesSkipReason = [], episodeCount = 0, episodesDiscarded = 0, discardedReasons = [],
     discardedFrameIds = [], currentEpisodeIndex = 0, framesInEpisode = 0, totalFramesSaved = 0,
     uiSkipReason = [], startTime = start, logs = [], finished = False, failure = None,
     width = 80, height = 24\<rparr>"

definition maxLogLines :: "'p Model \<Rightarrow> int" where
  "maxLogLines m = (let available = height m - 12 in if available < minLogLines then minLogLines else available)"

subsection \<open>Update\<close>

definition noteEpisode :: "Msg \<Rightarrow> 'p Model \<Rightarrow> 'p Model" where
  "noteEpisode msg m = (case msg of
     EpisodeStartedMsg index \<Rightarrow> m\<lparr>currentEpisodeIndex := index, framesInEpisode := 0, uiSkipReason := []\<rparr>
   | EpisodeSkipMarkedMsg index reason \<Rightarrow> m\<lparr>uiSkipReason := reason\<rparr>
   | EpisodeSavedMsg index frames \<Rightarrow>
       m\<lparr>episodeCount := episodeCount m + 1, totalFramesSaved := totalFramesSaved m + of_int frames,
         framesInEpisode := 0, uiSkipReason := []\<rparr>
   | EpisodeDiscardedMsg index reason frameId \<Rightarrow>
       m\<lparr>episodesDiscarded := episodesDiscarded m + 1, discardedReasons := discardedReasons m @ [reason],
         discardedFrameIds := discardedFrameIds m @ [frameId], framesInEpisode := 0, uiSkipReason := []\<rparr>
   | FrameBufferedMsg \<Rightarrow> m\<lparr>framesInEpisode := framesInEpisode m + 1\<rparr>)"

definition addLog :: "LogLine \<Rightarrow> 'p Model \<Rightarrow> 'p Model" where
  "addLog msg m =
     (let ls = logs m @ [msg]; maxLogs = maxLogLines m in
      m\<lparr>logs := (if int (length ls) > maxLogs then drop (nat (int (length ls) - maxLogs)) ls else ls)\<rparr>)"

definition Update :: "'p TuiMsg \<Rightarrow> 'p Model \<Rightarrow> 'p Model \<times> Cmd" where
  "Update msg m = (case msg of
     KeyMsg key \<Rightarrow>
       if finished m then (m, Quit)
       else if key = ''ctrl+c'' \<or> key = ''q'' then (m, Quit) else (m, NoCmd)
   | WindowSizeMsg w h \<Rightarrow> (m\<lparr>width := w, height := h\<rparr>, NoCmd)
   | TickMsg \<Rightarrow> (m, TickCmd)
   | Progress p \<Rightarrow>
       (m\<lparr>current := Current p, framesProcessed := FramesProcessed p, framesSkipped := FramesSkipped p,
          framesSkipReason := FramesSkipReason p\<rparr>, NoCmd)
   | Episode e \<Rightarrow> (noteEpisode e m, NoCmd)
   | Log l \<Rightarrow> (addLog l m, NoCmd)
   | DoneMsg err \<Rightarrow> (m\<lparr>finished := True, failure := err\<rparr>, Quit)
   | OtherMsg \<Rightarrow> (m, NoCmd))"

text \<open>The loop hands on messages until a \<open>Quit\<close>.\<close>

fun run_ui :: "'p TuiMsg list \<Rightarrow> 'p Model \<Rightarrow> 'p Model \<times> bool" where
  "run_ui [] m = (m, False)"
| "run_ui (msg # ms) m = (case Update msg m of
     (m, Quit) \<Rightarrow> (m, True)
   | (m, _) \<Rightarrow> run_ui ms m)"

subsection \<open>View\<close>

datatype Style = titleStyle | progressBarStyle | progressEmptyStyle | statsStyle | paramsStyle
  | logInfoStyle | logWarnStyle | logErrorStyle | separatorStyle

record ('p, 'f) screen_env =
  Render :: "Style \<Rightarrow> string \<Rightarrow> string"
  String :: "'p \<Rightarrow> string"
  ProgressOf :: "'p \<Rightarrow> 'p \<Rightarrow> 'p \<Rightarrow> 'f"
  percent :: "'f \<Rightarrow> string"
  scaled :: "int \<Rightarrow> 'f \<Rightarrow> int"
  rate :: "uint64 \<Rightarrow> int \<Rightarrow> string"
  duration_string :: "int \<Rightarrow> string"
  clock :: int

definition newline :: string where "newline = [CHR 0x0A]"

text \<open>\<open>strings.Repeat\<close> panics for a negative count.\<close>

definition Repeat :: "string \<Rightarrow> int \<Rightarrow> unit fault + string" where
  "Repeat s n = (if n < 0 then Inl Panic else Inr (concat (replicate (nat n) s)))"

definition full_block :: string where "full_block = [CHR 0xE2, CHR 0x96, CHR 0x88]"
definition light_shade :: string where "light_shade = [CHR 0xE2, CHR 0x96, CHR 0x91]"
definition horizontal :: string where "horizontal = [CHR 0xE2, CHR 0x94, CHR 0x80]"

definition renderProgress :: "('p, 'f) screen_env \<Rightarrow> 'p Model \<Rightarrow> unit fault + string" where
  "renderProgress e m =
     (let progress = ProgressOf e (current m) (ParamFrom (params m)) (ParamTo (params m));
          currentStr = String e (current m);
          toStr = String e (ParamTo (params m));
          fixedWidth = 22 + int (length currentStr) + int (length toStr);
          barWidth = width m - fixedWidth;
          barWidth = (if barWidth < 10 then 10 else barWidth);
          filled = scaled e barWidth progress;
          unfilled = barWidth - filled
      in
      andThen (Repeat full_block filled) (\<lambda>a.
      andThen (Repeat light_shade unfilled) (\<lambda>b.
        Inr (''Progress: ['' @ Render e progressBarStyle a @ Render e progressEmptyStyle b @ ''] '' @
          percent e progress @ ''%  '' @ currentStr @ ''/'' @ toStr))))"

text \<open>\<open>%02d\<close> of a number that is not negative, and the division of \<open>int\<close> (towards zero).\<close>

definition pad2 :: "int \<Rightarrow> string" where
  "pad2 n = (if n < 10 then ''0'' @ dec (nat n) else dec (nat n))"

definition second :: int where "second = 1000000000"

text \<open>\<open>Hours\<close>, \<open>Minutes\<close> and \<open>Seconds\<close> of a duration that is not negative, cut to whole numbers.\<close>

definition formatDuration :: "int \<Rightarrow> string" where
  "formatDuration d =
     (let h = d div (3600 * second); m = d div (60 * second) mod 60; s = d div second mod 60
      in pad2 h @ '':'' @ pad2 m @ '':'' @ pad2 s)"

definition decs :: "uint64 \<Rightarrow> string" where "decs n = dec (unat n)"

text \<open>\<open>%d\<close> of an \<open>int\<close>\<close>

definition deci :: "int64 \<Rightarrow> string" where
  "deci n = (if sint n < 0 then ''-'' @ dec (nat (- sint n)) else dec (nat (sint n)))"

definition rate_of :: "('p, 'f) screen_env \<Rightarrow> 'p Model \<Rightarrow> int \<Rightarrow> string" where
  "rate_of e m elapsed = (if elapsed > 0 \<and> framesProcessed m > 0 then rate e (framesProcessed m) elapsed else ''0'')"

definition renderStats :: "('p, 'f) screen_env \<Rightarrow> 'p Model \<Rightarrow> string" where
  "renderStats e m =
     (let episodeStatus = (if uiSkipReason m \<noteq> [] then ''skip: '' @ uiSkipReason m else ''working'');
          episodeLine = ''Episode: #'' @ decs (currentEpisodeIndex m) @ '' ('' @ episodeStatus @
            '')    Frames in episode: '' @ deci (framesInEpisode m) @ ''    Total saved: '' @ deci (totalFramesSaved m);
          elapsed = clock e - startTime m;
          rateLine = ''Rate: '' @ rate_of e m elapsed @ '' frames/sec   Elapsed: '' @ formatDuration elapsed @
            ''   Episodes saved: '' @ decs (episodeCount m) @ ''   Episodes discarded: '' @ decs (episodesDiscarded m) @
            ''   Frames processed: '' @ decs (framesProcessed m)
      in Render e statsStyle (episodeLine @ newline @ rateLine))"

definition renderParams :: "('p, 'f) screen_env \<Rightarrow> 'p Model \<Rightarrow> string" where
  "renderParams e m =
     (let p = params m;
          line1 = ''Robot: '' @ Robot p @ ''    Queue: '' @ Queue p @ ''    Duration: '' @ duration_string e (Duration p);
          t = (if length (ParamTask p) > 50 then take 47 (ParamTask p) @ ''...'' else ParamTask p);
          line2 = ''Output: '' @ Output p @ ''    Task: '' @ t
      in Render e paramsStyle (line1 @ newline @ line2))"

definition log_style :: "string \<Rightarrow> Style" where
  "log_style l =
     (if l = ''WRN'' \<or> l = ''WARN'' then logWarnStyle
      else if l = ''ERR'' \<or> l = ''ERROR'' then logErrorStyle else logInfoStyle)"

text \<open>The text of a log line, cut to the width: \<open>msg[:maxLen-3]\<close> panics for a negative bound.\<close>

definition cut_message :: "int \<Rightarrow> string \<Rightarrow> unit fault + string" where
  "cut_message w msg =
     (let maxLen = w - 10 in
      if maxLen > 0 \<and> int (length msg) > maxLen
      then (if maxLen - 3 < 0 then Inl Panic else Inr (take (nat (maxLen - 3)) msg @ ''...''))
      else Inr msg)"

fun render_lines :: "('p, 'f) screen_env \<Rightarrow> int \<Rightarrow> LogLine list \<Rightarrow> unit fault + string list" where
  "render_lines e w [] = Inr []"
| "render_lines e w (l # ls) =
     andThen (cut_message w (Message l)) (\<lambda>msg.
     andThen (render_lines e w ls) (\<lambda>rest.
       Inr (Render e (log_style (LogLevel l)) (''['' @ LogLevel l @ ''] '' @ msg) # rest)))"

definition renderLogs :: "('p, 'f) screen_env \<Rightarrow> 'p Model \<Rightarrow> unit fault + string" where
  "renderLogs e m =
     (if length (logs m) = 0 then Inr (Render e paramsStyle ''(no logs yet)'')
      else
        let maxLogs = maxLogLines m;
            ls = (if int (length (logs m)) > maxLogs
                  then drop (nat (int (length (logs m)) - maxLogs)) (logs m) else logs m)
        in andThen (render_lines e (width m) ls) (\<lambda>lines. Inr (join newline lines)))"

definition renderSeparator :: "('p, 'f) screen_env \<Rightarrow> 'p Model \<Rightarrow> unit fault + string" where
  "renderSeparator e m = andThen (Repeat horizontal (width m)) (\<lambda>s. Inr (Render e separatorStyle s))"

definition View :: "('p, 'f) screen_env \<Rightarrow> 'p Model \<Rightarrow> unit fault + string" where
  "View e m =
     andThen (renderProgress e m) (\<lambda>progress.
     andThen (renderSeparator e m) (\<lambda>sep.
     andThen (renderLogs e m) (\<lambda>ls.
       Inr (progress @ newline @ sep @ newline @ renderStats e m @ newline @ sep @ newline
         @ renderParams e m @ newline @ sep @ newline @ ls
         @ (if finished m then newline @
             (case failure m of Some err \<Rightarrow> Render e logErrorStyle (''Error: '' @ err)
              | None \<Rightarrow> Render e titleStyle ''Processing complete!'') else [])))))"

subsection \<open>The summary\<close>

definition cross_mark :: string where "cross_mark = [CHR 0xE2, CHR 0x9D, CHR 0x8C]"
definition check_mark :: string where "check_mark = [CHR 0xE2, CHR 0x9C, CHR 0x85]"
definition warning_sign :: string where
  "warning_sign = [CHR 0xE2, CHR 0x9A, CHR 0xA0, CHR 0xEF, CHR 0xB8, CHR 0x8F]"

text \<open>The loop over the reasons indexes the list of frame ids with the index of the reason.\<close>

fun reason_lines :: "string list \<Rightarrow> int \<Rightarrow> string list \<Rightarrow> unit fault + string" where
  "reason_lines ids i [] = Inr []"
| "reason_lines ids i (reason # rs) =
     andThen (list_at ids i) (\<lambda>frameId.
     andThen (reason_lines ids (i + 1) rs) (\<lambda>rest.
       Inr (''- Frame '' @ frameId @ '': '' @ reason @ newline @ rest)))"

definition PrintSummary :: "('p, 'f) screen_env \<Rightarrow> 'p Model \<Rightarrow> unit fault + string" where
  "PrintSummary e m =
     (case failure m of
        Some err \<Rightarrow> Inr (newline @ cross_mark @ '' Processing failed: '' @ err @ newline @ newline)
      | None \<Rightarrow>
          let toStr = String e (ParamTo (params m)); elapsed = clock e - startTime m in
          andThen (if length (discardedReasons m) > 0
                   then map_sum id (\<lambda>s. ''Discarded reasons:'' @ newline @ s)
                     (reason_lines (discardedFrameIds m) 0 (discardedReasons m))
                   else Inr []) (\<lambda>reasons.
          Inr (newline @ check_mark @ '' Processing complete!'' @ newline @ newline
            @ ''Progress: 100% - '' @ toStr @ ''/'' @ toStr @ newline
            @ ''Episodes saved: '' @ decs (episodeCount m) @ newline
            @ ''Episodes discarded: '' @ decs (episodesDiscarded m) @ newline
            @ reasons
            @ ''Total frames saved: '' @ deci (totalFramesSaved m) @ newline
            @ ''Frames processed: '' @ decs (framesProcessed m) @ newline
            @ (if framesSkipped m > 0
               then (if framesSkipReason m \<noteq> []
                     then warning_sign @ ''  Frames skipped: '' @ decs (framesSkipped m) @ '' ('' @ framesSkipReason m @ '')'' @ newline
                     else warning_sign @ ''  Frames skipped: '' @ decs (framesSkipped m) @ newline)
               else [])
            @ ''Rate: '' @ rate_of e m elapsed @ '' frames/sec'' @ newline
            @ ''Elapsed: '' @ formatDuration elapsed @ newline
            @ ''Output: '' @ Output (params m) @ newline
            @ ''Task: '' @ ParamTask (params m) @ newline @ newline)))"

subsection \<open>Log lines\<close>

definition quote :: string where "quote = [CHR 0x22]"

definition quoted :: "string \<Rightarrow> string" where "quoted s = quote @ s @ quote"

definition parse_level :: "string \<Rightarrow> string" where
  "parse_level line =
     (if contains line (quoted ''level'') then
        if contains line (quoted ''warn'') \<or> contains line (quoted ''warning'') then ''WRN''
        else if contains line (quoted ''error'') then ''ERR''
        else if contains line (quoted ''debug'') then ''DBG''
        else ''INF''
      else ''INF'')"

definition message_key :: string where "message_key = quoted ''message'' @ '':'' @ quote"

definition parse_message :: "string \<Rightarrow> string" where
  "parse_message line =
     (case index_of message_key line of
        None \<Rightarrow> line
      | Some idx \<Rightarrow>
          let start = idx + 11 in
          case index_of quote (drop start line) of
            None \<Rightarrow> line
          | Some n \<Rightarrow> take n (drop start line))"

text \<open>\<open>Write\<close>: what is sent to the program, and the number of bytes it reports.\<close>

definition Write :: "string \<Rightarrow> LogLine \<times> nat" where
  "Write p =
     (let line = (if length p > 0 \<and> last p = CHR 0x0A then butlast p else p)
      in (\<lparr>LogLevel = parse_level line, Message = parse_message line\<rparr>, length p))"

end
