(* ===== verification/Tui_Properties.thy ===== *)
theory Tui_Properties
  imports Tui_Model
begin

section \<open>Properties of the terminal UI\<close>

text \<open>
  The messages of the detector keep the counters of the screen equal to the detector's own; the
  lists the summary indexes stay of one length; the screen is drawn without a panic except at
  two widths; and the text of a log line is found again.
\<close>

subsection \<open>The screen and the detector\<close>

text \<open>The model after the messages the detector has sent.\<close>

definition screen :: "'p Model \<Rightarrow> EpisodeDetector \<Rightarrow> 'p Model" where
  "screen m ed = foldl (\<lambda>m e. noteEpisode e m) m (sent ed)"

lemma run_ui_episodes: "run_ui (map Episode es) m = (foldl (\<lambda>m e. noteEpisode e m) m es, False)"
  by (induction es arbitrary: m) (simp_all add: Update_def)

lemma screen_send [simp]: "program ed \<Longrightarrow> screen m (send msg ed) = noteEpisode msg (screen m ed)"
  by (simp add: send_def screen_def)

definition counters_agree :: "'p Model \<Rightarrow> Stats \<Rightarrow> bool" where
  "counters_agree m st \<longleftrightarrow> episodeCount m = EpisodesSaved st \<and> episodesDiscarded m = EpisodesDiscarded st
     \<and> totalFramesSaved m = TotalFramesSaved st \<and> length (discardedReasons m) = length (discardedFrameIds m)"

definition shown :: "'p Model \<Rightarrow> EpisodeDetector \<Rightarrow> bool" where
  "shown m ed \<longleftrightarrow> program ed \<and> counters_agree (screen m ed) (stats ed)"

lemma program_send [simp]: "program (send msg ed) = program ed" "stats (send msg ed) = stats ed"
  "buffer (send msg ed) = buffer ed"
  by (simp_all add: send_def)

lemmas screen_steps = shown_def counters_agree_def noteEpisode_def send_def screen_def

lemma shown_bufferFrame: "shown m ed \<Longrightarrow> shown m (bufferFrame frame s ed)"
  by (simp add: bufferFrame_def Let_def shown_def) (simp add: screen_def counters_agree_def noteEpisode_def)

lemma shown_startNewEpisode: "shown m ed \<Longrightarrow> shown m (startNewEpisode e frame ed)"
  by (auto simp: startNewEpisode_def bufferFrame_def Let_def screen_steps)

lemma shown_markEpisodeSkip: "shown m ed \<Longrightarrow> shown m (markEpisodeSkip e frame reason ed)"
  by (auto simp: markEpisodeSkip_def screen_steps)

lemma shown_update [simp]:
  "shown m (ed\<lparr>lastGoals := g\<rparr>) = shown m ed" "shown m (ed\<lparr>commandsCnt := c\<rparr>) = shown m ed"
  "shown m (ed\<lparr>lastMovementStamp := s\<rparr>) = shown m ed"
  by (simp_all add: shown_def screen_def)

lemma shown_skipped [simp]: "shown m (ed\<lparr>stats := (stats ed)\<lparr>FramesSkippedWrongImageCount := n\<rparr>\<rparr>) = shown m ed"
  by (simp add: shown_def screen_def counters_agree_def)

lemma shown_reset: "shown m ed \<Longrightarrow> shown m (resetEpisode ed)"
  by (simp add: resetEpisode_def shown_def screen_def)

lemma shown_discarded: "shown m ed \<Longrightarrow> shown m (discard (send (EpisodeDiscardedMsg i r f) ed))"
  by (auto simp: discard_def screen_steps)

lemma shown_saved:
  assumes "shown m ed"
  shows "shown m ((send (EpisodeSavedMsg i (int n)) (ed\<lparr>disk := d\<rparr>))\<lparr>
    stats := (stats ed)\<lparr>EpisodesSaved := EpisodesSaved (stats ed) + 1,
      TotalFramesSaved := TotalFramesSaved (stats ed) + of_nat n\<rparr>, episodeIndex := j\<rparr>)"
  using assms by (auto simp: screen_steps)

lemma shown_trySave:
  assumes "shown m ed" and "buffer ed \<noteq> []" and "trySaveCurrentEpisode e ed = Inr ed'"
  shows "shown m ed'"
proof -
  have disk: "shown m (ed\<lparr>disk := d\<rparr>)" for d using assms(1) by (simp add: shown_def screen_def)
  show ?thesis
    using assms(2,3) shown_discarded [OF assms(1)] shown_saved [OF assms(1)] assms(1) disk
    by (auto simp: trySaveCurrentEpisode_def Let_def list_at_def split: if_splits)
qed


text \<open>Inside an episode the screen counts one frame less than is buffered: the first frame is
  counted and then reset by the message that starts the episode.\<close>

definition lags :: "'p Model \<Rightarrow> EpisodeDetector \<Rightarrow> bool" where
  "lags m ed \<longleftrightarrow> (episodeMonotonicStart ed \<noteq> 0 \<longrightarrow>
     framesInEpisode (screen m ed) + 1 = of_nat (length (buffer ed)))"

lemma lags_startNewEpisode: "program ed \<Longrightarrow> lags m (startNewEpisode e frame ed)"
  by (simp add: startNewEpisode_def bufferFrame_def Let_def lags_def screen_def send_def noteEpisode_def)

lemma lags_keepFrame: "program ed \<Longrightarrow> lags m ed \<Longrightarrow> lags m (keepFrame frame t ed)"
  by (auto simp: keepFrame_def bufferFrame_def Let_def lags_def screen_def send_def noteEpisode_def)

lemma lags_markEpisodeSkip: "program ed \<Longrightarrow> lags m ed \<Longrightarrow> lags m (markEpisodeSkip e frame reason ed)"
  by (auto simp: markEpisodeSkip_def lags_def screen_def send_def noteEpisode_def)

lemma lags_update [simp]:
  "lags m (ed\<lparr>lastGoals := g\<rparr>) = lags m ed" "lags m (ed\<lparr>commandsCnt := c\<rparr>) = lags m ed"
  "lags m (ed\<lparr>lastMovementStamp := s\<rparr>) = lags m ed" "lags m (ed\<lparr>stats := st\<rparr>) = lags m ed"
  by (simp_all add: lags_def screen_def)

lemma lags_reset: "lags m (resetEpisode ed)"
  by (simp add: lags_def resetEpisode_def)

definition tracked :: "'p Model \<Rightarrow> EpisodeDetector \<Rightarrow> bool" where
  "tracked m ed \<longleftrightarrow> shown m ed \<and> lags m ed"

lemma trackedI: "shown m ed \<Longrightarrow> lags m ed \<Longrightarrow> tracked m ed"
  by (simp add: tracked_def)

lemma trackedD: "tracked m ed \<Longrightarrow> shown m ed" "tracked m ed \<Longrightarrow> lags m ed" "tracked m ed \<Longrightarrow> program ed"
  by (simp_all add: tracked_def shown_def)

lemma tracked_trackCommands: "tracked m ed \<Longrightarrow> tracked m (trackCommands g t ed)"
  by (simp add: tracked_def trackCommands_def updateGoalTracking_def)

lemma tracked_checkGap:
  assumes "tracked m ed" and "checkGap e frame t ed = Inr ed'"
  shows "tracked m ed'"
proof -
  have "tracked m (markEpisodeSkip e frame r ed)" for r
    by (rule trackedI [OF shown_markEpisodeSkip lags_markEpisodeSkip]) (rule trackedD [OF assms(1)])+
  then show ?thesis
    using assms by (auto simp: checkGap_def list_at_def Let_def split: if_splits)
qed

lemma tracked_keepFrame:
  assumes "tracked m ed"
  shows "tracked m (keepFrame frame t ed)"
proof (rule trackedI)
  show "shown m (keepFrame frame t ed)"
    using trackedD(1) [OF assms] by (simp add: keepFrame_def shown_bufferFrame)
  show "lags m (keepFrame frame t ed)" by (rule lags_keepFrame [OF trackedD(3) [OF assms] trackedD(2) [OF assms]])
qed

lemma tracked_endEpisode:
  assumes "tracked m ed" and "buffer ed \<noteq> []" and "endEpisode e stamp t ed = Inr ed'"
  shows "tracked m ed'"
  using assms shown_trySave [of m ed e] shown_reset lags_reset
  by (auto simp: endEpisode_def tracked_def andThen_eq_Inr split: if_splits)

lemma ProcessFrame_tracked:
  assumes "detector_ok ed" and "tracked m ed" and "ProcessFrame e frame ed = Inr ed'"
  shows "tracked m ed'"
proof (cases "length (GetImages frame) = 0 \<or> episodeMonotonicStart ed = 0")
  case True
  have new: "tracked m (startNewEpisode e frame ed)"
    by (rule trackedI [OF shown_startNewEpisode lags_startNewEpisode])
      (rule trackedD [OF assms(2)])+
  have goals: "tracked m (updateGoalTracking g ed) = tracked m ed" for g ed
    by (simp add: tracked_def updateGoalTracking_def)
  show ?thesis
  proof (cases "length (GetImages frame) = 0")
    case True
    with assms(3) have "ed' = ed\<lparr>stats := (stats ed)\<lparr>FramesSkippedWrongImageCount :=
        FramesSkippedWrongImageCount (stats ed) + 1\<rparr>\<rparr>"
      by (simp add: ProcessFrame_def)
    with assms(2) show ?thesis by (simp only: tracked_def shown_skipped lags_update)
  next
    case False
    with True idle_frame [OF False] assms(3) have "ed' = updateGoalTracking (map GetGoal (GetJoints frame))
        (if hasCommandsChanged ed (map GetGoal (GetJoints frame)) then startNewEpisode e frame ed else ed)"
      by simp
    then show ?thesis using new assms(2) by (simp only: goals split: if_split) blast
  qed
next
  case False
  let ?t = "GetMonotonicStampNs frame - episodeMonotonicStart ed"
  let ?ed1 = "trackCommands (map GetGoal (GetJoints frame)) (GetMonotonicStampNs frame) ed"
  obtain ed2 where ed2: "checkGap e frame ?t ?ed1 = Inr ed2" "detector_ok ed2"
    "episodeMonotonicStart ed2 = episodeMonotonicStart ed" "buffer ed2 = buffer ?ed1"
    "episodeSkipReason ed2 = [] \<longrightarrow> ?t - TimestampNsSinceEpisodeStart (last (buffer ed2)) \<le> half_second"
    using checkGap_ok [of ?ed1 e frame ?t] assms(1) False by auto
  have "endEpisode e (GetMonotonicStampNs frame) ?t (keepFrame frame ?t ed2) = Inr ed'"
    using assms(3) False ed2(1) by (simp add: ProcessFrame_def Let_def)
  moreover have "buffer (keepFrame frame ?t ed2) \<noteq> []"
    using keepFrame_ok [OF ed2(2) _ ed2(5)] ed2(3) False by simp
  moreover have "tracked m (keepFrame frame ?t ed2)"
    by (rule tracked_keepFrame [OF tracked_checkGap [OF tracked_trackCommands [OF assms(2)] ed2(1)]])
  ultimately show ?thesis using tracked_endEpisode by blast
qed

interpretation screening: driven detect "\<lambda>_. True" "\<lambda>s. \<exists>ed. s = Inr ed \<and> detector_ok ed \<and> tracked m ed"
proof
  fix s :: "unit fault + EpisodeDetector" and i
  assume "\<exists>ed. s = Inr ed \<and> detector_ok ed \<and> tracked m ed"
  then obtain ed where ed: "s = Inr ed" "detector_ok ed" "tracked m ed" by blast
  obtain ed' where "ProcessFrame (fst i) (snd i) ed = Inr ed'" "detector_ok ed'"
    using ProcessFrame_ok [OF ed(2)] by blast
  with ed ProcessFrame_tracked [OF ed(2,3)] show "\<exists>ed. detect s i = Inr ed \<and> detector_ok ed \<and> tracked m ed"
    by (auto simp: detect_def)
qed

lemma tracked_new: "tracked (NewModel t p) (NewEpisodeDetector dur tsk minc True)"
  by (simp add: tracked_def shown_def lags_def screen_def NewEpisodeDetector_def NewModel_def counters_agree_def)

text \<open>C24: the screen that has received the messages of a run shows the detector's own counts of
  saved and discarded episodes and of saved frames, with as many reasons as frame ids; inside an
  episode it shows one frame less than is buffered.\<close>

theorem screen_agrees:
  "\<exists>ed m. foldl detect (Inr (NewEpisodeDetector dur tsk minc True)) frames = Inr ed
    \<and> run_ui (map Episode (sent ed)) (NewModel t p) = (m, False)
    \<and> episodeCount m = EpisodesSaved (stats ed) \<and> episodesDiscarded m = EpisodesDiscarded (stats ed)
    \<and> totalFramesSaved m = TotalFramesSaved (stats ed)
    \<and> length (discardedReasons m) = length (discardedFrameIds m)
    \<and> (if episodeMonotonicStart ed = 0 then True
       else framesInEpisode m + 1 = of_nat (length (buffer ed)))"
proof -
  have "\<exists>ed. (Inr (NewEpisodeDetector dur tsk minc True) :: unit fault + EpisodeDetector) = Inr ed
      \<and> detector_ok ed \<and> tracked (NewModel t p) ed"
    using tracked_new [of t p] new_ok by blast
  from screening.run_inv [OF this, of frames] obtain ed where
    "foldl detect (Inr (NewEpisodeDetector dur tsk minc True)) frames = Inr ed" "tracked (NewModel t p) ed"
    by auto
  then show ?thesis
    by (intro exI [of _ ed] exI [of _ "screen (NewModel t p) ed"])
      (auto simp: tracked_def shown_def counters_agree_def lags_def screen_def run_ui_episodes)
qed

subsection \<open>Drawing\<close>

lemma Repeat_total: "0 \<le> n \<Longrightarrow> Repeat s n = Inr (concat (replicate (nat n) s))"
  by (simp add: Repeat_def)

lemma cut_message_total:
  "w \<le> 10 \<or> 13 \<le> w \<Longrightarrow> \<exists>s. cut_message w msg = Inr s \<and> (10 < w \<longrightarrow> int (length s) \<le> w - 10)"
  by (auto simp: cut_message_def Let_def)

lemma render_lines_total:
  assumes "w \<le> 10 \<or> 13 \<le> w"
  shows "\<exists>lines. render_lines e w ls = Inr lines \<and> length lines = length ls"
  using cut_message_total [OF assms] by (induction ls) (auto, metis andThen_simps(2) length_Cons)

definition progress_ok :: "('p, 'f) screen_env \<Rightarrow> bool" where
  "progress_ok e \<longleftrightarrow> (\<forall>w c f t. 0 \<le> w \<longrightarrow> 0 \<le> scaled e w (ProgressOf e c f t) \<and> scaled e w (ProgressOf e c f t) \<le> w)"

lemma renderProgress_total:
  assumes "progress_ok e"
  shows "\<exists>s. renderProgress e m = Inr s"
proof -
  let ?w = "width m - (22 + int (length (String e (current m))) + int (length (String e (ParamTo (params m)))))"
  let ?b = "if ?w < 10 then 10 else ?w"
  let ?f = "scaled e ?b (ProgressOf e (current m) (ParamFrom (params m)) (ParamTo (params m)))"
  have "0 \<le> ?f" "0 \<le> ?b - ?f" using assms by (auto simp: progress_ok_def)
  then show ?thesis by (simp add: renderProgress_def Let_def Repeat_def)
qed


definition plain_env :: "(nat, nat) screen_env" where
  "plain_env = \<lparr>Render = (\<lambda>_ s. s), String = dec, ProgressOf = (\<lambda>_ _ _. 0), percent = (\<lambda>_. ''0''),
     scaled = (\<lambda>_ _. 0), rate = (\<lambda>_ _. ''0''), duration_string = (\<lambda>_. ''45s''), clock = 0\<rparr>"

definition demo_params :: "nat Params" where
  "demo_params = \<lparr>Robot = ''r'', Queue = ''q'', ParamTask = ''t'', Duration = 45, Output = ''o'',
     ParamFrom = 1, ParamTo = 9\<rparr>"


text \<open>At 11 columns, a log line of two characters ends the UI with a panic.\<close>

lemma narrow_view_panics:
  "View plain_env (fst (run_ui [WindowSizeMsg 11 24, Log \<lparr>LogLevel = ''INF'', Message = ''ab''\<rparr>]
     (NewModel 0 demo_params))) = Inl Panic"
proof -
  have "renderLogs plain_env (fst (run_ui [WindowSizeMsg 11 24, Log \<lparr>LogLevel = ''INF'', Message = ''ab''\<rparr>]
     (NewModel 0 demo_params))) = Inl Panic"
    by (simp add: renderLogs_def Update_def addLog_def NewModel_def maxLogLines_def minLogLines_def cut_message_def Let_def)
  moreover obtain s where "renderProgress plain_env (fst (run_ui [WindowSizeMsg 11 24,
      Log \<lparr>LogLevel = ''INF'', Message = ''ab''\<rparr>] (NewModel 0 demo_params))) = Inr s"
    using renderProgress_total [of plain_env] by (auto simp: progress_ok_def plain_env_def)
  ultimately show ?thesis
    by (simp add: View_def renderSeparator_def Repeat_def Update_def addLog_def NewModel_def)
qed

subsection \<open>The logs and the summary\<close>

definition log_bound :: "int \<Rightarrow> 'p Model \<Rightarrow> bool" where
  "log_bound h m \<longleftrightarrow> height m \<le> h \<and> int (length (logs m)) \<le> max minLogLines (h - 12)
     \<and> length (discardedReasons m) = length (discardedFrameIds m)"

definition fits :: "int \<Rightarrow> 'p TuiMsg \<Rightarrow> bool" where
  "fits h msg \<longleftrightarrow> (case msg of WindowSizeMsg _ h' \<Rightarrow> h' \<le> h | _ \<Rightarrow> True)"

lemma addLog_bound: "log_bound h m \<Longrightarrow> log_bound h (addLog l m)"
  by (auto simp: log_bound_def addLog_def maxLogLines_def minLogLines_def Let_def)

lemma Update_bound: "log_bound h m \<Longrightarrow> fits h msg \<Longrightarrow> log_bound h (fst (Update msg m))"
  by (cases msg) (auto simp: Update_def addLog_bound, auto simp: log_bound_def fits_def noteEpisode_def split: Msg.splits)

lemma reason_lines_total:
  "0 \<le> i \<Longrightarrow> i + int (length rs) \<le> int (length ids) \<Longrightarrow> \<exists>s. reason_lines ids i rs = Inr s"
proof (induction rs arbitrary: i)
  case (Cons r rs)
  then obtain s where "reason_lines ids (i + 1) rs = Inr s" by force
  with Cons.prems show ?case by (simp add: list_at_def)
qed simp

lemma run_ui_bound:
  "log_bound h m \<Longrightarrow> \<forall>x \<in> set ms. fits h x \<Longrightarrow> log_bound h (fst (run_ui ms m))"
proof (induction ms arbitrary: m)
  case (Cons msg ms)
  have "log_bound h (fst (Update msg m))" using Cons.prems by (intro Update_bound) auto
  with Cons.IH Cons.prems show ?case by (auto split: prod.splits Cmd.splits)
qed simp

text \<open>Whatever messages arrive, the UI keeps no more log lines than the tallest window asks
  for, and the summary it prints at the end indexes the frame ids without a panic.\<close>

lemma ui_run_bounded:
  assumes "24 \<le> h" and "\<forall>x \<in> set ms. fits h x"
  shows "\<exists>s. int (length (logs (fst (run_ui ms (NewModel t p))))) \<le> h - 12
    \<and> PrintSummary e (fst (run_ui ms (NewModel t p))) = Inr s"
proof -
  let ?m = "fst (run_ui ms (NewModel t p))"
  have "log_bound h ?m"
    by (rule run_ui_bound) (use assms in \<open>simp_all add: log_bound_def NewModel_def minLogLines_def\<close>)
  then have b: "int (length (logs ?m)) \<le> h - 12" "length (discardedReasons ?m) = length (discardedFrameIds ?m)"
    using assms(1) by (auto simp: log_bound_def minLogLines_def)
  then obtain s where "reason_lines (discardedFrameIds ?m) 0 (discardedReasons ?m) = Inr s"
    using reason_lines_total [of 0 "discardedReasons ?m" "discardedFrameIds ?m"] by auto
  with b(1) show ?thesis by (simp add: PrintSummary_def Let_def split: option.split)
qed

lemma ui_run_bounded_witness:
  "\<exists>s. int (length (logs (fst (run_ui [Log \<lparr>LogLevel = ''INF'', Message = ''a''\<rparr>] (NewModel 0 demo_params))))) \<le> 30 - 12
    \<and> PrintSummary plain_env (fst (run_ui [Log \<lparr>LogLevel = ''INF'', Message = ''a''\<rparr>] (NewModel 0 demo_params))) = Inr s"
  by (rule ui_run_bounded) (simp_all add: fits_def)

subsection \<open>Log lines\<close>

text \<open>From a line in which the key of the message occurs only once, \<open>Write\<close> takes the text of
  the message, if it has no quote.\<close>

lemma Write_message:
  assumes "\<And>j. j < length a \<Longrightarrow> take (length message_key) (drop j (a @ message_key @ msg @ quote @ b)) \<noteq> message_key"
    and "CHR 0x22 \<notin> set msg"
  shows "Message (fst (Write (a @ message_key @ msg @ quote @ b @ newline))) = msg
    \<and> snd (Write (a @ message_key @ msg @ quote @ b @ newline)) = length (a @ message_key @ msg @ quote @ b @ newline)"
proof -
  have key: "length message_key = 11" by (simp add: message_key_def quoted_def quote_def)
  have "index_of quote (msg @ quote @ b) = Some (length msg)"
  proof (rule index_of_append)
    fix j assume "j < length msg"
    then have "(drop j (msg @ quote @ b)) ! 0 = msg ! j" "msg ! j \<in> set msg" "drop j (msg @ quote @ b) \<noteq> []"
      by (simp_all add: nth_append)
    then show "take (length quote) (drop j (msg @ quote @ b)) \<noteq> quote"
      using assms(2) by (cases "drop j (msg @ quote @ b)") (auto simp: quote_def)
  qed
  moreover have "index_of message_key (a @ message_key @ msg @ quote @ b) = Some (length a)"
    by (rule index_of_append) (use assms(1) in simp)
  ultimately have "parse_message (a @ message_key @ msg @ quote @ b) = msg"
    by (simp add: parse_message_def Let_def key flip: key)
  moreover have "Write (a @ message_key @ msg @ quote @ b @ newline)
      = (\<lparr>LogLevel = parse_level (a @ message_key @ msg @ quote @ b),
          Message = parse_message (a @ message_key @ msg @ quote @ b)\<rparr>,
         length (a @ message_key @ msg @ quote @ b @ newline))"
    by (simp add: Write_def Let_def newline_def butlast_append)
  ultimately show ?thesis by simp
qed

lemma Write_message_witness:
  "Message (fst (Write (''{'' @ message_key @ ''hi'' @ quote @ ''}'' @ newline))) = ''hi''
    \<and> snd (Write (''{'' @ message_key @ ''hi'' @ quote @ ''}'' @ newline)) = length (''{'' @ message_key @ ''hi'' @ quote @ ''}'' @ newline)"
  by (rule Write_message) (simp_all add: message_key_def quoted_def quote_def)

text \<open>A message with an escaped quote is cut at it.\<close>

lemma escaped_message_cut:
  "Message (fst (Write (''{'' @ message_key @ ''a'' @ [CHR 0x5C] @ quote @ ''b'' @ quote @ ''}''))) = ''a'' @ [CHR 0x5C]"
  by (simp add: Write_def parse_message_def message_key_def quoted_def quote_def Let_def)

text \<open>An info line that carries an error as a field is shown as an error.\<close>

lemma info_with_error_shown_as_error:
  "LogLevel (fst (Write (''{'' @ quoted ''level'' @ '':'' @ quoted ''info'' @ '','' @ quoted ''error'' @ '':'' @ quoted ''x'' @ ''}''))) = ''ERR''"
  by (simp add: Write_def parse_level_def contains_def quoted_def quote_def Let_def)

end
