(* ===== verification/Dataset_Run.thy ===== *)
theory Dataset_Run
  imports Frame_Stream Tui_Properties
begin

section \<open>A run of the dataset generator\<close>

text \<open>
  \<^verbatim>\<open>station/bin/dataset-generator/dataset-generator.go\<close>: the bounds are fetched, the frames between
  them are streamed through the detector, and the detector is finalized. The stream's goroutine
  and the detector are joined by a channel, so the detector sees the frames in the order they are
  sent. The messages to the UI are collected in \<open>inbox\<close> as they are sent: after every step the
  detector's own messages are moved there. The station client serves several queues.
\<close>

definition KB :: uint64 where "KB = 1024"
definition MB :: uint64 where "MB = KB * 1024"
definition GB :: uint64 where "GB = MB * 1024"

text \<open>\<open>quot a b\<close> is \<open>float64(a)/b\<close> printed with two digits.\<close>

definition formatBytes :: "(uint64 \<Rightarrow> uint64 \<Rightarrow> string) \<Rightarrow> uint64 \<Rightarrow> string" where
  "formatBytes quot bytes =
     (if bytes \<ge> GB then quot bytes GB @ '' GB''
      else if bytes \<ge> MB then quot bytes MB @ '' MB''
      else if bytes \<ge> KB then quot bytes KB @ '' KB''
      else decs bytes @ '' B'')"

datatype 'p run_error = ConnectFailed | BoundsFailed "'p qerror" | RangeFailed stream_error

record 'p run =
  det :: EpisodeDetector
  inbox :: "'p TuiMsg list"
  count :: uint64

text \<open>The messages of one step of the detector go to the program.\<close>

definition deliver :: "EpisodeDetector \<Rightarrow> 'p run \<Rightarrow> 'p run" where
  "deliver ed r = r\<lparr>det := ed\<lparr>sent := []\<rparr>, inbox := inbox r @ map Episode (sent ed)\<rparr>"

definition progress :: "'p \<Rightarrow> 'p \<Rightarrow> 'p run \<Rightarrow> 'p TuiMsg" where
  "progress pos to r = Progress \<lparr>Current = pos, Total = to, FramesProcessed = count r,
     FramesSkipped = fst (GetSkipInfo (det r)), FramesSkipReason = snd (GetSkipInfo (det r))\<rparr>"

definition forwardFrame :: "'p uintn \<Rightarrow> 'p \<Rightarrow> env \<Rightarrow> FrameReader \<Rightarrow> 'p run \<Rightarrow> unit fault + 'p run" where
  "forwardFrame U to e frame r =
     andThen (ProcessFrame e frame (det r)) (\<lambda>ed.
       let r = deliver ed (r\<lparr>count := count r + 1\<rparr>) in
       Inr (if program ed \<and> count r mod 500 = 0 then
         (case FromLEBytes U (GetGlobalFrameId frame) of
            None \<Rightarrow> r
          | Some pos \<Rightarrow> r\<lparr>inbox := inbox r @ [progress pos to r]\<rparr>)
       else r))"

fun forwardFrames :: "'p uintn \<Rightarrow> 'p \<Rightarrow> (nat \<Rightarrow> env) \<Rightarrow> nat \<Rightarrow> FrameReader list \<Rightarrow> 'p run \<Rightarrow> unit fault + 'p run" where
  "forwardFrames U to envs i [] r = Inr r"
| "forwardFrames U to envs i (frame # fs) r =
     andThen (forwardFrame U to (envs i) frame r) (\<lambda>r. forwardFrames U to envs (i + 1) fs r)"

definition finishRun :: "env \<Rightarrow> merge_env \<Rightarrow> 'p Params \<Rightarrow> 'p run \<Rightarrow> unit fault + 'p run" where
  "finishRun e g p r =
     andThen (Finalize e g (det r)) (\<lambda>ed.
       let r = deliver ed r in
       Inr (if program ed then r\<lparr>inbox := inbox r @ [progress (ParamTo p) (ParamTo p) r]\<rparr> else r))"

text \<open>The two fuels are for the searches and for the stream. \<open>connected\<close> says whether the client
  could be created.\<close>

definition runProcessing :: "nat \<Rightarrow> nat \<Rightarrow> 'p uintn \<Rightarrow> (string \<Rightarrow> 'p client) \<Rightarrow> rx \<Rightarrow>
    (byte list \<Rightarrow> FrameReader option) \<Rightarrow> (nat \<Rightarrow> env) \<Rightarrow> env \<Rightarrow> merge_env \<Rightarrow> bool \<Rightarrow> bool \<Rightarrow> uint64 \<Rightarrow> 'p Params \<Rightarrow>
    (unit fault + 'p run_error option \<times> 'p run) option" where
  "runProcessing k k' U client rx um envs e g connected prog minCmds p =
     (let r = \<lparr>det = NewEpisodeDetector (word_of_int (Duration p)) (ParamTask p) minCmds prog, inbox = [], count = 0\<rparr> in
      if \<not> connected then Some (Inr (Some ConnectFailed, r))
      else case FetchQueueBounds k U (client ''inference-states'') rx (ParamFrom p) (ParamTo p) (Queue p) of
        None \<Rightarrow> None
      | Some (Inl Panic) \<Rightarrow> Some (Inl Panic)
      | Some (Inl (Fail err)) \<Rightarrow> Some (Inr (Some (BoundsFailed err), r))
      | Some (Inr bounds) \<Rightarrow>
          (case StreamFrames k' U (client (Queue p)) um (From bounds) (To bounds) of
             None \<Rightarrow> None
           | Some (frames, err) \<Rightarrow> Some
               (andThen (forwardFrames U (To bounds) envs 0 frames r) (\<lambda>r.
                  case err of
                    Some x \<Rightarrow> Inr (Some (RangeFailed x), r)
                  | None \<Rightarrow> andThen (finishRun e g p r) (\<lambda>r. Inr (None, r))))))"

text \<open>What the UI receives from the goroutine of \<^verbatim>\<open>main\<close>.\<close>

definition ui_messages :: "('p run_error \<Rightarrow> string) \<Rightarrow> 'p run_error option \<times> 'p run \<Rightarrow> 'p TuiMsg list" where
  "ui_messages describe = (\<lambda>(err, r). inbox r @ [DoneMsg (map_option describe err)])"

subsection \<open>The run and its screen\<close>

text \<open>The state of a run: the detector's invariant, nothing left to deliver, and a screen that
  shows the detector's counts; before the end also the frames of its episode, less one.\<close>

definition run_shown :: "'p Model \<Rightarrow> 'p run \<Rightarrow> bool" where
  "run_shown m r \<longleftrightarrow> detector_ok (det r) \<and> sent (det r) = [] \<and> snd (run_ui (inbox r) m) = False
     \<and> shown (fst (run_ui (inbox r) m)) (det r)"

definition run_ok :: "'p Model \<Rightarrow> 'p run \<Rightarrow> bool" where
  "run_ok m r \<longleftrightarrow> run_shown m r \<and> lags (fst (run_ui (inbox r) m)) (det r)"

lemma run_ui_append: "\<not> snd (run_ui xs m) \<Longrightarrow> run_ui (xs @ ys) m = run_ui ys (fst (run_ui xs m))"
  by (induction xs arbitrary: m) (auto split: prod.splits Cmd.splits)

lemma run_progress:
  "run_shown m r \<Longrightarrow> run_shown m (r\<lparr>inbox := inbox r @ [progress a b q]\<rparr>)"
  "run_ok m r \<Longrightarrow> run_ok m (r\<lparr>inbox := inbox r @ [progress a b q]\<rparr>)"
proof -
  let ?m = "fst (run_ui (inbox r) m)"
  have ui: "run_ui [progress a b q] ?m = (fst (Update (progress a b q) ?m), False)"
    by (simp add: progress_def Update_def)
  have "sent (det r) = [] \<Longrightarrow> shown (fst (Update (progress a b q) ?m)) (det r) = shown ?m (det r)"
    "sent (det r) = [] \<Longrightarrow> lags (fst (Update (progress a b q) ?m)) (det r) = lags ?m (det r)"
    by (simp_all add: progress_def Update_def counters_agree_def shown_def screen_def lags_def)
  with ui show "run_shown m r \<Longrightarrow> run_shown m (r\<lparr>inbox := inbox r @ [progress a b q]\<rparr>)"
    "run_ok m r \<Longrightarrow> run_ok m (r\<lparr>inbox := inbox r @ [progress a b q]\<rparr>)"
    by (simp_all add: run_ok_def run_shown_def run_ui_append)
qed

lemma run_deliver:
  assumes "run_shown m r" and "detector_ok ed" and "shown (fst (run_ui (inbox r) m)) ed"
  shows "run_shown m (deliver ed r)"
    and "lags (fst (run_ui (inbox r) m)) ed \<Longrightarrow> run_ok m (deliver ed r)"
  using assms by (simp_all add: run_ok_def run_shown_def deliver_def run_ui_append run_ui_episodes
      shown_def screen_def detector_ok_def lags_def)

lemma forwardFrame_ok:
  assumes "run_ok m r"
  shows "\<exists>r'. forwardFrame U to e frame r = Inr r' \<and> run_ok m r'"
proof -
  have d: "detector_ok (det r)" using assms by (simp add: run_ok_def run_shown_def)
  have t: "tracked (fst (run_ui (inbox r) m)) (det r)"
    using assms by (simp add: run_ok_def run_shown_def tracked_def)
  obtain ed where ed: "ProcessFrame e frame (det r) = Inr ed" "detector_ok ed"
    using ProcessFrame_ok [OF d] by blast
  define r1 where "r1 = deliver ed (r\<lparr>count := count r + 1\<rparr>)"
  have "run_shown m (r\<lparr>count := count r + 1\<rparr>)" using assms by (simp add: run_ok_def run_shown_def)
  then have r1: "run_ok m r1"
    unfolding r1_def using ed(2) trackedD [OF ProcessFrame_tracked [OF d t ed(1)]]
    by (intro run_deliver(2)) simp_all
  have "forwardFrame U to e frame r = Inr (if program ed \<and> count r1 mod 500 = 0
      then (case FromLEBytes U (GetGlobalFrameId frame) of None \<Rightarrow> r1
            | Some pos \<Rightarrow> r1\<lparr>inbox := inbox r1 @ [progress pos to r1]\<rparr>) else r1)"
    unfolding forwardFrame_def ed(1) r1_def Let_def by simp
  with r1 run_progress(2) [OF r1] show ?thesis by (cases "FromLEBytes U (GetGlobalFrameId frame)") auto
qed

lemma forwardFrames_ok:
  "run_ok m r \<Longrightarrow> \<exists>r'. forwardFrames U to envs i fs r = Inr r' \<and> run_ok m r'"
proof (induction fs arbitrary: i r)
  case (Cons f fs)
  obtain r' where "forwardFrame U to (envs i) f r = Inr r'" "run_ok m r'"
    using forwardFrame_ok [OF Cons.prems] by blast
  with Cons.IH show ?case by simp
qed simp


text \<open>The end of a run.\<close>

lemma mergeParquetFiles_keeps:
  "stats (mergeParquetFiles g ed) = stats ed" "program (mergeParquetFiles g ed) = program ed"
  "sent (mergeParquetFiles g ed) = sent ed"
  by (simp_all add: mergeParquetFiles_def Let_def split: option.split)

lemma Finalize_shown:
  assumes "detector_ok ed" and "shown m ed" and "Finalize e g ed = Inr ed'"
  shows "shown m ed'"
proof -
  obtain ed'' where ed'': "(if episodeMonotonicStart ed \<noteq> 0 then trySaveCurrentEpisode e ed else Inr ed) = Inr ed''"
    "ed' = mergeParquetFiles g ed''"
    using assms(3) by (auto simp: Finalize_def andThen_eq_Inr)
  have "shown m ed''"
    using ed''(1) shown_trySave [OF assms(2)] assms(1,2) by (auto simp: detector_ok_def split: if_splits)
  then show ?thesis
    by (simp add: ed''(2) shown_def mergeParquetFiles_keeps screen_def)
qed


lemma Finalize_returns:
  assumes "detector_ok ed"
  shows "\<exists>ed'. Finalize e g ed = Inr ed'"
proof (cases "episodeMonotonicStart ed = 0")
  case False
  then have "buffer ed \<noteq> []" using assms by (simp add: detector_ok_def)
  with False trySave_cases [of ed e] show ?thesis by (auto simp: Finalize_def)
qed (simp add: Finalize_def)

lemma finishRun_shown:
  assumes "run_ok m r"
  shows "\<exists>r' ed. finishRun e g p r = Inr r' \<and> Finalize e g (det r) = Inr ed
    \<and> stats (det r') = stats ed \<and> merged (det r') = merged ed
    \<and> \<not> snd (run_ui (inbox r') m) \<and> counters_agree (fst (run_ui (inbox r') m)) (stats (det r'))"
proof -
  have r: "detector_ok (det r)" "shown (fst (run_ui (inbox r) m)) (det r)" "\<not> snd (run_ui (inbox r) m)"
    using assms by (simp_all add: run_ok_def run_shown_def)
  obtain ed where ed: "Finalize e g (det r) = Inr ed" using Finalize_returns [OF r(1)] by blast
  have s: "shown (fst (run_ui (inbox r) m)) ed" by (rule Finalize_shown [OF r(1,2) ed])
  define r1 where "r1 = deliver ed r"
  have ui: "run_ui (inbox r1) m = (screen (fst (run_ui (inbox r) m)) ed, False)"
    using r(3) by (simp add: r1_def deliver_def run_ui_append run_ui_episodes screen_def)
  have det: "stats (det r1) = stats ed" "merged (det r1) = merged ed" by (simp_all add: r1_def deliver_def)
  have "finishRun e g p r = Inr (if program ed
      then r1\<lparr>inbox := inbox r1 @ [progress (ParamTo p) (ParamTo p) r1]\<rparr> else r1)"
    unfolding finishRun_def ed r1_def Let_def by simp
  then show ?thesis
    using s ui det ed by (simp add: shown_def run_ui_append progress_def Update_def counters_agree_def)
qed



definition demo_client :: "string \<Rightarrow> nat client" where
  "demo_client n = (if n = ''q'' then stored (\<lambda>x. x) [(1, [1]), (2, [])] else stored (\<lambda>x. x) [(12, [1])])"

definition demo_um :: "byte list \<Rightarrow> FrameReader option" where
  "demo_um bs = (if bs = [] then None else Some (demo_frame 10 1))"

definition demo_merge :: merge_env where
  "demo_merge = \<lparr>open_ok = (\<lambda>_. True), parse_ok = (\<lambda>_. True), merged_create_ok = True, copy_ok = True, close_ok = True\<rparr>"


lemma find_bound_returns: "\<exists>r. find_bound check search first (Some x) = Some r"
  by (cases first rule: sum.exhaust) (auto simp: find_bound_def map_fault_def bindO_def split: fault.splits option.splits sum.splits)

lemma FetchQueueBounds_returns:
  assumes "searchForwardForQueue k U client rx fromPtr toPtr tq fromPtr = Some f"
    and "searchBackwardForQueue k U client rx fromPtr toPtr tq toPtr = Some t"
  shows "\<exists>r. FetchQueueBounds k U client rx fromPtr toPtr tq = Some r"
proof -
  obtain a b where
    "find_bound CheckFrom SearchFrom (tryFindQueueAtPtr U client rx fromPtr tq) (Some f) = Some a"
    "find_bound CheckTo SearchTo (tryFindQueueAtPtr U client rx toPtr tq) (Some t) = Some b"
    using find_bound_returns by meson
  then show ?thesis
    unfolding FetchQueueBounds_def assms by (cases a; cases b) (auto split: fault.split)
qed



end
