(* ===== verification/Dataset_Grid.thy ===== *)
theory Dataset_Grid
  imports Episode_Properties
begin

section \<open>Reading a dataset back and laying it out in a grid\<close>

text \<open>
  \<^verbatim>\<open>station/bin/dataset-mp4/dataset-mp4.go\<close>: the rows of a merged dataset are grouped into episodes
  again, episodes are put side by side in grids, and every frame index of a grid is one job of the
  render pool. The Arrow arrays of a record batch are the fields of \<open>Batch\<close>; a row of the dataset is
  the \<open>Frame\<close> the generator writes (the tool declares the same struct). An access outside an array
  panics. The pool that renders the jobs and the drawing of a picture have theories of their own.
\<close>

subsection \<open>Rows\<close>

text \<open>A list column gives each row its offsets into the column's values, or null.\<close>

record Batch =
  NumRows :: nat
  episodeStartArr :: "uint64 list"
  idArr :: "byte list list"
  timestampArr :: "uint64 list"
  jointsArr :: "(nat \<times> nat) option list"
  jointValues :: "Joint list"
  imagesArr :: "(nat \<times> nat) option list"
  jpegArr :: "byte list list"
  taskArr :: "string list"

definition jointAt :: "Batch \<Rightarrow> nat \<Rightarrow> unit fault + Joint" where
  "jointAt b j = andThen (list_at (jointValues b) (int j)) (\<lambda>v. Inr
     \<lparr>RangeMin = RangeMin v, RangeMax = RangeMax v, Position = Position v, PositionNorm = PositionNorm v,
      Goal = Goal v, GoalNorm = GoalNorm v, CurrentMA = CurrentMA v, Velocity = Velocity v\<rparr>)"

definition imageAt :: "Batch \<Rightarrow> nat \<Rightarrow> unit fault + Image" where
  "imageAt b j = andThen (list_at (jpegArr b) (int j)) (\<lambda>v. Inr \<lparr>JPEG = v\<rparr>)"

text \<open>The loop from the start to the end offset.\<close>

fun values_between :: "(nat \<Rightarrow> unit fault + 'a) \<Rightarrow> nat list \<Rightarrow> unit fault + 'a list" where
  "values_between f [] = Inr []"
| "values_between f (j # js) = andThen (f j) (\<lambda>x. andThen (values_between f js) (\<lambda>xs. Inr (x # xs)))"

definition listColumn :: "(nat \<times> nat) option list \<Rightarrow> (nat \<Rightarrow> unit fault + 'a) \<Rightarrow> nat \<Rightarrow> unit fault + 'a list" where
  "listColumn col f idx =
     andThen (list_at col (int idx)) (\<lambda>offsets.
       case offsets of None \<Rightarrow> Inr [] | Some (from, to) \<Rightarrow> values_between f [from..<to])"

definition extractFrameFromBatch :: "nat \<Rightarrow> Batch \<Rightarrow> unit fault + Frame" where
  "extractFrameFromBatch idx b =
     andThen (list_at (episodeStartArr b) (int idx)) (\<lambda>start.
     andThen (list_at (idArr b) (int idx)) (\<lambda>gid.
     andThen (list_at (timestampArr b) (int idx)) (\<lambda>stamp.
     andThen (list_at (taskArr b) (int idx)) (\<lambda>tsk.
     andThen (listColumn (jointsArr b) (jointAt b) idx) (\<lambda>joints.
     andThen (listColumn (imagesArr b) (imageAt b) idx) (\<lambda>images.
       Inr \<lparr>EpisodeStartNS = start, GlobalFrameID = gid, TimestampNsSinceEpisodeStart = stamp,
            Joints = joints, Images = images, Task = tsk\<rparr>))))))"

subsection \<open>Episodes\<close>

text \<open>\<open>frames\<close> is \<open>None\<close> for the nil slice that marks an episode as invalid.\<close>

record Episode =
  frames :: "Frame list option"
  startNS :: uint64
  episodeNum :: nat

type_synonym collected = "Episode list \<times> Episode option"

definition frame_list :: "Episode \<Rightarrow> Frame list" where
  "frame_list e = (case frames e of None \<Rightarrow> [] | Some fs \<Rightarrow> fs)"

definition saveCurrent :: "collected \<Rightarrow> Episode list" where
  "saveCurrent = (\<lambda>(episodes, cur).
     case cur of Some e \<Rightarrow> if length (frame_list e) > 0 then episodes @ [e] else episodes | None \<Rightarrow> episodes)"

definition collectRow :: "Batch \<Rightarrow> nat \<Rightarrow> collected \<Rightarrow> unit fault + collected" where
  "collectRow b i s =
     andThen (list_at (episodeStartArr b) (int i)) (\<lambda>episodeStart.
       let (episodes, cur) = s;
           new = (case cur of None \<Rightarrow> True | Some e \<Rightarrow> episodeStart \<noteq> startNS e);
           episodes = (if new then saveCurrent s else episodes);
           current = (if new then \<lparr>frames = Some [], startNS = episodeStart, episodeNum = length episodes + 1\<rparr>
                      else the cur)
       in
       andThen (extractFrameFromBatch i b) (\<lambda>frame.
         Inr (episodes, Some (
           if length (Images frame) \<noteq> 2 then current\<lparr>frames := None\<rparr>
           else case frames current of
             None \<Rightarrow> current
           | Some fs \<Rightarrow> current\<lparr>frames := Some (fs @ [frame])\<rparr>))))"

fun collectBatches :: "Batch list \<Rightarrow> collected \<Rightarrow> unit fault + collected" where
  "collectBatches [] s = Inr s"
| "collectBatches (b # bs) s = andThen (foldE (collectRow b) [0..<NumRows b] s) (collectBatches bs)"

definition collectEpisodes :: "Batch list \<Rightarrow> unit fault + Episode list" where
  "collectEpisodes bs = andThen (collectBatches bs ([], None)) (\<lambda>s. Inr (saveCurrent s))"

subsection \<open>Grids\<close>

record renderJob =
  gridFrames :: "Frame list"
  episodeNums :: "nat list"
  frameIndex :: nat

text \<open>\<open>Frame{}\<close>\<close>

definition blank_frame :: Frame where
  "blank_frame = \<lparr>EpisodeStartNS = 0, GlobalFrameID = [], TimestampNsSinceEpisodeStart = 0, Joints = [],
     Images = [], Task = []\<rparr>"

fun minInts :: "nat \<Rightarrow> nat list \<Rightarrow> nat" where
  "minInts m [] = m"
| "minInts m (v # vs) = minInts (if v < m then v else m) vs"

definition maxFrames :: "Episode list \<Rightarrow> nat" where
  "maxFrames eps = foldl (\<lambda>m e. if length (frame_list e) > m then length (frame_list e) else m) 0 eps"

definition cell :: "Episode list \<Rightarrow> nat \<Rightarrow> nat \<Rightarrow> Frame \<times> nat" where
  "cell gridEpisodes frameIdx i =
     (if i < length gridEpisodes \<and> frameIdx < length (frame_list (gridEpisodes ! i))
      then (frame_list (gridEpisodes ! i) ! frameIdx, episodeNum (gridEpisodes ! i))
      else (blank_frame, 0))"

definition gridJobs :: "nat \<Rightarrow> Episode list \<Rightarrow> nat \<Rightarrow> renderJob list" where
  "gridJobs gridSize gridEpisodes firstIndex =
     map (\<lambda>frameIdx. \<lparr>gridFrames = map (\<lambda>i. fst (cell gridEpisodes frameIdx i)) [0..<gridSize],
            episodeNums = map (\<lambda>i. snd (cell gridEpisodes frameIdx i)) [0..<gridSize],
            frameIndex = firstIndex + frameIdx\<rparr>) [0..<maxFrames gridEpisodes]"

text \<open>One grid of the loop of \<^verbatim>\<open>main\<close>; the jobs sent so far give the next frame index.\<close>

definition addGrid :: "nat \<Rightarrow> Episode list \<Rightarrow> nat \<Rightarrow> renderJob list \<Rightarrow> renderJob list" where
  "addGrid gridSize episodes gridIdx jobs =
     (let startEp = gridIdx * gridSize; endEp = minInts (startEp + gridSize) [length episodes]
      in jobs @ gridJobs gridSize (drop startEp (take endEp episodes)) (length jobs))"

text \<open>The division panics for a grid without cells.\<close>

definition numGrids :: "nat \<Rightarrow> Episode list \<Rightarrow> unit fault + nat" where
  "numGrids gridSize episodes =
     (if gridSize = 0 then Inl Panic else Inr ((length episodes + gridSize - 1) div gridSize))"

definition renderJobs :: "nat \<Rightarrow> nat \<Rightarrow> Episode list \<Rightarrow> unit fault + renderJob list" where
  "renderJobs cols rows episodes =
     (let gridSize = cols * rows in
      andThen (numGrids gridSize episodes) (\<lambda>n. Inr (fold (addGrid gridSize episodes) [0..<n] [])))"

subsection \<open>Cells of the canvas\<close>

definition singleWidth :: nat where "singleWidth = 448"
definition singleHeight :: nat where "singleHeight = 448"
definition borderWidth :: nat where "borderWidth = 2"

definition canvasWidth :: "nat \<Rightarrow> nat" where "canvasWidth cols = singleWidth * cols + borderWidth * (cols + 1)"
definition canvasHeight :: "nat \<Rightarrow> nat" where "canvasHeight rows = singleHeight * rows + borderWidth * (rows + 1)"

definition cellOffset :: "nat \<Rightarrow> nat \<Rightarrow> nat \<times> nat" where
  "cellOffset cols i =
     ((i mod cols) * (singleWidth + borderWidth) + borderWidth, (i div cols) * (singleHeight + borderWidth) + borderWidth)"

end
