(* ===== verification/Dataset_Draw.thy ===== *)
theory Dataset_Draw
  imports Dataset_Grid
begin

section \<open>What is drawn on a picture\<close>

text \<open>
  \<^verbatim>\<open>station/bin/dataset-mp4/dataset-mp4.go\<close>, the drawing of \<^verbatim>\<open>renderGridFrame\<close> and \<^verbatim>\<open>renderFrame\<close> as the list of
  the calls of the library \<^verbatim>\<open>gg\<close> they make. Its pictures are of a type of their own; decoding a JPEG,
  loading the font, measuring a text (a whole number of points here) and printing an id are
  parameters. The coordinates the code computes as floating point numbers are whole numbers well below
  the 53 bits of their precision, except for sizes that depend on a measured text, which are kept as such.
\<close>

record 'p library =
  decode :: "byte list \<Rightarrow> 'p option"
  fontLoads :: bool
  textWidth :: "string \<Rightarrow> int"
  textHeight :: "string \<Rightarrow> int"
  idText :: "byte list \<Rightarrow> string"

text \<open>A size: a number, or what the text measures and some more. Colours are in tenths.\<close>

datatype extent = Fixed int | WidthOf string int | HeightOf string int

datatype 'p command =
    SetRGB nat nat nat
  | Clear
  | SetLineWidth nat
  | DrawLine int int int int
  | Stroke
  | DrawImage 'p int int
  | LoadFontFace nat
  | DrawRectangle int int extent extent
  | Fill
  | DrawString string int int

abbreviation decimal :: "uint32 \<Rightarrow> string" where
  "decimal w \<equiv> dec (unat w)"

subsection \<open>The grid\<close>

definition gridLines :: "nat \<Rightarrow> nat \<Rightarrow> 'p command list" where
  "gridLines cols rows =
     [SetRGB 0 0 0, Clear, SetRGB 3 3 3, SetLineWidth borderWidth]
     @ concat (map (\<lambda>col. let x = int (col * (singleWidth + borderWidth) + borderWidth div 2)
          in [DrawLine x 0 x (int (canvasHeight rows)), Stroke]) [0..<cols + 1])
     @ concat (map (\<lambda>row. let y = int (row * (singleHeight + borderWidth) + borderWidth div 2)
          in [DrawLine 0 y (int (canvasWidth cols)) y, Stroke]) [0..<rows + 1])"

subsection \<open>A cell\<close>

definition drawImages :: "'p library \<Rightarrow> int \<Rightarrow> int \<Rightarrow> Image list \<Rightarrow> 'p command list" where
  "drawImages L offsetX offsetY imgs =
     concat (map (\<lambda>imgIdx.
       if length (JPEG (imgs ! imgIdx)) > 0 then
         (case decode L (JPEG (imgs ! imgIdx)) of None \<Rightarrow> [] | Some imgData \<Rightarrow> [DrawImage imgData (offsetX + int imgIdx * 224) offsetY])
       else []) [0..<2])"

definition drawEpisodeNumber :: "'p library \<Rightarrow> int \<Rightarrow> int \<Rightarrow> nat list \<Rightarrow> nat \<Rightarrow> 'p command list" where
  "drawEpisodeNumber L offsetX offsetY nums i =
     (if i < length nums \<and> nums ! i > 0 then
        [SetRGB 10 10 10, LoadFontFace 11]
        @ (if fontLoads L then
             let episodeText = ''Ep'' @ dec (nums ! i);
                 padding = 3;
                 rectX = offsetX + 448 - textWidth L episodeText - 8;
                 rectY = offsetY + 5
             in [SetRGB 0 0 8,
                 DrawRectangle (rectX - padding) (rectY - padding) (WidthOf episodeText (2 * padding)) (HeightOf episodeText (2 * padding)),
                 Fill, SetRGB 10 10 10, DrawString episodeText rectX (offsetY + textHeight L episodeText)]
           else [])
      else [])"

text \<open>The two lines of a joint, one after the other for the joints of a list.\<close>

fun jointLines :: "int \<Rightarrow> int \<Rightarrow> (nat \<times> Joint) list \<Rightarrow> 'p command list" where
  "jointLines textX y [] = []"
| "jointLines textX y ((j, joint) # js) =
     DrawString (''M'' @ dec j @ '' P:'' @ decimal (Position joint) @ '' G:'' @ decimal (Goal joint)) textX y
     # DrawString (''   C:'' @ decimal (CurrentMA joint) @ ''mA V:'' @ decimal (Velocity joint)) textX (y + (11 + 2))
     # jointLines textX (y + (11 + 2) + (11 + 3)) js"

definition numJointsLeft :: "Joint list \<Rightarrow> nat" where
  "numJointsLeft joints = (length joints + 1) div 2"

definition numbered_joints :: "Joint list \<Rightarrow> (nat \<times> Joint) list" where
  "numbered_joints joints = zip [0..<length joints] joints"

definition drawLeft :: "'p library \<Rightarrow> bool \<Rightarrow> 'p option list \<Rightarrow> int \<Rightarrow> int \<Rightarrow> Frame \<Rightarrow> nat \<Rightarrow> unit fault + 'p command list" where
  "drawLeft L enableRendering renders offsetX offsetY frame i =
     (if enableRendering then
        andThen (list_at renders (int i)) (\<lambda>img.
          case img of
            Some im \<Rightarrow> Inr [DrawImage im offsetX (offsetY + 224)]
          | None \<Rightarrow>
              Inr (if length (Joints frame) \<ge> 8
                then [SetRGB 2 0 0, DrawRectangle offsetX (offsetY + 224) (Fixed 224) (Fixed 224), Fill] else []))
      else if length (Joints frame) > 0 then
        Inr ([SetRGB 10 10 10, LoadFontFace 11]
          @ (if fontLoads L
             then jointLines (offsetX + 5) (offsetY + 224 + 15) (take (numJointsLeft (Joints frame)) (numbered_joints (Joints frame)))
             else []))
      else Inr [])"

text \<open>The compact display: at most eight motors below the id, the time and the task.\<close>

definition motorLines :: "int \<Rightarrow> int \<Rightarrow> Joint list \<Rightarrow> 'p command list" where
  "motorLines textX y joints =
     map (\<lambda>(i, joint). DrawString (''M'' @ dec i @ '':P'' @ decimal (Position joint) @ '' C'' @ decimal (CurrentMA joint))
         textX (y + int i * (10 + 2))) (take 8 (numbered_joints joints))"

definition compactText :: "'p library \<Rightarrow> int \<Rightarrow> int \<Rightarrow> Frame \<Rightarrow> 'p command list" where
  "compactText L textX y frame =
     (let y1 = y + (11 + 2); y2 = y1 + (11 + 4); y3 = (if Task frame \<noteq> [] then y2 + (11 + 4) else y2) in
      [DrawString (''ID:'' @ idText L (GlobalFrameID frame)) textX y,
       DrawString (''T:'' @ dec (unat (TimestampNsSinceEpisodeStart frame div 1000000)) @ ''ms'') textX y1]
      @ (if Task frame \<noteq> [] then [DrawString (''Task:'' @ Task frame) textX y2] else [])
      @ LoadFontFace 10 # motorLines textX y3 (Joints frame))"

definition drawText :: "'p library \<Rightarrow> bool \<Rightarrow> int \<Rightarrow> int \<Rightarrow> Frame \<Rightarrow> 'p command list" where
  "drawText L enableRendering offsetX offsetY frame =
     [SetRGB 10 10 10, LoadFontFace 11]
     @ (if fontLoads L then
          let textX = offsetX + 224 + 5; y = offsetY + 224 + 15 in
          if enableRendering then compactText L textX y frame
          else jointLines textX y (drop (numJointsLeft (Joints frame)) (numbered_joints (Joints frame)))
        else [])"

definition drawCell :: "'p library \<Rightarrow> bool \<Rightarrow> 'p option list \<Rightarrow> nat \<Rightarrow> renderJob \<Rightarrow> nat \<Rightarrow> unit fault + 'p command list" where
  "drawCell L enableRendering renders cols job i =
     (let frame = gridFrames job ! i; (x, y) = cellOffset cols i; offsetX = int x; offsetY = int y in
      if length (Images frame) = 2 then
        andThen (drawLeft L enableRendering renders offsetX offsetY frame i) (\<lambda>left. Inr
          (drawImages L offsetX offsetY (Images frame) @ drawEpisodeNumber L offsetX offsetY (episodeNums job) i
           @ left @ drawText L enableRendering offsetX offsetY frame))
      else Inr [])"

subsection \<open>Pictures\<close>

text \<open>\<^verbatim>\<open>frame_%06d.png\<close> in the temporary directory\<close>

definition framePath :: "string \<Rightarrow> nat \<Rightarrow> string" where
  "framePath outputDir k = outputDir @ ''/frame_'' @ replicate (6 - length (dec k)) (CHR ''0'') @ dec k @ ''.png''"

text \<open>The calls and the file the picture is saved to.\<close>

definition renderGridFrame :: "'p library \<Rightarrow> nat \<Rightarrow> nat \<Rightarrow> bool \<Rightarrow> string \<Rightarrow> renderJob \<Rightarrow> 'p option list \<Rightarrow>
    unit fault + 'p command list \<times> string" where
  "renderGridFrame L cols rows enableRendering outputDir job renders =
     andThen (foldE (\<lambda>i dc. andThen (drawCell L enableRendering renders cols job i) (\<lambda>cs. Inr (dc @ cs)))
         [0..<min (length (gridFrames job)) (cols * rows)] (gridLines cols rows))
       (\<lambda>dc. Inr (dc, framePath outputDir (frameIndex job)))"

subsection \<open>The picture of one frame\<close>

fun frameMotors :: "int \<Rightarrow> (nat \<times> Joint) list \<Rightarrow> 'p command list" where
  "frameMotors y [] = []"
| "frameMotors y ((i, joint) # js) =
     DrawString (''  Motor '' @ dec i @ '': Pos='' @ decimal (Position joint) @ '' Goal='' @ decimal (Goal joint)
       @ '' Curr='' @ decimal (CurrentMA joint) @ ''mA Vel='' @ decimal (Velocity joint)) 10 y
     # frameMotors (y + (14 + 3)) js"

definition renderFrame :: "'p library \<Rightarrow> Frame \<Rightarrow> nat \<Rightarrow> string \<Rightarrow> 'p command list \<times> string" where
  "renderFrame L frame k outputDir =
     (let imgWidth = 224; imgHeight = 224; y = imgHeight + 20; y1 = y + (14 + 5); y2 = y1 + (14 + 5); y3 = y2 + (14 + 10); y4 = y3 + (14 + 5) in
      ([SetRGB 0 0 0, Clear]
       @ concat (map (\<lambda>i.
           if length (JPEG (Images frame ! i)) = 0 then []
           else (case decode L (JPEG (Images frame ! i)) of None \<Rightarrow> [] | Some imgData \<Rightarrow> [DrawImage imgData (int i * imgWidth) 0]))
           [0..<min 2 (length (Images frame))])
       @ [SetRGB 10 10 10, LoadFontFace 14,
          DrawString (''Frame: '' @ dec k) 10 y,
          DrawString (''Global Frame ID: '' @ idText L (GlobalFrameID frame)) 10 y1,
          DrawString (''Time: '' @ dec (unat (TimestampNsSinceEpisodeStart frame div 1000000)) @ '' ms'') 10 y2,
          DrawString ''Motors:'' 10 y3]
       @ frameMotors y4 (numbered_joints (Joints frame)),
       framePath outputDir k))"

text \<open>The arguments of \<^verbatim>\<open>ffmpeg\<close>; \<open>fps\<close> is the printed number of pictures per second.\<close>

definition generateVideo :: "string \<Rightarrow> string \<Rightarrow> string \<Rightarrow> string list" where
  "generateVideo inputDir outputPath fps =
     [''ffmpeg'', ''-framerate'', fps, ''-i'', inputDir @ ''/frame_%06d.png'', ''-c:v'', ''libx264'', ''-pix_fmt'', ''yuv420p'', ''-y'', outputPath]"

end
