(* ===== verification/Render_Pool.thy ===== *)
theory Render_Pool
  imports Dataset_Grid
begin

section \<open>The pool of workers that renders the grids\<close>

text \<open>
  \<^verbatim>\<open>station/bin/dataset-mp4/dataset-mp4.go\<close>, the goroutines of \<^verbatim>\<open>main\<close>: \<^verbatim>\<open>main\<close> itself sends the jobs and waits, the
  workers run \<^verbatim>\<open>renderGridFrame\<close>, the collector counts results, and the renderers ask the render service
  for the 3D view of a cell. They share the channels \<open>jobs\<close>, \<open>results\<close> and \<open>service\<close>, and every request has a
  response channel of capacity one. A goroutine makes one step at a time, from one channel operation to
  the next; \<open>None\<close> means that it is blocked or has ended. Which one steps is the choice of the
  scheduler, what the service answers and whether a picture is saved that of the environment.
\<close>

subsection \<open>State\<close>

record 'i render3DRequest =
  reqJoints :: "Joint list"
  response :: "'i option"
  responseClosed :: bool

text \<open>A worker inside \<^verbatim>\<open>renderGridFrame\<close> is at the loop of the requests, at that of the responses, or
  drawing; \<open>cs\<close> are the response channels of the cells (positions of the requests), \<open>rs\<close> the renders.\<close>

datatype 'i worker =
    Receiving
  | Requesting renderJob nat "nat option list"
  | Collecting renderJob nat "nat option list" "'i option list"
  | Drawing renderJob "'i option list"
  | Reporting nat bool
  | Stopped

datatype renderer = Idle | Fetching nat | Closing nat | Ended

datatype mainStage = SendJobs | WaitWorkers | WaitCollector | WaitRenderers | Finished

text \<open>\<open>drawn\<close> lists the pictures in the order they are saved, with the error of \<^verbatim>\<open>SavePNG\<close>.\<close>

record 'i pool =
  stage :: mainStage
  todo :: "renderJob list"
  jobs :: "renderJob list"
  jobsClosed :: bool
  workers :: "'i worker list"
  results :: "(nat \<times> bool) list"
  resultsClosed :: bool
  renderedCount :: nat
  renderErrors :: nat
  collectorDone :: bool
  service :: "nat list"
  serviceClosed :: bool
  renderers :: "renderer list"
  requests :: "'i render3DRequest list"
  drawn :: "(renderJob \<times> 'i option list \<times> bool) list"
  panicked :: bool

text \<open>The flags and what the render service may answer for the joints of a frame.\<close>

record 'i conf =
  gridSize :: nat
  numWorkers :: nat
  renderState :: bool
  answers :: "Joint list \<Rightarrow> 'i \<Rightarrow> bool"

definition totalWorkers :: nat where "totalWorkers = (8008 - 8000 + 1) * 32"

definition startPool :: "'i conf \<Rightarrow> renderJob list \<Rightarrow> 'i pool" where
  "startPool C js =
     \<lparr>stage = SendJobs, todo = js, jobs = [], jobsClosed = False, workers = replicate (numWorkers C) Receiving,
      results = [], resultsClosed = False, renderedCount = 0, renderErrors = 0, collectorDone = False,
      service = [], serviceClosed = False, renderers = (if renderState C then replicate totalWorkers Idle else []),
      requests = [], drawn = [], panicked = False\<rparr>"

subsection \<open>Steps\<close>

text \<open>\<open>jobs\<close> and \<open>results\<close> have room for two entries per worker, as \<open>service\<close> has per renderer. A send on
  a closed channel panics.\<close>

definition mainStep :: "'i conf \<Rightarrow> 'i pool \<Rightarrow> 'i pool option" where
  "mainStep C s =
     (case stage s of
        SendJobs \<Rightarrow>
          (case todo s of
             [] \<Rightarrow> Some (s\<lparr>jobsClosed := True, stage := WaitWorkers\<rparr>)
           | j # js \<Rightarrow>
               if jobsClosed s then Some (s\<lparr>panicked := True\<rparr>)
               else if length (jobs s) < numWorkers C * 2 then Some (s\<lparr>jobs := jobs s @ [j], todo := js\<rparr>)
               else None)
      | WaitWorkers \<Rightarrow>
          if list_all (\<lambda>w. w = Stopped) (workers s) then Some (s\<lparr>resultsClosed := True, stage := WaitCollector\<rparr>) else None
      | WaitCollector \<Rightarrow>
          if collectorDone s
          then Some (if renderState C then s\<lparr>serviceClosed := True, stage := WaitRenderers\<rparr> else s\<lparr>stage := Finished\<rparr>)
          else None
      | WaitRenderers \<Rightarrow>
          if list_all (\<lambda>r. r = Ended) (renderers s) then Some (s\<lparr>stage := Finished\<rparr>) else None
      | Finished \<Rightarrow> None)"

definition to_worker :: "nat \<Rightarrow> 'i worker \<Rightarrow> 'i pool \<Rightarrow> 'i pool" where
  "to_worker w x s = s\<lparr>workers := (workers s)[w := x]\<rparr>"

definition beginJob :: "'i conf \<Rightarrow> renderJob \<Rightarrow> 'i worker" where
  "beginJob C j = (if renderState C then Requesting j 0 (replicate (gridSize C) None) else Drawing j [])"

definition needsRender :: "Frame \<Rightarrow> bool" where
  "needsRender f \<longleftrightarrow> 8 \<le> length (Joints f) \<and> length (Images f) = 2"

definition requestStep :: "'i conf \<Rightarrow> nat \<Rightarrow> renderJob \<Rightarrow> nat \<Rightarrow> nat option list \<Rightarrow> 'i pool \<Rightarrow> 'i pool option" where
  "requestStep C w j i cs s =
     (if i < gridSize C \<and> i < length (gridFrames j) then
        if needsRender (gridFrames j ! i) then
          if serviceClosed s then Some (s\<lparr>panicked := True\<rparr>)
          else if length (service s) < totalWorkers * 2 then
            Some (to_worker w (Requesting j (i + 1) (cs[i := Some (length (requests s))]))
              (s\<lparr>requests := requests s @ [\<lparr>reqJoints = Joints (gridFrames j ! i), response = None, responseClosed = False\<rparr>],
                 service := service s @ [length (requests s)]\<rparr>))
          else None
        else Some (to_worker w (Requesting j (i + 1) cs) s)
      else Some (to_worker w (Collecting j 0 cs (replicate (gridSize C) None)) s))"

definition collectStep :: "'i conf \<Rightarrow> nat \<Rightarrow> renderJob \<Rightarrow> nat \<Rightarrow> nat option list \<Rightarrow> 'i option list \<Rightarrow> 'i pool \<Rightarrow> 'i pool option" where
  "collectStep C w j i cs rs s =
     (if i < gridSize C \<and> i < length (gridFrames j) then
        case cs ! i of
          None \<Rightarrow> Some (to_worker w (Collecting j (i + 1) cs rs) s)
        | Some c \<Rightarrow>
            (case response (requests s ! c) of
               Some img \<Rightarrow> Some (to_worker w (Collecting j (i + 1) cs (rs[i := Some img]))
                 (s\<lparr>requests := (requests s)[c := (requests s ! c)\<lparr>response := None\<rparr>]\<rparr>))
             | None \<Rightarrow>
                 if responseClosed (requests s ! c) then Some (to_worker w (Collecting j (i + 1) cs rs) s) else None)
      else Some (to_worker w (Drawing j rs) s))"

definition workerStep :: "'i conf \<Rightarrow> nat \<Rightarrow> bool \<Rightarrow> 'i pool \<Rightarrow> 'i pool option" where
  "workerStep C w err s =
     (case workers s ! w of
        Receiving \<Rightarrow>
          (case jobs s of
             j # js \<Rightarrow> Some (to_worker w (beginJob C j) (s\<lparr>jobs := js\<rparr>))
           | [] \<Rightarrow> if jobsClosed s then Some (to_worker w Stopped s) else None)
      | Requesting j i cs \<Rightarrow> requestStep C w j i cs s
      | Collecting j i cs rs \<Rightarrow> collectStep C w j i cs rs s
      | Drawing j rs \<Rightarrow> Some (to_worker w (Reporting (frameIndex j) err) (s\<lparr>drawn := drawn s @ [(j, rs, err)]\<rparr>))
      | Reporting k e \<Rightarrow>
          if resultsClosed s then Some (s\<lparr>panicked := True\<rparr>)
          else if length (results s) < numWorkers C * 2 then Some (to_worker w Receiving (s\<lparr>results := results s @ [(k, e)]\<rparr>))
          else None
      | Stopped \<Rightarrow> None)"

definition collectorStep :: "'i pool \<Rightarrow> 'i pool option" where
  "collectorStep s =
     (case results s of
        (k, e) # rs \<Rightarrow> Some (if e then s\<lparr>results := rs, renderErrors := renderErrors s + 1\<rparr>
                         else s\<lparr>results := rs, renderedCount := renderedCount s + 1\<rparr>)
      | [] \<Rightarrow> if resultsClosed s \<and> \<not> collectorDone s then Some (s\<lparr>collectorDone := True\<rparr>) else None)"

definition to_renderer :: "nat \<Rightarrow> renderer \<Rightarrow> 'i pool \<Rightarrow> 'i pool" where
  "to_renderer r x s = s\<lparr>renderers := (renderers s)[r := x]\<rparr>"

text \<open>What \<open>fetch3DRender\<close> returns; fewer than eight joints are an error.\<close>

definition fetch3DRender :: "'i conf \<Rightarrow> Joint list \<Rightarrow> 'i option \<Rightarrow> bool" where
  "fetch3DRender C joints img \<longleftrightarrow>
     (case img of None \<Rightarrow> True | Some im \<Rightarrow> \<not> length joints < 8 \<and> answers C joints im)"

definition rendererStep :: "'i conf \<Rightarrow> nat \<Rightarrow> 'i option \<Rightarrow> 'i pool \<Rightarrow> 'i pool option" where
  "rendererStep C r img s =
     (case renderers s ! r of
        Idle \<Rightarrow>
          (case service s of
             c # cs \<Rightarrow> Some (to_renderer r (Fetching c) (s\<lparr>service := cs\<rparr>))
           | [] \<Rightarrow> if serviceClosed s then Some (to_renderer r Ended s) else None)
      | Fetching c \<Rightarrow>
          if img = None then Some (to_renderer r (Closing c) s)
          else if responseClosed (requests s ! c) then Some (s\<lparr>panicked := True\<rparr>)
          else if response (requests s ! c) = None then
            Some (to_renderer r (Closing c) (s\<lparr>requests := (requests s)[c := (requests s ! c)\<lparr>response := img\<rparr>]\<rparr>))
          else None
      | Closing c \<Rightarrow>
          if responseClosed (requests s ! c) then Some (s\<lparr>panicked := True\<rparr>)
          else Some (to_renderer r Idle (s\<lparr>requests := (requests s)[c := (requests s ! c)\<lparr>responseClosed := True\<rparr>]\<rparr>))
      | Ended \<Rightarrow> None)"

subsection \<open>Runs\<close>

datatype goroutine = Main | Worker nat | Collector | Renderer nat

text \<open>The environment lets an error happen when a picture is saved, or answers a request.\<close>

record 'i happens =
  saveError :: bool
  answer :: "'i option"

definition possible :: "'i conf \<Rightarrow> goroutine \<Rightarrow> 'i happens \<Rightarrow> 'i pool \<Rightarrow> bool" where
  "possible C g e s \<longleftrightarrow>
     (case g of
        Renderer r \<Rightarrow> r < length (renderers s) \<and>
          (case renderers s ! r of Fetching c \<Rightarrow> fetch3DRender C (reqJoints (requests s ! c)) (answer e) | _ \<Rightarrow> True)
      | Worker w \<Rightarrow> w < length (workers s)
      | _ \<Rightarrow> True)"

definition step :: "'i conf \<Rightarrow> goroutine \<Rightarrow> 'i happens \<Rightarrow> 'i pool \<Rightarrow> 'i pool option" where
  "step C g e s =
     (if panicked s \<or> \<not> possible C g e s then None
      else case g of
        Main \<Rightarrow> mainStep C s
      | Worker w \<Rightarrow> workerStep C w (saveError e) s
      | Collector \<Rightarrow> collectorStep s
      | Renderer r \<Rightarrow> rendererStep C r (answer e) s)"

text \<open>A run is a schedule, with what happens at each step.\<close>

fun run_pool :: "'i conf \<Rightarrow> (goroutine \<times> 'i happens) list \<Rightarrow> 'i pool \<Rightarrow> 'i pool option" where
  "run_pool C [] s = Some s"
| "run_pool C (x # xs) s = (case step C (fst x) (snd x) s of None \<Rightarrow> None | Some s' \<Rightarrow> run_pool C xs s')"

inductive reached :: "'i conf \<Rightarrow> renderJob list \<Rightarrow> 'i pool \<Rightarrow> bool" for C js where
  start: "reached C js (startPool C js)"
| next_step: "reached C js s \<Longrightarrow> step C g e s = Some s' \<Longrightarrow> reached C js s'"

end
