(* ===== verification/Render_Pool_Properties.thy ===== *)
theory Render_Pool_Properties
  imports Render_Pool "HOL-Library.Multiset"
begin

section \<open>Every schedule of the pool draws every job once\<close>

text \<open>
  Over all schedules: a weight that every step lowers bounds the length of a run; the invariants say
  which stage closes which channel, where each job is, and which goroutine holds each request; from
  them no step panics, and a pool in which nothing can step has finished. The image drawn for a cell is
  always one that was fetched for the joints of that cell.
\<close>

subsection \<open>Runs are bounded\<close>

fun worker_weight :: "nat \<Rightarrow> 'i worker \<Rightarrow> nat" where
  "worker_weight n Receiving = 1"
| "worker_weight n (Requesting j i cs) = 4 * (n - i) + n + 6"
| "worker_weight n (Collecting j i cs rs) = (n - i) + 5"
| "worker_weight n (Drawing j rs) = 4"
| "worker_weight n (Reporting k e) = 3"
| "worker_weight n Stopped = 0"

fun renderer_weight :: "renderer \<Rightarrow> nat" where
  "renderer_weight Idle = 1"
| "renderer_weight (Fetching c) = 3"
| "renderer_weight (Closing c) = 2"
| "renderer_weight Ended = 0"

fun stage_weight :: "mainStage \<Rightarrow> nat" where
  "stage_weight SendJobs = 4"
| "stage_weight WaitWorkers = 3"
| "stage_weight WaitCollector = 2"
| "stage_weight WaitRenderers = 1"
| "stage_weight Finished = 0"

definition pool_weight :: "'i conf \<Rightarrow> 'i pool \<Rightarrow> nat" where
  "pool_weight C s = (5 * gridSize C + 8) * length (todo s) + (5 * gridSize C + 7) * length (jobs s)
     + sum_list (map (worker_weight (gridSize C)) (workers s)) + length (results s) + (if collectorDone s then 0 else 1)
     + 3 * length (service s) + sum_list (map renderer_weight (renderers s)) + stage_weight (stage s) + (if panicked s then 0 else 1)"

lemma sum_list_moved:
  fixes f :: "'a \<Rightarrow> 'b::comm_monoid_add"
  shows "i < length xs \<Longrightarrow> sum_list (map f (xs[i := x])) + f (xs ! i) = sum_list (map f xs) + f x"
proof (induction xs arbitrary: i)
  case (Cons y ys)
  show ?case
  proof (cases i)
    case (Suc k)
    then have "sum_list (map f (ys[k := x])) + f (ys ! k) = sum_list (map f ys) + f x" using Cons by simp
    then show ?thesis using Suc by (simp add: add.assoc)
  qed (simp add: ac_simps)
qed simp

lemma worker_moved:
  assumes "w < length (workers s)"
  shows "sum_list (map f (workers (to_worker w x s))) + f (workers s ! w) = sum_list (map f (workers s)) + (f x :: 'b::comm_monoid_add)"
  using sum_list_moved [OF assms] by (simp add: to_worker_def)

lemma renderer_moved:
  assumes "r < length (renderers s)"
  shows "sum_list (map f (renderers (to_renderer r x s))) + f (renderers s ! r) = sum_list (map f (renderers s)) + (f x :: 'b::comm_monoid_add)"
  using sum_list_moved [OF assms] by (simp add: to_renderer_def)

lemma to_worker_rest [simp]:
  "stage (to_worker w x s) = stage s" "todo (to_worker w x s) = todo s" "jobs (to_worker w x s) = jobs s"
  "jobsClosed (to_worker w x s) = jobsClosed s" "results (to_worker w x s) = results s"
  "resultsClosed (to_worker w x s) = resultsClosed s" "renderedCount (to_worker w x s) = renderedCount s"
  "renderErrors (to_worker w x s) = renderErrors s" "collectorDone (to_worker w x s) = collectorDone s"
  "service (to_worker w x s) = service s" "serviceClosed (to_worker w x s) = serviceClosed s"
  "renderers (to_worker w x s) = renderers s" "requests (to_worker w x s) = requests s"
  "drawn (to_worker w x s) = drawn s" "panicked (to_worker w x s) = panicked s"
  "length (workers (to_worker w x s)) = length (workers s)"
  by (simp_all add: to_worker_def)

lemma to_renderer_rest [simp]:
  "stage (to_renderer w x s) = stage s" "todo (to_renderer w x s) = todo s" "jobs (to_renderer w x s) = jobs s"
  "jobsClosed (to_renderer w x s) = jobsClosed s" "results (to_renderer w x s) = results s"
  "resultsClosed (to_renderer w x s) = resultsClosed s" "renderedCount (to_renderer w x s) = renderedCount s"
  "renderErrors (to_renderer w x s) = renderErrors s" "collectorDone (to_renderer w x s) = collectorDone s"
  "service (to_renderer w x s) = service s" "serviceClosed (to_renderer w x s) = serviceClosed s"
  "workers (to_renderer w x s) = workers s" "requests (to_renderer w x s) = requests s"
  "drawn (to_renderer w x s) = drawn s" "panicked (to_renderer w x s) = panicked s"
  "length (renderers (to_renderer w x s)) = length (renderers s)"
  by (simp_all add: to_renderer_def)

lemma mainStep_weight: "mainStep C s = Some s' \<Longrightarrow> \<not> panicked s \<Longrightarrow> pool_weight C s' < pool_weight C s"
  by (auto simp: mainStep_def pool_weight_def split: mainStage.splits list.splits if_splits)

lemma collectorStep_weight: "collectorStep s = Some s' \<Longrightarrow> pool_weight C s' < pool_weight C s"
  by (auto simp: collectorStep_def pool_weight_def split: list.splits if_splits)

text \<open>The weight after a worker or a renderer has moved.\<close>

lemma worker_lighter:
  assumes "w < length (workers s)" and "workers t = workers s" and "renderers t = renderers s"
    and "collectorDone t = collectorDone s" and "panicked t = panicked s" and "stage t = stage s" and "todo t = todo s"
    and "worker_weight (gridSize C) x + (5 * gridSize C + 7) * length (jobs t) + length (results t) + 3 * length (service t)
      < worker_weight (gridSize C) (workers s ! w) + (5 * gridSize C + 7) * length (jobs s) + length (results s) + 3 * length (service s)"
  shows "pool_weight C (to_worker w x t) < pool_weight C s"
  using worker_moved [of w t "worker_weight (gridSize C)" x] assms by (simp add: pool_weight_def)

lemma renderer_lighter:
  assumes "r < length (renderers s)" and "renderers t = renderers s" and "workers t = workers s"
    and "collectorDone t = collectorDone s" and "panicked t = panicked s" and "stage t = stage s" and "todo t = todo s"
    and "jobs t = jobs s" and "results t = results s"
    and "renderer_weight x + 3 * length (service t) < renderer_weight (renderers s ! r) + 3 * length (service s)"
  shows "pool_weight C (to_renderer r x t) < pool_weight C s"
  using renderer_moved [of r t renderer_weight x] assms by (simp add: pool_weight_def)

lemma panic_lighter: "\<not> panicked s \<Longrightarrow> pool_weight C (s\<lparr>panicked := True\<rparr>) < pool_weight C s"
  by (simp add: pool_weight_def)

lemma workerStep_weight:
  assumes "workerStep C w err s = Some s'" and "w < length (workers s)" and "\<not> panicked s"
  shows "pool_weight C s' < pool_weight C s"
proof (cases "workers s ! w")
  case Receiving
  then show ?thesis using assms
    by (auto simp: workerStep_def beginJob_def split: list.splits if_splits intro!: worker_lighter)
next
  case (Requesting j i cs)
  then show ?thesis using assms
    by (auto simp: workerStep_def requestStep_def panic_lighter split: if_splits intro!: worker_lighter)
next
  case (Collecting j i cs rs)
  then show ?thesis using assms
    by (auto simp: workerStep_def collectStep_def split: if_splits option.splits intro!: worker_lighter)
next
  case (Drawing j rs)
  then show ?thesis using assms by (auto simp: workerStep_def intro!: worker_lighter)
next
  case (Reporting k e)
  then show ?thesis using assms
    by (auto simp: workerStep_def panic_lighter split: if_splits intro!: worker_lighter)
qed (use assms in \<open>simp add: workerStep_def\<close>)

lemma rendererStep_weight:
  assumes "rendererStep C r img s = Some s'" and "r < length (renderers s)" and "\<not> panicked s"
  shows "pool_weight C s' < pool_weight C s"
  using assms
  by (auto simp: rendererStep_def panic_lighter split: renderer.splits list.splits if_splits intro!: renderer_lighter)

lemma step_cases:
  assumes "step C g e s = Some s'"
  obtains (main) "g = Main" "mainStep C s = Some s'" "\<not> panicked s"
    | (worker) w where "g = Worker w" "workerStep C w (saveError e) s = Some s'" "w < length (workers s)" "\<not> panicked s"
    | (collector) "g = Collector" "collectorStep s = Some s'" "\<not> panicked s"
    | (renderer) r where "g = Renderer r" "rendererStep C r (answer e) s = Some s'" "r < length (renderers s)" "\<not> panicked s"
        "\<And>c. renderers s ! r = Fetching c \<Longrightarrow> fetch3DRender C (reqJoints (requests s ! c)) (answer e)"
proof (cases g)
  case (Renderer r)
  show ?thesis by (rule renderer [OF Renderer]) (use assms Renderer in \<open>auto simp: step_def possible_def split: if_splits\<close>)
qed (use assms main worker collector in \<open>auto simp: step_def possible_def split: if_splits\<close>)

lemma step_weight: "step C g e s = Some s' \<Longrightarrow> pool_weight C s' < pool_weight C s"
  by (erule step_cases) (simp_all add: mainStep_weight workerStep_weight collectorStep_weight rendererStep_weight)

lemma run_weight: "run_pool C xs s = Some s' \<Longrightarrow> length xs + pool_weight C s' \<le> pool_weight C s"
proof (induction xs arbitrary: s)
  case (Cons x xs)
  then obtain t where t: "step C (fst x) (snd x) s = Some t" "run_pool C xs t = Some s'" by (auto split: option.splits)
  from Cons.IH [OF t(2)] step_weight [OF t(1)] show ?case by simp
qed simp

subsection \<open>Stages\<close>

text \<open>Which stage closes which channel, and what the goroutines that have ended leave behind.\<close>

fun rendering :: "'i worker \<Rightarrow> bool" where
  "rendering (Requesting j i cs) = True"
| "rendering (Collecting j i cs rs) = True"
| "rendering _ = False"

definition stages_ok :: "'i conf \<Rightarrow> 'i pool \<Rightarrow> bool" where
  "stages_ok C s \<longleftrightarrow>
     (jobsClosed s \<longleftrightarrow> stage s \<noteq> SendJobs) \<and> (stage s \<noteq> SendJobs \<longrightarrow> todo s = [])
   \<and> (resultsClosed s \<longleftrightarrow> stage s \<noteq> SendJobs \<and> stage s \<noteq> WaitWorkers)
   \<and> (serviceClosed s \<longleftrightarrow> renderState C \<and> (stage s = WaitRenderers \<or> stage s = Finished))
   \<and> (resultsClosed s \<longrightarrow> list_all (\<lambda>w. w = Stopped) (workers s))
   \<and> (Stopped \<in> set (workers s) \<longrightarrow> jobsClosed s \<and> jobs s = [])
   \<and> (collectorDone s \<longrightarrow> resultsClosed s \<and> results s = [])
   \<and> (stage s = WaitRenderers \<or> stage s = Finished \<longrightarrow> collectorDone s)
   \<and> (Ended \<in> set (renderers s) \<longrightarrow> serviceClosed s \<and> service s = [])
   \<and> (stage s = WaitRenderers \<longrightarrow> renderState C)
   \<and> (stage s = Finished \<longrightarrow> list_all (\<lambda>r. r = Ended) (renderers s))
   \<and> (\<not> renderState C \<longrightarrow> service s = [] \<and> renderers s = [] \<and> list_all (\<lambda>w. \<not> rendering w) (workers s))
   \<and> length (workers s) = numWorkers C \<and> length (renderers s) = (if renderState C then totalWorkers else 0)"

lemma start_stages: "stages_ok C (startPool C js)"
  by (auto simp: stages_ok_def startPool_def list_all_iff totalWorkers_def)

lemma mainStep_stages:
  assumes "mainStep C s = Some s'" and s: "stages_ok C s"
  shows "stages_ok C s'"
proof (cases "stage s")
  case SendJobs
  show ?thesis
  proof (cases "todo s")
    case Nil
    then have "s' = s\<lparr>jobsClosed := True, stage := WaitWorkers\<rparr>" using assms(1) SendJobs by (simp add: mainStep_def)
    then show ?thesis using s SendJobs Nil by (auto simp: stages_ok_def)
  next
    case (Cons j js)
    have "\<not> jobsClosed s" using s SendJobs by (simp add: stages_ok_def)
    then have "s' = s\<lparr>jobs := jobs s @ [j], todo := js\<rparr>"
      using assms(1) SendJobs Cons by (auto simp: mainStep_def split: if_splits)
    then show ?thesis using s SendJobs by (auto simp: stages_ok_def)
  qed
next
  case WaitWorkers
  then have "s' = s\<lparr>resultsClosed := True, stage := WaitCollector\<rparr>" "list_all (\<lambda>w. w = Stopped) (workers s)"
    using assms(1) by (auto simp: mainStep_def split: if_splits)
  then show ?thesis using s WaitWorkers by (auto simp: stages_ok_def)
next
  case WaitCollector
  then have "s' = (if renderState C then s\<lparr>serviceClosed := True, stage := WaitRenderers\<rparr> else s\<lparr>stage := Finished\<rparr>)" "collectorDone s"
    using assms(1) by (auto simp: mainStep_def split: if_splits)
  then show ?thesis using s WaitCollector by (cases "renderState C") (auto simp: stages_ok_def)
next
  case WaitRenderers
  then have "s' = s\<lparr>stage := Finished\<rparr>" "list_all (\<lambda>r. r = Ended) (renderers s)"
    using assms(1) by (auto simp: mainStep_def split: if_splits)
  then show ?thesis using s WaitRenderers by (auto simp: stages_ok_def)
qed (use assms in \<open>simp add: mainStep_def\<close>)

lemma counted_stages:
  assumes "stages_ok C s" and "\<not> collectorDone s"
  shows "stages_ok C (s\<lparr>results := rs, renderErrors := n\<rparr>)" and "stages_ok C (s\<lparr>results := rs, renderedCount := n\<rparr>)"
  using assms by (auto simp: stages_ok_def)

lemma collectorStep_stages:
  assumes "collectorStep s = Some s'" and "stages_ok C s"
  shows "stages_ok C s'"
proof (cases "results s")
  case (Cons x rs)
  then have "\<not> collectorDone s" using assms(2) by (simp add: stages_ok_def)
  with assms Cons show ?thesis by (cases x) (auto simp: collectorStep_def counted_stages split: if_splits)
next
  case Nil
  then have "s' = s\<lparr>collectorDone := True\<rparr>" "resultsClosed s" using assms(1) by (auto simp: collectorStep_def split: if_splits)
  with Nil assms(2) show ?thesis by (auto simp: stages_ok_def)
qed

lemma in_set_update: "x \<in> set (xs[i := y]) \<Longrightarrow> x = y \<or> x \<in> set xs"
  using set_update_subset_insert [of xs i y] by auto

text \<open>A worker that moves and has not stopped.\<close>

lemma to_worker_stages:
  assumes "stages_ok C s" and "w < length (workers s)" and "workers s ! w \<noteq> Stopped" and "workers t = workers s"
    and "renderers t = renderers s" and "collectorDone t = collectorDone s" and "panicked t = panicked s" and "stage t = stage s"
    and "todo t = todo s" and "jobsClosed t = jobsClosed s" and "resultsClosed t = resultsClosed s" and "serviceClosed t = serviceClosed s"
    and "jobs s = [] \<longrightarrow> jobs t = []" and "service t = service s \<or> renderState C" and "x = Stopped \<longrightarrow> jobsClosed s \<and> jobs s = []"
    and "rendering x \<longrightarrow> renderState C"
  shows "stages_ok C (to_worker w x t)"
proof -
  have "\<not> list_all (\<lambda>w. w = Stopped) (workers s)" using assms(2,3) by (auto simp: list_all_length)
  then have open_: "\<not> resultsClosed s" and early: "stage s = SendJobs \<or> stage s = WaitWorkers"
    using assms(1) by (auto simp: stages_ok_def)
  have no_end: "Ended \<notin> set (renderers s)" using assms(1) early by (auto simp: stages_ok_def)
  have "Stopped \<in> set ((workers s)[w := x]) \<Longrightarrow> jobsClosed s \<and> jobs s = []"
    using assms(1,15) by (auto simp: stages_ok_def dest!: in_set_update)
  moreover have "\<not> renderState C \<Longrightarrow> list_all (\<lambda>w. \<not> rendering w) ((workers s)[w := x])"
    using assms(1,16) by (intro list_all_update) (auto simp: stages_ok_def)
  moreover have "\<not> serviceClosed s" "\<not> collectorDone s" "stage s \<noteq> WaitRenderers" "stage s \<noteq> Finished"
    using assms(1) early open_ by (auto simp: stages_ok_def)
  moreover have "jobsClosed s = (stage s \<noteq> SendJobs)" "stage s \<noteq> SendJobs \<longrightarrow> todo s = []" "\<not> renderState C \<longrightarrow> service s = [] \<and> renderers s = []"
    "length (workers s) = numWorkers C" "length (renderers s) = (if renderState C then totalWorkers else 0)"
    using assms(1) by (simp_all only: stages_ok_def) blast+
  ultimately show ?thesis
    unfolding stages_ok_def using assms(4-14) open_ early no_end by (auto simp: to_worker_def)
qed

lemma workerStep_stages:
  assumes "workerStep C w err s = Some s'" and "w < length (workers s)" and "stages_ok C s" and "\<not> panicked s'"
  shows "stages_ok C s'"
proof -
  have rendering: "rendering (workers s ! w) \<Longrightarrow> renderState C"
    using assms(2,3) by (auto simp: stages_ok_def list_all_length)
  note moved = to_worker_stages [OF assms(3,2)]
  show ?thesis
  proof (cases "workers s ! w")
    case Receiving
    then show ?thesis using assms(1)
      by (auto simp: workerStep_def beginJob_def split: list.splits if_splits intro!: moved)
  next
    case (Requesting j i cs)
    then show ?thesis using assms(1,4) rendering
      by (auto simp: workerStep_def requestStep_def split: if_splits intro!: moved)
  next
    case (Collecting j i cs rs)
    then show ?thesis using assms(1) rendering
      by (auto simp: workerStep_def collectStep_def split: if_splits option.splits intro!: moved)
  next
    case (Drawing j rs)
    then show ?thesis using assms(1) by (auto simp: workerStep_def intro!: moved)
  next
    case (Reporting k e)
    then show ?thesis using assms(1,4) by (auto simp: workerStep_def split: if_splits intro!: moved)
  qed (use assms(1) in \<open>simp add: workerStep_def\<close>)
qed

lemma to_renderer_stages:
  assumes "stages_ok C s" and "r < length (renderers s)" and "renderers s ! r \<noteq> Ended" and "renderers t = renderers s"
    and "workers t = workers s" and "collectorDone t = collectorDone s" and "stage t = stage s" and "todo t = todo s"
    and "jobs t = jobs s" and "jobsClosed t = jobsClosed s" and "results t = results s" and "resultsClosed t = resultsClosed s"
    and "serviceClosed t = serviceClosed s" and "service s = [] \<longrightarrow> service t = []" and "x = Ended \<longrightarrow> serviceClosed s \<and> service s = []"
  shows "stages_ok C (to_renderer r x t)"
proof -
  have "stage s \<noteq> Finished" using assms(1-3) by (auto simp: stages_ok_def list_all_length)
  moreover have "Ended \<in> set ((renderers s)[r := x]) \<Longrightarrow> serviceClosed s \<and> service s = []"
    using assms(1,15) by (auto simp: stages_ok_def dest!: in_set_update)
  ultimately show ?thesis using assms by (cases "stage s") (auto simp: stages_ok_def to_renderer_def)
qed

lemma rendererStep_stages:
  assumes "rendererStep C r img s = Some s'" and "r < length (renderers s)" and "stages_ok C s" and "\<not> panicked s'"
  shows "stages_ok C s'"
  using assms(1,4) to_renderer_stages [OF assms(3,2)]
  by (auto simp: rendererStep_def split: renderer.splits list.splits if_splits)

lemma step_stages: "step C g e s = Some s' \<Longrightarrow> stages_ok C s \<Longrightarrow> \<not> panicked s' \<Longrightarrow> stages_ok C s'"
  by (erule step_cases) (simp_all add: mainStep_stages workerStep_stages collectorStep_stages rendererStep_stages)

subsection \<open>Where the jobs are\<close>

fun held :: "'i worker \<Rightarrow> renderJob multiset" where
  "held (Requesting j i cs) = {#j#}"
| "held (Collecting j i cs rs) = {#j#}"
| "held (Drawing j rs) = {#j#}"
| "held _ = {#}"

fun to_report :: "bool \<Rightarrow> 'i worker \<Rightarrow> nat" where
  "to_report b (Reporting k e) = (if e = b then 1 else 0)"
| "to_report b _ = 0"

text \<open>Pictures saved with, or without, an error; and the results counted, in the channel or still to be sent.\<close>

definition saved :: "bool \<Rightarrow> 'i pool \<Rightarrow> nat" where
  "saved b s = length (filter (\<lambda>(j, rs, e). e = b) (drawn s))"

definition reported :: "bool \<Rightarrow> 'i pool \<Rightarrow> nat" where
  "reported b s = (if b then renderErrors s else renderedCount s) + length (filter (\<lambda>(k, e). e = b) (results s))"

definition accounts_ok :: "renderJob list \<Rightarrow> 'i pool \<Rightarrow> bool" where
  "accounts_ok js s \<longleftrightarrow>
     mset (todo s) + mset (jobs s) + sum_list (map held (workers s)) + mset (map fst (drawn s)) = mset js
   \<and> (\<forall>b. reported b s + sum_list (map (to_report b) (workers s)) = saved b s)"

lemma reported_rest [simp]:
  "reported b (s\<lparr>stage := x\<rparr>) = reported b s" "reported b (s\<lparr>todo := ts\<rparr>) = reported b s" "reported b (s\<lparr>jobs := ts\<rparr>) = reported b s"
  "reported b (s\<lparr>jobsClosed := p\<rparr>) = reported b s" "reported b (s\<lparr>resultsClosed := p\<rparr>) = reported b s"
  "reported b (s\<lparr>serviceClosed := p\<rparr>) = reported b s" "reported b (s\<lparr>collectorDone := p\<rparr>) = reported b s"
  "reported b (s\<lparr>panicked := p\<rparr>) = reported b s" "reported b (s\<lparr>service := cs\<rparr>) = reported b s"
  "reported b (s\<lparr>requests := qs\<rparr>) = reported b s" "reported b (s\<lparr>drawn := ds\<rparr>) = reported b s"
  "reported b (to_worker w y s) = reported b s" "reported b (to_renderer r z s) = reported b s"
  by (simp_all add: reported_def to_worker_def to_renderer_def)

lemma saved_rest [simp]:
  "saved b (s\<lparr>stage := x\<rparr>) = saved b s" "saved b (s\<lparr>todo := ts\<rparr>) = saved b s" "saved b (s\<lparr>jobs := ts\<rparr>) = saved b s"
  "saved b (s\<lparr>jobsClosed := p\<rparr>) = saved b s" "saved b (s\<lparr>resultsClosed := p\<rparr>) = saved b s"
  "saved b (s\<lparr>serviceClosed := p\<rparr>) = saved b s" "saved b (s\<lparr>collectorDone := p\<rparr>) = saved b s"
  "saved b (s\<lparr>panicked := p\<rparr>) = saved b s" "saved b (s\<lparr>service := cs\<rparr>) = saved b s"
  "saved b (s\<lparr>requests := qs\<rparr>) = saved b s" "saved b (s\<lparr>results := rs\<rparr>) = saved b s"
  "saved b (s\<lparr>renderErrors := n\<rparr>) = saved b s" "saved b (s\<lparr>renderedCount := n\<rparr>) = saved b s"
  "saved b (to_worker w y s) = saved b s" "saved b (to_renderer r z s) = saved b s"
  by (simp_all add: saved_def to_worker_def to_renderer_def)

lemma reported_more:
  "reported b (s\<lparr>results := results s @ [(k, e)]\<rparr>) = reported b s + (if e = b then 1 else 0)"
  "saved b (s\<lparr>drawn := drawn s @ [(j, rs, e)]\<rparr>) = saved b s + (if e = b then 1 else 0)"
  by (simp_all add: reported_def saved_def)

lemma reported_counted:
  "results s = (k, True) # rs \<Longrightarrow> reported b (s\<lparr>results := rs, renderErrors := renderErrors s + 1\<rparr>) = reported b s"
  "results s = (k, False) # rs \<Longrightarrow> reported b (s\<lparr>results := rs, renderedCount := renderedCount s + 1\<rparr>) = reported b s"
  by (cases b; simp add: reported_def)+

lemma start_accounts: "accounts_ok js (startPool C js)"
proof -
  have "sum_list (map f (replicate n x)) = 0" if "f x = 0" for f :: "'x \<Rightarrow> 'y::comm_monoid_add" and n x
    using that by (induction n) simp_all
  from this [of held Receiving] this [of "to_report b" Receiving for b]
  show ?thesis by (simp add: accounts_ok_def startPool_def reported_def saved_def)
qed

lemma mainStep_accounts: "mainStep C s = Some s' \<Longrightarrow> accounts_ok js s \<Longrightarrow> accounts_ok js s'"
  by (auto simp: mainStep_def accounts_ok_def split: mainStage.splits list.splits if_splits)

lemma collectorStep_accounts: "collectorStep s = Some s' \<Longrightarrow> accounts_ok js s \<Longrightarrow> accounts_ok js s'"
  by (auto simp: collectorStep_def accounts_ok_def reported_counted [simplified] split: list.splits if_splits)

lemma to_worker_accounts:
  assumes s: "accounts_ok js s" and w: "w < length (workers s)" and "workers t = workers s" and "todo t = todo s"
    and jobs: "mset (jobs t) + held x + mset (map fst (drawn t)) = mset (jobs s) + held (workers s ! w) + mset (map fst (drawn s))"
    and outcomes: "\<And>b. reported b t + to_report b x + saved b s = reported b s + to_report b (workers s ! w) + saved b t"
  shows "accounts_ok js (to_worker w x t)"
proof -
  have w': "w < length (workers t)" using w assms(3) by simp
  let ?H = "sum_list (map held (workers s))" and ?H' = "sum_list (map held (workers (to_worker w x t)))"
  have h: "?H' + held (workers s ! w) = ?H + held x" using worker_moved [OF w', of held x] assms(3) by simp
  have "(mset (todo s) + mset (jobs t) + ?H' + mset (map fst (drawn t))) + held (workers s ! w)
      = mset (todo s) + mset (jobs t) + mset (map fst (drawn t)) + (?H' + held (workers s ! w))" by (simp only: ac_simps)
  also have "\<dots> = mset (todo s) + mset (jobs t) + mset (map fst (drawn t)) + (?H + held x)" by (simp only: h)
  also have "\<dots> = mset (todo s) + ?H + (mset (jobs t) + held x + mset (map fst (drawn t)))" by (simp only: ac_simps)
  also have "\<dots> = mset (todo s) + ?H + (mset (jobs s) + held (workers s ! w) + mset (map fst (drawn s)))" by (simp only: jobs)
  also have "\<dots> = (mset (todo s) + mset (jobs s) + ?H + mset (map fst (drawn s))) + held (workers s ! w)"
    by (simp only: ac_simps)
  also have "\<dots> = mset js + held (workers s ! w)" using s by (simp only: accounts_ok_def)
  finally have "mset (todo s) + mset (jobs t) + ?H' + mset (map fst (drawn t)) = mset js" by simp
  moreover have "reported b t + sum_list (map (to_report b) (workers (to_worker w x t))) = saved b t" for b
  proof -
    have "sum_list (map (to_report b) (workers (to_worker w x t))) + to_report b (workers s ! w)
        = sum_list (map (to_report b) (workers s)) + to_report b x" using worker_moved [OF w', of "to_report b" x] assms(3) by simp
    moreover have "reported b s + sum_list (map (to_report b) (workers s)) = saved b s" using s by (simp add: accounts_ok_def)
    ultimately show ?thesis using outcomes [of b] by linarith
  qed
  ultimately show ?thesis using assms(4) by (simp add: accounts_ok_def)
qed

lemma workerStep_accounts:
  assumes "workerStep C w err s = Some s'" and "w < length (workers s)" and "accounts_ok js s"
  shows "accounts_ok js s'"
proof -
  note moved = to_worker_accounts [OF assms(3,2)]
  have panic: "accounts_ok js (s\<lparr>panicked := True\<rparr>)" using assms(3) by (simp add: accounts_ok_def)
  show ?thesis
  proof (cases "workers s ! w")
    case Receiving
    then show ?thesis using assms(1)
      by (auto simp: workerStep_def beginJob_def reported_more split: list.splits if_splits intro!: moved)
  next
    case (Requesting j i cs)
    then show ?thesis using assms(1) panic
      by (auto simp: workerStep_def requestStep_def reported_more split: if_splits intro!: moved)
  next
    case (Collecting j i cs rs)
    then show ?thesis using assms(1)
      by (auto simp: workerStep_def collectStep_def reported_more split: if_splits option.splits intro!: moved)
  next
    case (Drawing j rs)
    then show ?thesis using assms(1) by (auto simp: workerStep_def reported_more intro!: moved)
  next
    case (Reporting k e)
    then show ?thesis using assms(1) panic
      by (auto simp: workerStep_def reported_more split: if_splits intro!: moved)
  qed (use assms(1) in \<open>simp add: workerStep_def\<close>)
qed

lemma rendererStep_accounts: "rendererStep C r img s = Some s' \<Longrightarrow> accounts_ok js s \<Longrightarrow> accounts_ok js s'"
  by (auto simp: rendererStep_def accounts_ok_def split: renderer.splits list.splits if_splits)

lemma step_accounts: "step C g e s = Some s' \<Longrightarrow> accounts_ok js s \<Longrightarrow> accounts_ok js s'"
  by (erule step_cases) (simp_all add: mainStep_accounts workerStep_accounts collectorStep_accounts rendererStep_accounts)

subsection \<open>Who answers a request\<close>

text \<open>A request whose channel is open is in the channel \<open>service\<close> or with one renderer; until the renderer
  has answered, there is no response.\<close>

fun at_fetch :: "nat \<Rightarrow> renderer \<Rightarrow> nat" where
  "at_fetch c (Fetching c') = (if c' = c then 1 else 0)"
| "at_fetch c _ = 0"

fun at_close :: "nat \<Rightarrow> renderer \<Rightarrow> nat" where
  "at_close c (Closing c') = (if c' = c then 1 else 0)"
| "at_close c _ = 0"

definition unanswered :: "nat \<Rightarrow> 'i pool \<Rightarrow> nat" where
  "unanswered c s = count_list (service s) c + sum_list (map (at_fetch c) (renderers s))"

definition to_close :: "nat \<Rightarrow> 'i pool \<Rightarrow> nat" where
  "to_close c s = sum_list (map (at_close c) (renderers s))"

definition open_request :: "nat \<Rightarrow> 'i pool \<Rightarrow> bool" where
  "open_request c s \<longleftrightarrow> c < length (requests s) \<and> \<not> responseClosed (requests s ! c)"

definition requests_ok :: "'i pool \<Rightarrow> bool" where
  "requests_ok s \<longleftrightarrow>
     (\<forall>c. unanswered c s + to_close c s = (if open_request c s then 1 else 0))
   \<and> (\<forall>c < length (requests s). 0 < unanswered c s \<longrightarrow> response (requests s ! c) = None)"

lemma requests_okI:
  assumes "\<And>c. unanswered c s + to_close c s = (if open_request c s then 1 else 0)"
    and "\<And>c. c < length (requests s) \<Longrightarrow> 0 < unanswered c s \<Longrightarrow> response (requests s ! c) = None"
  shows "requests_ok s"
  using assms by (simp add: requests_ok_def)

lemma requests_okD:
  assumes "requests_ok s"
  shows "unanswered c s + to_close c s = (if open_request c s then 1 else 0)"
    and "c < length (requests s) \<Longrightarrow> 0 < unanswered c s \<Longrightarrow> response (requests s ! c) = None"
  using assms by (simp_all add: requests_ok_def)

lemma requests_same:
  assumes "requests_ok s" and "service t = service s" and "renderers t = renderers s" and "length (requests t) = length (requests s)"
    and "\<And>c. responseClosed (requests t ! c) = responseClosed (requests s ! c)"
    and "\<And>c. response (requests s ! c) = None \<Longrightarrow> response (requests t ! c) = None"
  shows "requests_ok t"
  using assms by (auto simp: requests_ok_def unanswered_def to_close_def open_request_def)

lemma start_requests: "requests_ok (startPool C js)"
proof -
  have "sum_list (map f (replicate n x)) = 0" if "f x = (0::nat)" for f n and x :: renderer
    using that by (induction n) simp_all
  then show ?thesis by (simp add: requests_ok_def unanswered_def to_close_def open_request_def startPool_def)
qed

lemma new_request:
  assumes "requests_ok s" and "response q = None" and "\<not> responseClosed q"
  shows "requests_ok (s\<lparr>requests := requests s @ [q], service := service s @ [length (requests s)]\<rparr>)" (is "requests_ok ?t")
proof (rule requests_okI)
  fix c
  have counts: "unanswered c ?t = unanswered c s + (if c = length (requests s) then 1 else 0)" "to_close c ?t = to_close c s"
    by (simp_all add: unanswered_def to_close_def)
  note here = requests_okD(1) [OF assms(1), of c]
  show "unanswered c ?t + to_close c ?t = (if open_request c ?t then 1 else 0)"
    using here assms(3) by (auto simp: counts open_request_def nth_append)
  assume "c < length (requests ?t)" and "0 < unanswered c ?t"
  then show "response (requests ?t ! c) = None"
    using requests_okD(2) [OF assms(1), of c] assms(2) by (auto simp: counts nth_append)
qed

lemma workerStep_requests:
  assumes "workerStep C w err s = Some s'" and "requests_ok s"
  shows "requests_ok s'"
proof -
  have panic: "requests_ok (s\<lparr>panicked := True\<rparr>)" by (rule requests_same [OF assms(2)]) simp_all
  have moved: "requests_ok (to_worker w x t)" if "requests_ok t" for x t
    by (rule requests_same [OF that]) simp_all
  show ?thesis
  proof (cases "workers s ! w")
    case Receiving
    then show ?thesis using assms
      by (auto simp: workerStep_def split: list.splits if_splits intro!: moved requests_same [OF assms(2)])
  next
    case (Requesting j i cs)
    then show ?thesis using assms panic
      by (auto simp: workerStep_def requestStep_def split: if_splits intro!: moved new_request)
  next
    case (Collecting j i cs rs)
    then show ?thesis using assms
      by (auto simp: workerStep_def collectStep_def nth_update_if split: if_splits option.splits
        intro!: moved requests_same [OF assms(2)])
  next
    case (Drawing j rs)
    then show ?thesis using assms by (auto simp: workerStep_def intro!: moved requests_same [OF assms(2)])
  next
    case (Reporting k e)
    then show ?thesis using assms panic
      by (auto simp: workerStep_def split: if_splits intro!: moved requests_same [OF assms(2)])
  qed (use assms(1) in \<open>simp add: workerStep_def\<close>)
qed

lemma renderer_counts:
  assumes "r < length (renderers t)"
  shows "unanswered c (to_renderer r x t) + at_fetch c (renderers t ! r) = unanswered c t + at_fetch c x"
    and "to_close c (to_renderer r x t) + at_close c (renderers t ! r) = to_close c t + at_close c x"
    and "open_request c (to_renderer r x t) = open_request c t"
  using renderer_moved [OF assms, of "at_fetch c" x] renderer_moved [OF assms, of "at_close c" x]
  by (simp_all add: unanswered_def to_close_def open_request_def)

lemma holder_counted:
  assumes "r < length (renderers s)"
  shows "at_fetch c (renderers s ! r) \<le> unanswered c s" and "at_close c (renderers s ! r) \<le> to_close c s"
  using member_le_sum_list [of "at_fetch c (renderers s ! r)" "map (at_fetch c) (renderers s)"]
    member_le_sum_list [of "at_close c (renderers s ! r)" "map (at_close c) (renderers s)"] assms
  by (auto simp: unanswered_def to_close_def intro: trans_le_add2)

text \<open>A renderer holds a request only while its channel is open.\<close>

lemma held_open:
  assumes "requests_ok s" and "r < length (renderers s)" and "renderers s ! r = Fetching c \<or> renderers s ! r = Closing c"
  shows "open_request c s" and "renderers s ! r = Fetching c \<Longrightarrow> response (requests s ! c) = None"
proof -
  have pos: "0 < unanswered c s + to_close c s" and fetch: "renderers s ! r = Fetching c \<Longrightarrow> 0 < unanswered c s"
    using holder_counted [OF assms(2), of c] assms(3) by auto
  then show "open_request c s" using requests_okD(1) [OF assms(1), of c] by (auto split: if_splits)
  then show "renderers s ! r = Fetching c \<Longrightarrow> response (requests s ! c) = None"
    using requests_okD(2) [OF assms(1), of c] fetch by (simp add: open_request_def)
qed

lemma taken_requests:
  assumes "requests_ok s" and "r < length (renderers s)" and "renderers s ! r = Idle" and "service s = c # cs"
  shows "requests_ok (to_renderer r (Fetching c) (s\<lparr>service := cs\<rparr>))" (is "requests_ok (to_renderer r _ ?t)")
proof (rule requests_okI)
  fix d
  have "unanswered d ?t + (if d = c then 1 else 0) = unanswered d s" "to_close d ?t = to_close d s" "open_request d ?t = open_request d s"
    using assms(4) by (simp_all add: unanswered_def to_close_def open_request_def)
  with renderer_counts [of r ?t d "Fetching c"] assms(2,3)
  have same: "unanswered d (to_renderer r (Fetching c) ?t) = unanswered d s" "to_close d (to_renderer r (Fetching c) ?t) = to_close d s"
    "open_request d (to_renderer r (Fetching c) ?t) = open_request d s"
    by (auto split: if_splits)
  show "unanswered d (to_renderer r (Fetching c) ?t) + to_close d (to_renderer r (Fetching c) ?t)
      = (if open_request d (to_renderer r (Fetching c) ?t) then 1 else 0)"
    using requests_okD(1) [OF assms(1), of d] by (simp add: same)
  show "d < length (requests (to_renderer r (Fetching c) ?t)) \<Longrightarrow> 0 < unanswered d (to_renderer r (Fetching c) ?t) \<Longrightarrow>
      response (requests (to_renderer r (Fetching c) ?t) ! d) = None"
    using requests_okD(2) [OF assms(1), of d] by (simp add: same)
qed

lemma answered_requests:
  assumes "requests_ok s" and "r < length (renderers s)" and "renderers s ! r = Fetching c"
    and "renderers t = renderers s" and "service t = service s" and "length (requests t) = length (requests s)"
    and "\<And>d. responseClosed (requests t ! d) = responseClosed (requests s ! d)"
    and "\<And>d. d \<noteq> c \<Longrightarrow> response (requests t ! d) = response (requests s ! d)"
  shows "requests_ok (to_renderer r (Closing c) t)"
proof (rule requests_okI)
  fix d
  have t: "unanswered d t = unanswered d s" "to_close d t = to_close d s" "open_request d t = open_request d s"
    using assms(4-7) by (simp_all add: unanswered_def to_close_def open_request_def)
  have counts: "unanswered d (to_renderer r (Closing c) t) + (if d = c then 1 else 0) = unanswered d s"
    "to_close d (to_renderer r (Closing c) t) = to_close d s + (if d = c then 1 else 0)"
    "open_request d (to_renderer r (Closing c) t) = open_request d s"
    using renderer_counts [of r t d "Closing c"] assms(2-4) t by auto
  show "unanswered d (to_renderer r (Closing c) t) + to_close d (to_renderer r (Closing c) t)
      = (if open_request d (to_renderer r (Closing c) t) then 1 else 0)"
    using counts requests_okD(1) [OF assms(1), of d] by simp
  assume d: "d < length (requests (to_renderer r (Closing c) t))" and pos: "0 < unanswered d (to_renderer r (Closing c) t)"
  then have "d \<noteq> c" using counts(1) requests_okD(1) [OF assms(1), of d] by (auto split: if_splits)
  then show "response (requests (to_renderer r (Closing c) t) ! d) = None"
    using requests_okD(2) [OF assms(1), of d] d pos counts(1) assms(6,8) by simp
qed

lemma closed_requests:
  assumes "requests_ok s" and "r < length (renderers s)" and "renderers s ! r = Closing c"
  shows "requests_ok (to_renderer r Idle (s\<lparr>requests := (requests s)[c := (requests s ! c)\<lparr>responseClosed := True\<rparr>]\<rparr>))"
    (is "requests_ok (to_renderer r _ ?t)")
proof (rule requests_okI)
  fix d
  have c: "open_request c s" using held_open(1) [OF assms(1,2)] assms(3) by simp
  have t: "unanswered d ?t = unanswered d s" "to_close d ?t = to_close d s" "open_request d ?t \<longleftrightarrow> open_request d s \<and> d \<noteq> c"
    using c by (auto simp: unanswered_def to_close_def open_request_def nth_update_if)
  have counts: "unanswered d (to_renderer r Idle ?t) = unanswered d s"
    "to_close d (to_renderer r Idle ?t) + (if d = c then 1 else 0) = to_close d s"
    "open_request d (to_renderer r Idle ?t) \<longleftrightarrow> open_request d s \<and> d \<noteq> c"
    using renderer_counts [of r ?t d Idle] assms(2,3) t by auto
  show "unanswered d (to_renderer r Idle ?t) + to_close d (to_renderer r Idle ?t)
      = (if open_request d (to_renderer r Idle ?t) then 1 else 0)"
    using counts c requests_okD(1) [OF assms(1), of d] by (auto split: if_splits)
  show "d < length (requests (to_renderer r Idle ?t)) \<Longrightarrow> 0 < unanswered d (to_renderer r Idle ?t) \<Longrightarrow>
      response (requests (to_renderer r Idle ?t) ! d) = None"
    using requests_okD(2) [OF assms(1), of d] by (simp add: counts nth_update_if)
qed

lemma rendererStep_requests:
  assumes "rendererStep C r img s = Some s'" and "r < length (renderers s)" and "requests_ok s"
  shows "requests_ok s'"
proof (cases "renderers s ! r")
  case Idle
  have "requests_ok (to_renderer r Ended s)"
    using renderer_counts [OF assms(2), of _ Ended] assms(3) Idle by (auto simp: requests_ok_def)
  then show ?thesis using assms Idle taken_requests [OF assms(3,2) Idle]
    by (auto simp: rendererStep_def split: list.splits if_splits)
next
  case (Fetching c)
  then have "open_request c s" "response (requests s ! c) = None" using held_open [OF assms(3,2)] by auto
  then show ?thesis using assms(1) Fetching
    by (auto simp: rendererStep_def open_request_def nth_update_if split: if_splits intro!: answered_requests [OF assms(3,2) Fetching])
next
  case (Closing c)
  then have "open_request c s" using held_open(1) [OF assms(3,2)] by blast
  then show ?thesis using assms(1) Closing closed_requests [OF assms(3,2) Closing]
    by (simp add: rendererStep_def open_request_def)
qed (use assms(1) in \<open>simp add: rendererStep_def\<close>)

lemma step_requests:
  assumes "step C g e s = Some s'" and "requests_ok s"
  shows "requests_ok s'"
  using assms(1)
proof (cases rule: step_cases)
  case main
  then show ?thesis
    by (auto simp: mainStep_def split: mainStage.splits list.splits if_splits intro!: requests_same [OF assms(2)])
next
  case collector
  then show ?thesis
    by (auto simp: collectorStep_def split: list.splits if_splits intro!: requests_same [OF assms(2)])
qed (use workerStep_requests rendererStep_requests assms(2) in blast)+

end
