(* ===== verification/Dataset_Grid_Properties.thy ===== *)
theory Dataset_Grid_Properties
  imports Dataset_Grid
begin

section \<open>A dataset comes back as its episodes, and every episode is shown\<close>

text \<open>
  The columns of a batch of rows are stated once (\<open>batch_of\<close>); reading them gives the rows back. The
  loop over the batches is a fold over the rows, which is compared with the grouping of adjacent rows
  by the start of their episode (\<open>runs\<close>). The jobs of the grids are one block per grid; the frames
  that a block shows in a cell are those of the episode at that cell.
\<close>

subsection \<open>Columns of rows\<close>

definition offset :: "('r \<Rightarrow> 'v list) \<Rightarrow> 'r list \<Rightarrow> nat \<Rightarrow> nat" where
  "offset f rows i = length (concat (map f (take i rows)))"

definition list_column :: "('r \<Rightarrow> 'v list) \<Rightarrow> 'r list \<Rightarrow> (nat \<times> nat) option list" where
  "list_column f rows = map (\<lambda>i. Some (offset f rows i, offset f rows (Suc i))) [0..<length rows]"

definition batch_of :: "Frame list \<Rightarrow> Batch" where
  "batch_of rows =
    \<lparr>NumRows = length rows, episodeStartArr = map EpisodeStartNS rows, idArr = map GlobalFrameID rows,
     timestampArr = map TimestampNsSinceEpisodeStart rows,
     jointsArr = list_column Joints rows, jointValues = concat (map Joints rows),
     imagesArr = list_column Images rows, jpegArr = concat (map (map JPEG \<circ> Images) rows),
     taskArr = map Task rows\<rparr>"

lemma list_at_nth [simp]: "i < length xs \<Longrightarrow> list_at xs (int i) = Inr (xs ! i)"
  by (simp add: list_at_def)

lemma values_between_map:
  "(\<And>j. j \<in> set js \<Longrightarrow> f j = Inr (g j)) \<Longrightarrow> values_between f js = Inr (map g js)"
  by (induction js) auto

text \<open>The values between the offsets of a row are those of the row.\<close>

lemma offset_slice:
  assumes "i < length rows"
  shows "map ((!) (concat (map f rows))) [offset f rows i..<offset f rows (Suc i)] = f (rows ! i)"
    and "j < offset f rows (Suc i) \<Longrightarrow> j < length (concat (map f rows))"
proof -
  let ?a = "concat (map f (take i rows))" and ?c = "concat (map f (drop (Suc i) rows))"
  have split: "concat (map f rows) = ?a @ f (rows ! i) @ ?c"
    by (subst id_take_nth_drop [OF assms]) simp
  have until: "offset f rows (Suc i) = length ?a + length (f (rows ! i))"
    using assms by (simp add: offset_def take_Suc_conv_app_nth)
  show "map ((!) (concat (map f rows))) [offset f rows i..<offset f rows (Suc i)] = f (rows ! i)"
    unfolding until split by (rule nth_equalityI) (simp_all add: offset_def nth_append)
  show "j < length (concat (map f rows))" if "j < offset f rows (Suc i)"
    using that unfolding until split by simp
qed

lemma listColumn_list_column:
  assumes "i < length rows"
    and "\<And>j. j < length (concat (map f rows)) \<Longrightarrow> at j = Inr (concat (map f rows) ! j)"
  shows "listColumn (list_column f rows) at i = Inr (f (rows ! i))"
proof -
  let ?js = "[offset f rows i..<offset f rows (Suc i)]"
  have "values_between at ?js = Inr (map ((!) (concat (map f rows))) ?js)"
    by (rule values_between_map) (use assms offset_slice(2) [OF assms(1)] in auto)
  also have "\<dots> = Inr (f (rows ! i))" by (simp only: offset_slice(1) [OF assms(1)])
  finally show ?thesis using assms(1) by (simp add: listColumn_def list_column_def)
qed

lemma concat_JPEG: "concat (map (map JPEG \<circ> Images) rows) = map JPEG (concat (map Images rows))"
  by (induction rows) simp_all

lemma imageAt_batch_of:
  "j < length (concat (map Images rows)) \<Longrightarrow> imageAt (batch_of rows) j = Inr (concat (map Images rows) ! j)"
  by (simp add: imageAt_def batch_of_def concat_JPEG del: map_concat)

lemma jointAt_batch_of:
  "j < length (concat (map Joints rows)) \<Longrightarrow> jointAt (batch_of rows) j = Inr (concat (map Joints rows) ! j)"
  by (simp add: jointAt_def batch_of_def)

lemma extractFrame_batch_of:
  assumes "i < length rows"
  shows "extractFrameFromBatch i (batch_of rows) = Inr (rows ! i)"
proof -
  have "listColumn (jointsArr (batch_of rows)) (jointAt (batch_of rows)) i = Inr (Joints (rows ! i))"
    using listColumn_list_column [OF assms jointAt_batch_of] by (simp add: batch_of_def)
  moreover have "listColumn (imagesArr (batch_of rows)) (imageAt (batch_of rows)) i = Inr (Images (rows ! i))"
    using listColumn_list_column [OF assms imageAt_batch_of] by (simp add: batch_of_def)
  ultimately show ?thesis using assms by (simp add: extractFrameFromBatch_def batch_of_def)
qed

subsection \<open>Rows of an episode\<close>

text \<open>What a row does to the episodes collected before it.\<close>

definition collect_frame :: "Frame \<Rightarrow> collected \<Rightarrow> collected" where
  "collect_frame f s =
     (let (episodes, cur) = s;
          new = (case cur of None \<Rightarrow> True | Some e \<Rightarrow> EpisodeStartNS f \<noteq> startNS e);
          episodes = (if new then saveCurrent s else episodes);
          current = (if new then \<lparr>frames = Some [], startNS = EpisodeStartNS f, episodeNum = length episodes + 1\<rparr>
                     else the cur)
      in (episodes, Some (if length (Images f) \<noteq> 2 then current\<lparr>frames := None\<rparr>
          else current\<lparr>frames := map_option (\<lambda>fs. fs @ [f]) (frames current)\<rparr>)))"

lemma collectRow_batch_of:
  assumes "i < length rows"
  shows "collectRow (batch_of rows) i s = Inr (collect_frame (rows ! i) s)"
proof -
  have "list_at (episodeStartArr (batch_of rows)) (int i) = Inr (EpisodeStartNS (rows ! i))"
    using assms by (simp add: batch_of_def)
  then show ?thesis
    by (cases s; cases "snd s")
       (auto simp: collectRow_def extractFrame_batch_of [OF assms] collect_frame_def Let_def split: option.splits)
qed

lemma foldE_pure: "(\<And>x s. x \<in> set xs \<Longrightarrow> f x s = Inr (g x s)) \<Longrightarrow> foldE f xs s = Inr (fold g xs s)"
  by (induction xs arbitrary: s) auto

lemma collectBatches_batch_of:
  "collectBatches (map batch_of fss) s = Inr (fold collect_frame (concat fss) s)"
proof (induction fss arbitrary: s)
  case (Cons rows fss)
  have "foldE (collectRow (batch_of rows)) [0..<length rows] s
      = Inr (fold (\<lambda>i. collect_frame (rows ! i)) [0..<length rows] s)"
    by (rule foldE_pure) (simp add: collectRow_batch_of)
  also have "fold (\<lambda>i. collect_frame (rows ! i)) [0..<length rows] s = fold collect_frame (map ((!) rows) [0..<length rows]) s"
    by (simp only: fold_map o_def)
  finally have "foldE (collectRow (batch_of rows)) [0..<NumRows (batch_of rows)] s = Inr (fold collect_frame rows s)"
    by (simp add: map_nth batch_of_def)
  then show ?case by (simp add: Cons)
qed simp

text \<open>Adjacent rows with the same start.\<close>

function runs :: "Frame list \<Rightarrow> Frame list list" where
  "runs [] = []"
| "runs (f # fs) =
     (f # takeWhile (\<lambda>g. EpisodeStartNS g = EpisodeStartNS f) fs) # runs (dropWhile (\<lambda>g. EpisodeStartNS g = EpisodeStartNS f) fs)"
  by pat_completeness auto
termination by (relation "measure length") (auto simp: less_Suc_eq_le length_dropWhile_le)

text \<open>A run is kept when all its frames have two images, and numbered by its place.\<close>

definition complete_run :: "Frame list \<Rightarrow> bool" where
  "complete_run fs \<longleftrightarrow> (\<forall>f \<in> set fs. length (Images f) = 2)"

definition episode_of :: "nat \<Rightarrow> Frame list \<Rightarrow> Episode" where
  "episode_of n fs = \<lparr>frames = Some fs, startNS = EpisodeStartNS (hd fs), episodeNum = n\<rparr>"

fun numbered :: "nat \<Rightarrow> Frame list list \<Rightarrow> Episode list" where
  "numbered n [] = []"
| "numbered n (fs # fss) = episode_of (Suc n) fs # numbered (Suc n) fss"

text \<open>The rows of one run change only the current episode.\<close>

lemma fold_collect_same:
  assumes "\<forall>f \<in> set fs. EpisodeStartNS f = startNS e"
  shows "fold collect_frame fs (eps, Some e)
       = (eps, Some (e\<lparr>frames := if complete_run fs then map_option (\<lambda>gs. gs @ fs) (frames e) else None\<rparr>))"
  using assms
proof (induction fs arbitrary: e)
  case Nil
  then show ?case by (cases e; cases "frames e") (simp_all add: complete_run_def)
next
  case (Cons f fs)
  let ?e = "if length (Images f) \<noteq> 2 then e\<lparr>frames := None\<rparr> else e\<lparr>frames := map_option (\<lambda>gs. gs @ [f]) (frames e)\<rparr>"
  have "collect_frame f (eps, Some e) = (eps, Some ?e)" using Cons.prems by (simp add: collect_frame_def)
  moreover have "\<forall>f \<in> set fs. EpisodeStartNS f = startNS ?e" using Cons.prems by simp
  ultimately show ?case using Cons.IH [of ?e]
    by (cases "frames e") (simp_all add: complete_run_def)
qed

lemma fold_collect_run:
  assumes "\<forall>g \<in> set fs. EpisodeStartNS g = EpisodeStartNS f"
    and "case snd s of None \<Rightarrow> True | Some e \<Rightarrow> EpisodeStartNS f \<noteq> startNS e"
  shows "fold collect_frame (f # fs) s = (saveCurrent s, Some \<lparr>frames = if complete_run (f # fs) then Some (f # fs) else None,
     startNS = EpisodeStartNS f, episodeNum = Suc (length (saveCurrent s))\<rparr>)"
proof -
  let ?e = "\<lparr>frames = if length (Images f) = 2 then Some [f] else None, startNS = EpisodeStartNS f,
     episodeNum = Suc (length (saveCurrent s))\<rparr>"
  have "collect_frame f s = (saveCurrent s, Some ?e)"
    using assms(2) by (cases s) (simp add: collect_frame_def Let_def)
  then show ?thesis using fold_collect_same [of fs ?e "saveCurrent s"] assms(1) by (simp add: complete_run_def)
qed

lemma saveCurrent_run:
  "saveCurrent (eps, Some \<lparr>frames = if complete_run (f # fs) then Some (f # fs) else None,
      startNS = EpisodeStartNS f, episodeNum = Suc (length eps)\<rparr>)
   = eps @ numbered (length eps) (filter complete_run [f # fs])"
  by (simp add: saveCurrent_def frame_list_def episode_of_def)

lemma numbered_append: "numbered n (xs @ ys) = numbered n xs @ numbered (n + length xs) ys"
  by (induction xs arbitrary: n) simp_all

lemma length_numbered [simp]: "length (numbered n xs) = length xs"
  by (induction xs arbitrary: n) simp_all

lemma collect_runs:
  assumes "fs \<noteq> [] \<longrightarrow> (case snd s of None \<Rightarrow> True | Some e \<Rightarrow> EpisodeStartNS (hd fs) \<noteq> startNS e)"
  shows "saveCurrent (fold collect_frame fs s)
       = saveCurrent s @ numbered (length (saveCurrent s)) (filter complete_run (runs fs))"
  using assms
proof (induction fs arbitrary: s rule: runs.induct)
  case (2 f fs)
  let ?P = "\<lambda>g. EpisodeStartNS g = EpisodeStartNS f"
  let ?run = "f # takeWhile ?P fs" and ?rest = "dropWhile ?P fs"
  let ?t = "fold collect_frame ?run s"
  have t: "?t = (saveCurrent s, Some \<lparr>frames = if complete_run ?run then Some ?run else None,
       startNS = EpisodeStartNS f, episodeNum = Suc (length (saveCurrent s))\<rparr>)"
  proof (rule fold_collect_run)
    show "\<forall>g \<in> set (takeWhile ?P fs). ?P g" using set_takeWhileD [of _ ?P fs] by blast
    show "case snd s of None \<Rightarrow> True | Some e \<Rightarrow> EpisodeStartNS f \<noteq> startNS e" by (cases "snd s") (use 2(2) in auto)
  qed
  have saved: "saveCurrent ?t = saveCurrent s @ numbered (length (saveCurrent s)) (filter complete_run [?run])"
    unfolding t by (rule saveCurrent_run)
  have "?rest \<noteq> [] \<longrightarrow> (case snd ?t of None \<Rightarrow> True | Some e \<Rightarrow> EpisodeStartNS (hd ?rest) \<noteq> startNS e)"
    unfolding t using hd_dropWhile [of ?P fs] by simp
  from 2(1) [OF this] have "saveCurrent (fold collect_frame ?rest ?t)
      = saveCurrent ?t @ numbered (length (saveCurrent ?t)) (filter complete_run (runs ?rest))" .
  moreover have "fold collect_frame (f # fs) s = fold collect_frame ?rest ?t"
    by (subst takeWhile_dropWhile_id [of ?P fs, symmetric]) (simp only: append_Cons [symmetric] fold_append o_def)
  ultimately have "saveCurrent (fold collect_frame (f # fs) s)
      = saveCurrent ?t @ numbered (length (saveCurrent ?t)) (filter complete_run (runs ?rest))" by (simp only:)
  also have "\<dots> = saveCurrent s @ numbered (length (saveCurrent s)) (filter complete_run ([?run] @ runs ?rest))"
    by (simp only: saved filter_append numbered_append length_append length_numbered append_assoc)
  finally show ?case by simp
qed simp

lemma collectEpisodes_result:
  "collectEpisodes (map batch_of fss) = Inr (numbered 0 (filter complete_run (runs (concat fss))))"
  using collect_runs [of "concat fss" "([], None)"]
  by (simp add: collectEpisodes_def collectBatches_batch_of) (simp add: saveCurrent_def)

subsection \<open>The jobs of the grids\<close>

lemma minInts_1 [simp]: "minInts m [n] = min m n"
  by (simp add: min_def)

definition grid_episodes :: "nat \<Rightarrow> Episode list \<Rightarrow> nat \<Rightarrow> Episode list" where
  "grid_episodes n eps g = drop (g * n) (take (min (g * n + n) (length eps)) eps)"

lemma addGrid_alt: "addGrid n eps g jobs = jobs @ gridJobs n (grid_episodes n eps g) (length jobs)"
  by (simp add: addGrid_def grid_episodes_def Let_def)

lemma grid_episodes_nth:
  "i < length (grid_episodes n eps g) \<longleftrightarrow> i < n \<and> g * n + i < length eps"
  "i < length (grid_episodes n eps g) \<Longrightarrow> grid_episodes n eps g ! i = eps ! (g * n + i)"
proof -
  show lt: "i < length (grid_episodes n eps g) \<longleftrightarrow> i < n \<and> g * n + i < length eps"
    by (auto simp: grid_episodes_def)
  show "i < length (grid_episodes n eps g) \<Longrightarrow> grid_episodes n eps g ! i = eps ! (g * n + i)"
    unfolding lt unfolding grid_episodes_def by (subst nth_drop) (auto intro: nth_take)
qed

lemma map_frameIndex_gridJobs: "map frameIndex (gridJobs n ges k) = [k..<k + maxFrames ges]"
  by (rule nth_equalityI) (simp_all add: gridJobs_def)

lemma length_gridJobs: "length (gridJobs n ges k) = maxFrames ges"
  by (simp add: gridJobs_def)

lemma map_frameIndex_grids:
  "map frameIndex jobs = [0..<length jobs] \<Longrightarrow>
   map frameIndex (fold (addGrid n eps) gs jobs) = [0..<length (fold (addGrid n eps) gs jobs)]"
proof (induction gs arbitrary: jobs)
  case (Cons g gs)
  have "map frameIndex (addGrid n eps g jobs) = [0..<length (addGrid n eps g jobs)]"
    by (simp add: addGrid_alt Cons.prems map_frameIndex_gridJobs length_gridJobs upt_add_eq_append [of 0])
  then show ?case using Cons.IH by simp
qed simp

text \<open>The frames that the jobs of one grid show in a cell under a number.\<close>

definition shown :: "nat \<Rightarrow> nat \<Rightarrow> renderJob list \<Rightarrow> Frame list" where
  "shown i num jobs = map (\<lambda>j. gridFrames j ! i) (filter (\<lambda>j. episodeNums j ! i = num) jobs)"

lemma shown_append [simp]: "shown i num (xs @ ys) = shown i num xs @ shown i num ys"
  by (simp add: shown_def)

lemma shown_gridJobs:
  assumes "i < n"
  shows "shown i num (gridJobs n ges k)
       = map (\<lambda>t. fst (cell ges t i)) (filter (\<lambda>t. snd (cell ges t i) = num) [0..<maxFrames ges])"
  using assms by (simp add: shown_def gridJobs_def filter_map o_def)

lemma maxFrames_fold_ge:
  "m \<le> foldl (\<lambda>m e. if length (frame_list e) > m then length (frame_list e) else m) m eps
   \<and> (e \<in> set eps \<longrightarrow> length (frame_list e) \<le> foldl (\<lambda>m e. if length (frame_list e) > m then length (frame_list e) else m) m eps)"
proof (induction eps arbitrary: m)
  case (Cons a eps)
  show ?case using Cons.IH [of "if length (frame_list a) > m then length (frame_list a) else m"] by auto
qed simp

lemma maxFrames_ge: "e \<in> set eps \<Longrightarrow> length (frame_list e) \<le> maxFrames eps"
  using maxFrames_fold_ge [of 0 eps e] by (simp add: maxFrames_def)

lemma shown_episode:
  assumes "i < n" and "i < length ges" and "episodeNum (ges ! i) = num" and "num \<noteq> 0"
  shows "shown i num (gridJobs n ges k) = frame_list (ges ! i)"
proof -
  let ?fs = "frame_list (ges ! i)"
  have le: "length ?fs \<le> maxFrames ges" using assms(2) by (simp add: maxFrames_ge)
  have "filter (\<lambda>t. snd (cell ges t i) = num) [0..<maxFrames ges] = filter (\<lambda>t. t < length ?fs) [0..<maxFrames ges]"
    by (rule filter_cong) (use assms in \<open>simp_all add: cell_def\<close>)
  also have "\<dots> = filter (\<lambda>t. t < length ?fs) ([0..<length ?fs] @ [length ?fs..<maxFrames ges])"
    using upt_add_eq_append [of 0 "length ?fs" "maxFrames ges - length ?fs"] le by simp
  also have "\<dots> = [0..<length ?fs]" by simp
  finally have "shown i num (gridJobs n ges k) = map (\<lambda>t. fst (cell ges t i)) [0..<length ?fs]"
    by (simp only: shown_gridJobs [OF assms(1)])
  also have "\<dots> = map ((!) ?fs) [0..<length ?fs]" using assms(2) by (simp add: cell_def)
  finally show ?thesis by (simp add: map_nth)
qed

lemma shown_other:
  assumes "i < n" and "i < length ges \<Longrightarrow> episodeNum (ges ! i) \<noteq> num" and "num \<noteq> 0"
  shows "shown i num (gridJobs n ges k) = []"
  using assms by (auto simp: shown_gridJobs filter_empty_conv cell_def)

text \<open>Over all grids, an episode is shown by the grid it belongs to.\<close>

lemma shown_grids:
  assumes numbered: "\<And>j. j < length eps \<Longrightarrow> episodeNum (eps ! j) = Suc j"
    and e: "e < length eps" and n: "0 < n"
  shows "distinct gs \<Longrightarrow> shown (e mod n) (Suc e) (fold (addGrid n eps) gs jobs)
     = shown (e mod n) (Suc e) jobs @ (if e div n \<in> set gs then frame_list (eps ! e) else [])"
proof (induction gs arbitrary: jobs)
  case (Cons g gs)
  let ?ges = "grid_episodes n eps g"
  have i: "e mod n < n" using n by simp
  have "shown (e mod n) (Suc e) (gridJobs n ?ges (length jobs)) = (if g = e div n then frame_list (eps ! e) else [])"
  proof (cases "g = e div n")
    case True
    then have at: "g * n + e mod n = e" by simp
    then have lt: "e mod n < length ?ges" using e i by (simp add: grid_episodes_nth)
    then have "?ges ! (e mod n) = eps ! e" using grid_episodes_nth(2) [OF lt] at by simp
    then show ?thesis using shown_episode [OF i lt] numbered [OF e] True by simp
  next
    case False
    have "(g * n + e mod n) div n = g" using i by simp
    then have "g * n + e mod n \<noteq> e" using False by metis
    then have "e mod n < length ?ges \<Longrightarrow> episodeNum (?ges ! (e mod n)) \<noteq> Suc e"
      by (simp add: grid_episodes_nth numbered)
    then show ?thesis using shown_other [OF i] False by simp
  qed
  then show ?case using Cons by (auto simp: addGrid_alt)
qed simp

lemma renderJobs_result:
  assumes "0 < cols * rows" and "map episodeNum eps = [1..<Suc (length eps)]"
  obtains jobs where "renderJobs cols rows eps = Inr jobs" and "map frameIndex jobs = [0..<length jobs]"
    and "\<And>e. e < length eps \<Longrightarrow> shown (e mod (cols * rows)) (Suc e) jobs = frame_list (eps ! e)"
proof
  let ?n = "cols * rows" and ?gs = "[0..<(length eps + cols * rows - 1) div (cols * rows)]"
  show "renderJobs cols rows eps = Inr (fold (addGrid ?n eps) ?gs [])"
    using assms(1) by (simp add: renderJobs_def numGrids_def Let_def)
  show "map frameIndex (fold (addGrid ?n eps) ?gs []) = [0..<length (fold (addGrid ?n eps) ?gs [])]"
    by (rule map_frameIndex_grids) simp
  have num: "episodeNum (eps ! j) = Suc j" if "j < length eps" for j
    using that arg_cong [OF assms(2), of "\<lambda>xs. xs ! j"] by (simp del: upt_Suc)
  show "shown (e mod ?n) (Suc e) (fold (addGrid ?n eps) ?gs []) = frame_list (eps ! e)" if "e < length eps" for e
  proof -
    have "Suc (e div ?n) = (e + ?n) div ?n" by (subst div_add_self2) (use assms(1) in simp_all)
    also have "\<dots> \<le> (length eps + ?n - 1) div ?n" by (rule div_le_mono) (use that in simp)
    finally have "e div ?n < (length eps + ?n - 1) div ?n" by simp
    then show ?thesis using shown_grids [OF num that assms(1), of ?gs "[]"] by (simp add: shown_def)
  qed
qed

subsection \<open>The cells\<close>

text \<open>Every cell and its border lie inside the canvas, and two cells are apart in a column or in a row.\<close>

lemma slot_step: "a < b \<Longrightarrow> a * (w + s) + w + s \<le> b * (w + (s::nat))"
  using mult_le_mono1 [of "Suc a" b "w + s"] by (simp add: add.assoc)

lemma cell_in_canvas:
  assumes "i < cols * rows"
  shows "fst (cellOffset cols i) + singleWidth + borderWidth \<le> canvasWidth cols"
    and "snd (cellOffset cols i) + singleHeight + borderWidth \<le> canvasHeight rows"
proof -
  have "i mod cols < cols" "i div cols < rows"
    using assms by (auto simp: less_mult_imp_div_less mult.commute intro!: mod_less_divisor gr0I)
  from this [THEN slot_step, of singleWidth borderWidth] this [THEN slot_step, of singleHeight borderWidth]
  show "fst (cellOffset cols i) + singleWidth + borderWidth \<le> canvasWidth cols"
    and "snd (cellOffset cols i) + singleHeight + borderWidth \<le> canvasHeight rows"
    by (simp_all add: cellOffset_def canvasWidth_def canvasHeight_def algebra_simps)
qed

lemma cells_apart:
  assumes "i \<noteq> j" and "cellOffset cols i = (x, y)" and "cellOffset cols j = (x', y')"
  shows "x + singleWidth \<le> x' \<or> x' + singleWidth \<le> x \<or> y + singleHeight \<le> y' \<or> y' + singleHeight \<le> y"
proof -
  have "i mod cols \<noteq> j mod cols \<or> i div cols \<noteq> j div cols" using assms(1) by (metis div_mult_mod_eq)
  then consider "i mod cols < j mod cols" | "j mod cols < i mod cols" | "i div cols < j div cols" | "j div cols < i div cols"
    by linarith
  then show ?thesis
  proof cases
    case 1 then show ?thesis using assms(2,3) slot_step [OF 1, of singleWidth borderWidth] by (auto simp: cellOffset_def)
  next
    case 2 then show ?thesis using assms(2,3) slot_step [OF 2, of singleWidth borderWidth] by (auto simp: cellOffset_def)
  next
    case 3 then show ?thesis using assms(2,3) slot_step [OF 3, of singleHeight borderWidth] by (auto simp: cellOffset_def)
  next
    case 4 then show ?thesis using assms(2,3) slot_step [OF 4, of singleHeight borderWidth] by (auto simp: cellOffset_def)
  qed
qed

subsection \<open>The properties\<close>

text \<open>Rows of one episode each, with neighbours that start at different times.\<close>

definition one_episode :: "Frame list \<Rightarrow> bool" where
  "one_episode fs \<longleftrightarrow> fs \<noteq> [] \<and> list_all (\<lambda>f. EpisodeStartNS f = EpisodeStartNS (hd fs)) fs"

definition episodes_of_rows :: "Frame list list \<Rightarrow> bool" where
  "episodes_of_rows eps \<longleftrightarrow> list_all one_episode eps \<and> distinct_adj (map (\<lambda>fs. EpisodeStartNS (hd fs)) eps)"

lemma runs_append:
  assumes "one_episode fs" and "gs \<noteq> [] \<longrightarrow> EpisodeStartNS (hd gs) \<noteq> EpisodeStartNS (hd fs)"
  shows "runs (fs @ gs) = fs # runs gs"
proof (cases fs)
  case (Cons f fs')
  let ?P = "\<lambda>g. EpisodeStartNS g = EpisodeStartNS f"
  have "\<forall>g \<in> set fs'. ?P g" using assms(1) Cons by (simp add: one_episode_def list_all_iff)
  then have "takeWhile ?P (fs' @ gs) = fs' @ takeWhile ?P gs" and "dropWhile ?P (fs' @ gs) = dropWhile ?P gs"
    by simp_all
  moreover have "takeWhile ?P gs = [] \<and> dropWhile ?P gs = gs" using assms(2) Cons by (cases gs) auto
  ultimately show ?thesis using Cons by simp
qed (use assms(1) in \<open>simp add: one_episode_def\<close>)

lemma episodes_of_rows_Cons:
  "episodes_of_rows (fs # eps) \<longleftrightarrow> one_episode fs \<and> episodes_of_rows eps
     \<and> (eps \<noteq> [] \<longrightarrow> EpisodeStartNS (hd (hd eps)) \<noteq> EpisodeStartNS (hd fs))"
  by (cases eps) (auto simp: episodes_of_rows_def distinct_adj_Cons)

lemma hd_concat_rows: "episodes_of_rows eps \<Longrightarrow> eps \<noteq> [] \<Longrightarrow> hd (concat eps) = hd (hd eps)"
  by (cases eps) (simp_all add: episodes_of_rows_def one_episode_def)

lemma runs_concat: "episodes_of_rows eps \<Longrightarrow> runs (concat eps) = eps"
proof (induction eps)
  case (Cons fs eps)
  then have fs: "one_episode fs" and eps: "episodes_of_rows eps"
    and apart: "eps \<noteq> [] \<longrightarrow> EpisodeStartNS (hd (hd eps)) \<noteq> EpisodeStartNS (hd fs)"
    by (simp_all add: episodes_of_rows_Cons)
  have "runs (fs @ concat eps) = fs # runs (concat eps)"
    by (rule runs_append [OF fs]) (cases "eps = []"; use apart in \<open>simp add: hd_concat_rows [OF eps]\<close>)
  then show ?case using Cons.IH [OF eps] by simp
qed simp

lemma numbered_nums: "map episodeNum (numbered n fss) = [Suc n..<Suc n + length fss]"
  by (induction fss arbitrary: n) (simp_all add: episode_of_def upt_rec del: upt_Suc)

lemma numbered_nth: "e < length fss \<Longrightarrow> frame_list (numbered n fss ! e) = fss ! e"
  by (induction fss arbitrary: n e) (auto simp: nth_Cons frame_list_def episode_of_def split: nat.splits)

definition demo_row :: "nat \<Rightarrow> nat \<Rightarrow> Frame" where
  "demo_row start k = \<lparr>EpisodeStartNS = of_nat start, GlobalFrameID = [], TimestampNsSinceEpisodeStart = of_nat k,
     Joints = [\<lparr>RangeMin = 0, RangeMax = 4095, Position = of_nat k, PositionNorm = 0, Goal = 7, GoalNorm = 0,
       CurrentMA = 1, Velocity = 2\<rparr>], Images = [\<lparr>JPEG = [1]\<rparr>, \<lparr>JPEG = [2, of_nat k]\<rparr>], Task = ''pick''\<rparr>"

text \<open>C25: reading a dataset in batches of any sizes never panics and gives the runs of adjacent rows with
  the same episode start, without the runs that have a row with other than two images, numbered
  from one in the order of the rows.\<close>

theorem collectEpisodes_runs:
  "collectEpisodes (map batch_of batches) = Inr (numbered 0 (filter complete_run (runs (concat batches))))"
  by (rule collectEpisodes_result)

text \<open>C14: a dataset that holds complete episodes, with neighbours that start at different times, is shown
  whole: the jobs of the grids are numbered without holes, in the order of the video, and the jobs that show
  the number of an episode in its cell show exactly its frames, each once and in order.\<close>

theorem video_shows_episodes:
  assumes "0 < cols * rows" and "episodes_of_rows eps" and "list_all complete_run eps"
    and "concat batches = concat eps"
  shows "\<exists>episodes jobs. collectEpisodes (map batch_of batches) = Inr episodes \<and> renderJobs cols rows episodes = Inr jobs
    \<and> map frameIndex jobs = [0..<length jobs]
    \<and> map (\<lambda>e. shown (e mod (cols * rows)) (Suc e) jobs) [0..<length eps] = eps"
proof -
  let ?eps = "numbered 0 eps"
  have "filter complete_run eps = eps" using assms(3) by (simp add: list_all_iff)
  then have read: "collectEpisodes (map batch_of batches) = Inr ?eps"
    by (simp add: collectEpisodes_result assms(4) runs_concat [OF assms(2)])
  have "map episodeNum ?eps = [1..<Suc (length ?eps)]" using numbered_nums [of 0 eps] by simp
  then obtain jobs where jobs: "renderJobs cols rows ?eps = Inr jobs" "map frameIndex jobs = [0..<length jobs]"
    "\<And>e. e < length ?eps \<Longrightarrow> shown (e mod (cols * rows)) (Suc e) jobs = frame_list (?eps ! e)"
    using renderJobs_result [OF assms(1)] by blast
  have "map (\<lambda>e. shown (e mod (cols * rows)) (Suc e) jobs) [0..<length eps] = eps"
    by (rule nth_equalityI) (simp_all add: jobs(3) numbered_nth)
  then show ?thesis using read jobs(1,2) by blast
qed

text \<open>Three episodes in a grid of one row and two columns, read in two batches.\<close>

lemma video_shows_episodes_witness:
  "\<exists>episodes jobs. collectEpisodes (map batch_of [[demo_row 5 0, demo_row 5 1, demo_row 9 0], [demo_row 5 7]]) = Inr episodes
     \<and> renderJobs 2 1 episodes = Inr jobs \<and> map frameIndex jobs = [0..<length jobs]
     \<and> map (\<lambda>e. shown (e mod (2 * 1)) (Suc e) jobs) [0..<length [[demo_row 5 0, demo_row 5 1], [demo_row 9 0], [demo_row 5 7]]]
       = [[demo_row 5 0, demo_row 5 1], [demo_row 9 0], [demo_row 5 7]]"
  by (rule video_shows_episodes) (simp_all add: episodes_of_rows_def one_episode_def complete_run_def demo_row_def distinct_adj_def)

end
