(* ===== verification/Render_Pool_Results.thy ===== *)
theory Render_Pool_Results
  imports Render_Pool_Properties Dataset_Grid_Properties
begin

section \<open>What the pool has drawn when it ends\<close>

text \<open>
  The images drawn, the absence of panics and of deadlocks, and the properties of the pool: every
  schedule ends, in a state in which each job was drawn once and counted.
\<close>

subsection \<open>The image of a cell\<close>

text \<open>The channels and the renders of a job belong to the joints of its cells; with rendering enabled
  there is an entry for every cell.\<close>

definition chans_right :: "'i render3DRequest list \<Rightarrow> renderJob \<Rightarrow> nat option list \<Rightarrow> bool" where
  "chans_right qs j cs \<longleftrightarrow> (\<forall>k c. k < length cs \<longrightarrow> cs ! k = Some c \<longrightarrow>
     c < length qs \<and> k < length (gridFrames j) \<and> reqJoints (qs ! c) = Joints (gridFrames j ! k))"

definition images_right :: "'i conf \<Rightarrow> renderJob \<Rightarrow> 'i option list \<Rightarrow> bool" where
  "images_right C j rs \<longleftrightarrow> (renderState C \<longrightarrow> length rs = gridSize C) \<and> (\<forall>k im. k < length rs \<longrightarrow> rs ! k = Some im \<longrightarrow>
     k < length (gridFrames j) \<and> answers C (Joints (gridFrames j ! k)) im)"

fun worker_ok :: "'i conf \<Rightarrow> 'i render3DRequest list \<Rightarrow> 'i worker \<Rightarrow> bool" where
  "worker_ok C qs (Requesting j i cs) = (length cs = gridSize C \<and> chans_right qs j cs)"
| "worker_ok C qs (Collecting j i cs rs) =
     (length cs = gridSize C \<and> length rs = gridSize C \<and> chans_right qs j cs \<and> images_right C j rs)"
| "worker_ok C qs (Drawing j rs) = images_right C j rs"
| "worker_ok C qs _ = True"

definition images_ok :: "'i conf \<Rightarrow> 'i pool \<Rightarrow> bool" where
  "images_ok C s \<longleftrightarrow> list_all (worker_ok C (requests s)) (workers s)
     \<and> list_all (\<lambda>q. \<forall>im. response q = Some im \<longrightarrow> answers C (reqJoints q) im) (requests s)
     \<and> list_all (\<lambda>(j, rs, e). images_right C j rs) (drawn s)"

text \<open>Requests are only added, and keep their joints.\<close>

definition extends :: "'i render3DRequest list \<Rightarrow> 'i render3DRequest list \<Rightarrow> bool" where
  "extends qs qs' \<longleftrightarrow> length qs \<le> length qs' \<and> (\<forall>c < length qs. reqJoints (qs' ! c) = reqJoints (qs ! c))"

lemma worker_ok_extends: "extends qs qs' \<Longrightarrow> worker_ok C qs x \<Longrightarrow> worker_ok C qs' x"
  by (cases x) (auto simp: chans_right_def extends_def)

lemma pool_extends_refl [simp]: "extends qs qs" "extends qs (qs @ [q])"
  by (simp_all add: extends_def nth_append)

lemma extends_update: "reqJoints q = reqJoints (qs ! c) \<Longrightarrow> extends qs (qs[c := q])"
  by (simp add: extends_def nth_update_if)

lemma to_worker_images:
  assumes "images_ok C s" and "extends (requests s) (requests t)" and "workers t = workers s"
    and "worker_ok C (requests t) x"
    and "list_all (\<lambda>q. \<forall>im. response q = Some im \<longrightarrow> answers C (reqJoints q) im) (requests t)"
    and "list_all (\<lambda>(j, rs, e). images_right C j rs) (drawn t)"
  shows "images_ok C (to_worker w x t)"
proof -
  have "list_all (worker_ok C (requests t)) (workers s)"
    using assms(1) worker_ok_extends [OF assms(2)] by (auto simp: images_ok_def list_all_iff)
  then have "list_all (worker_ok C (requests t)) ((workers s)[w := x])" using assms(4) by (intro list_all_update) simp_all
  then show ?thesis using assms by (simp add: images_ok_def) (simp add: to_worker_def)
qed

lemma chans_right_update:
  "chans_right qs j cs \<Longrightarrow> extends qs qs' \<Longrightarrow> c < length qs' \<Longrightarrow> k < length (gridFrames j) \<Longrightarrow>
    reqJoints (qs' ! c) = Joints (gridFrames j ! k) \<Longrightarrow> chans_right qs' j (cs[k := Some c])"
  by (auto simp: chans_right_def extends_def nth_update_if split: if_splits)

lemma images_right_update:
  "images_right C j rs \<Longrightarrow> k < length (gridFrames j) \<Longrightarrow> answers C (Joints (gridFrames j ! k)) im \<Longrightarrow>
    images_right C j (rs[k := Some im])"
  by (auto simp: images_right_def nth_update_if split: if_splits)

lemma workerStep_images:
  assumes step: "workerStep C w err s = Some s'" and w: "w < length (workers s)" and s: "images_ok C s"
  shows "images_ok C s'"
proof -
  note moved = to_worker_images [OF s]
  have old: "worker_ok C (requests s) (workers s ! w)"
    and qs: "list_all (\<lambda>q. \<forall>im. response q = Some im \<longrightarrow> answers C (reqJoints q) im) (requests s)"
    and ds: "list_all (\<lambda>(j, rs, e). images_right C j rs) (drawn s)"
    using s w by (auto simp: images_ok_def list_all_length)
  have panic: "images_ok C (s\<lparr>panicked := True\<rparr>)" using s by (simp add: images_ok_def)
  show ?thesis
  proof (cases "workers s ! w")
    case Receiving
    then show ?thesis using step qs ds
      by (auto simp: workerStep_def beginJob_def chans_right_def images_right_def split: list.splits if_splits intro!: moved)
  next
    case (Requesting j i cs)
    then have cs: "length cs = gridSize C" "chans_right (requests s) j cs" using old by simp_all
    let ?q = "\<lparr>reqJoints = Joints (gridFrames j ! i), response = None, responseClosed = False\<rparr>"
    have "i < length (gridFrames j) \<Longrightarrow> chans_right (requests s @ [?q]) j (cs[i := Some (length (requests s))])"
      using chans_right_update [OF cs(2), of "requests s @ [?q]" "length (requests s)" i] by simp
    then show ?thesis using step Requesting panic qs ds cs
      by (auto simp: workerStep_def requestStep_def images_right_def split: if_splits intro!: moved)
  next
    case (Collecting j i cs rs)
    then have job: "length cs = gridSize C" "length rs = gridSize C" "chans_right (requests s) j cs" "images_right C j rs"
      using old by simp_all
    show ?thesis
    proof (cases "\<exists>c im. i < gridSize C \<and> i < length (gridFrames j) \<and> cs ! i = Some c \<and> response (requests s ! c) = Some im")
      case True
      then obtain c im where c: "i < gridSize C" "i < length (gridFrames j)" "cs ! i = Some c" "response (requests s ! c) = Some im"
        by blast
      let ?t = "s\<lparr>requests := (requests s)[c := (requests s ! c)\<lparr>response := None\<rparr>]\<rparr>"
      have q: "c < length (requests s)" "reqJoints (requests s ! c) = Joints (gridFrames j ! i)"
        using job(1,3) c by (auto simp: chans_right_def)
      then have "answers C (Joints (gridFrames j ! i)) im" using qs c(4) by (force simp: list_all_length)
      then have "images_right C j (rs[i := Some im])" using images_right_update [OF job(4) c(2)] by blast
      moreover have e: "extends (requests s) (requests ?t)" by (simp add: extends_update)
      moreover have "chans_right (requests ?t) j cs" using worker_ok_extends [OF e, of C "Collecting j i cs rs"] job by simp
      moreover have "list_all (\<lambda>q. \<forall>im. response q = Some im \<longrightarrow> answers C (reqJoints q) im) (requests ?t)"
        using qs by (auto intro!: list_all_update)
      ultimately have "images_ok C (to_worker w (Collecting j (i + 1) cs (rs[i := Some im])) ?t)"
        using job ds by (intro moved) simp_all
      then show ?thesis using step Collecting c by (simp add: workerStep_def collectStep_def)
    next
      case False
      then show ?thesis using step Collecting job qs ds
        by (auto simp: workerStep_def collectStep_def split: if_splits option.splits intro!: moved)
    qed
  next
    case (Drawing j rs)
    then show ?thesis using step qs ds old by (auto simp: workerStep_def intro!: moved)
  next
    case (Reporting k e)
    then show ?thesis using step panic qs ds by (auto simp: workerStep_def split: if_splits intro!: moved)
  qed (use step in \<open>simp add: workerStep_def\<close>)
qed

lemma to_renderer_images: "images_ok C t \<Longrightarrow> images_ok C (to_renderer r x t)"
  by (simp add: images_ok_def)

lemma response_images:
  assumes "images_ok C s" and "reqJoints q = reqJoints (requests s ! c)"
    and "\<And>im. response q = Some im \<Longrightarrow> answers C (reqJoints q) im"
  shows "images_ok C (s\<lparr>requests := (requests s)[c := q]\<rparr>)"
  using assms worker_ok_extends [OF extends_update [OF assms(2)]]
  by (auto simp: images_ok_def list_all_iff dest!: in_set_update)

lemma rendererStep_images:
  assumes "rendererStep C r img s = Some s'" and "r < length (renderers s)" and s: "images_ok C s" and "requests_ok s"
    and fetched: "\<And>c. renderers s ! r = Fetching c \<Longrightarrow> fetch3DRender C (reqJoints (requests s ! c)) img"
  shows "images_ok C s'"
proof (cases "renderers s ! r")
  case Idle
  then show ?thesis using assms(1) s
    by (auto simp: rendererStep_def images_ok_def split: list.splits if_splits)
next
  case (Fetching c)
  have "images_ok C (s\<lparr>panicked := True\<rparr>)" using s by (simp add: images_ok_def)
  then show ?thesis using assms(1) Fetching fetched [OF Fetching] s
    by (auto simp: rendererStep_def fetch3DRender_def split: if_splits intro!: to_renderer_images response_images)
next
  case (Closing c)
  have "images_ok C (s\<lparr>panicked := True\<rparr>)" using s by (simp add: images_ok_def)
  moreover have "open_request c s" using held_open(1) [OF assms(4,2)] Closing by blast
  then have "response (requests s ! c) = Some im \<Longrightarrow> answers C (reqJoints (requests s ! c)) im" for im
    using s by (auto simp: images_ok_def list_all_length open_request_def)
  ultimately show ?thesis using assms(1) Closing s
    by (auto simp: rendererStep_def split: if_splits intro!: to_renderer_images response_images)
qed (use assms(1) in \<open>simp add: rendererStep_def\<close>)

lemma step_images:
  assumes "step C g e s = Some s'" and "images_ok C s" and "requests_ok s"
  shows "images_ok C s'"
  using assms(1)
proof (cases rule: step_cases)
  case main
  then show ?thesis using assms(2)
    by (auto simp: mainStep_def images_ok_def split: mainStage.splits list.splits if_splits)
next
  case collector
  then show ?thesis using assms(2) by (auto simp: collectorStep_def images_ok_def split: list.splits if_splits)
qed (use workerStep_images rendererStep_images assms(2,3) in blast)+

subsection \<open>No panic, no deadlock\<close>

definition pool_ok :: "'i conf \<Rightarrow> renderJob list \<Rightarrow> 'i pool \<Rightarrow> bool" where
  "pool_ok C js s \<longleftrightarrow> \<not> panicked s \<and> stages_ok C s \<and> accounts_ok js s \<and> requests_ok s \<and> images_ok C s"

text \<open>While a worker has not stopped, no channel it sends to is closed.\<close>

lemma working_open:
  assumes "stages_ok C s" and "w < length (workers s)" and "workers s ! w \<noteq> Stopped"
  shows "\<not> resultsClosed s \<and> \<not> serviceClosed s \<and> \<not> collectorDone s"
proof -
  have "\<not> list_all (\<lambda>w. w = Stopped) (workers s)" using assms(2,3) by (auto simp: list_all_length)
  then show ?thesis using assms(1) by (auto simp: stages_ok_def)
qed

lemma step_no_panic:
  assumes "step C g e s = Some s'" and "pool_ok C js s"
  shows "\<not> panicked s'"
  using assms(1)
proof (cases rule: step_cases)
  case main
  have "stage s = SendJobs \<Longrightarrow> \<not> jobsClosed s" using assms(2) by (auto simp: pool_ok_def stages_ok_def)
  then show ?thesis using main by (auto simp: mainStep_def split: mainStage.splits list.splits if_splits)
next
  case (worker w)
  then have "workers s ! w \<noteq> Stopped" by (auto simp: workerStep_def)
  then have "\<not> resultsClosed s \<and> \<not> serviceClosed s" using working_open worker(3) assms(2) by (auto simp: pool_ok_def)
  then show ?thesis using worker(2,4)
    by (auto simp: workerStep_def requestStep_def collectStep_def split: worker.splits list.splits if_splits option.splits)
next
  case collector
  then show ?thesis by (auto simp: collectorStep_def split: list.splits if_splits)
next
  case (renderer r)
  have "requests_ok s" using assms(2) by (simp add: pool_ok_def)
  note open_ = held_open(1) [OF this renderer(3)]
  have "renderers s ! r = Fetching c \<or> renderers s ! r = Closing c \<Longrightarrow> \<not> responseClosed (requests s ! c)" for c
    using open_ [of c] by (simp add: open_request_def)
  then show ?thesis using renderer(2,4) by (auto simp: rendererStep_def split: renderer.splits list.splits if_splits)
qed

lemma start_ok: "pool_ok C js (startPool C js)"
proof -
  have "\<not> panicked (startPool C js)" by (simp add: startPool_def)
  moreover have "images_ok C (startPool C js)" by (auto simp: images_ok_def startPool_def list_all_iff)
  ultimately show ?thesis
    using start_stages [of C js] start_accounts [of js C] start_requests [of C js] by (simp add: pool_ok_def)
qed

lemma step_ok: "step C g e s = Some s' \<Longrightarrow> pool_ok C js s \<Longrightarrow> pool_ok C js s'"
  using step_no_panic [of C g e s s' js] step_stages step_accounts step_requests step_images
  by (auto simp: pool_ok_def)

lemma reached_ok: "reached C js s \<Longrightarrow> pool_ok C js s"
  by (induction rule: reached.induct) (simp_all add: start_ok step_ok)

lemma run_reached: "reached C js s \<Longrightarrow> run_pool C xs s = Some s' \<Longrightarrow> reached C js s'"
  by (induction xs arbitrary: s) (auto split: option.splits intro: reached.intros)

text \<open>Some goroutine can make its next step, whatever the environment does.\<close>

definition enabled :: "'i conf \<Rightarrow> goroutine \<Rightarrow> 'i pool \<Rightarrow> bool" where
  "enabled C g s \<longleftrightarrow> (\<exists>e. possible C g e s) \<and> (\<forall>e. possible C g e s \<longrightarrow> step C g e s \<noteq> None)"

definition can_step :: "'i conf \<Rightarrow> 'i pool \<Rightarrow> bool" where
  "can_step C s \<longleftrightarrow> (\<exists>g. enabled C g s)"

lemma enabledI:
  fixes C :: "'i conf"
  assumes "\<not> panicked s" and "possible C g \<lparr>saveError = False, answer = None\<rparr> s"
    and "\<And>e :: 'i happens. (case g of Main \<Rightarrow> mainStep C s | Worker w \<Rightarrow> workerStep C w (saveError e) s | Collector \<Rightarrow> collectorStep s
      | Renderer r \<Rightarrow> rendererStep C r (answer e) s) \<noteq> None"
  shows "can_step C s"
proof -
  have "\<exists>e. possible C g e s" using assms(2) by blast
  moreover have "step C g e s \<noteq> None" if "possible C g e s" for e using assms(1) assms(3) [of e] that by (simp add: step_def)
  ultimately show ?thesis by (auto simp: can_step_def enabled_def)
qed

lemma renderer_can_step:
  assumes "pool_ok C js s" and "r < length (renderers s)" and "renderers s ! r \<noteq> Ended"
    and "renderers s ! r = Idle \<Longrightarrow> service s \<noteq> [] \<or> serviceClosed s"
  shows "can_step C s"
proof (rule enabledI [of _ _ "Renderer r"])
  have req: "requests_ok s" using assms(1) by (simp add: pool_ok_def)
  show "\<not> panicked s" using assms(1) by (simp add: pool_ok_def)
  show "possible C (Renderer r) \<lparr>saveError = False, answer = None\<rparr> s"
    using assms(2) by (auto simp: possible_def fetch3DRender_def split: renderer.split)
  have "rendererStep C r img s \<noteq> None" for img
    using assms(3,4) held_open(2) [OF req assms(2)]
    by (auto simp: rendererStep_def split: renderer.split list.split)
  then show "(case Renderer r of Main \<Rightarrow> mainStep C s | Worker w \<Rightarrow> workerStep C w (saveError e) s | Collector \<Rightarrow> collectorStep s
      | Renderer r \<Rightarrow> rendererStep C r (answer e) s) \<noteq> None" for e :: "'a happens" by simp
qed

lemma worker_can_step:
  assumes "pool_ok C js s" and "w < length (workers s)" and "\<And>err. workerStep C w err s \<noteq> None"
  shows "can_step C s"
  by (rule enabledI [of _ _ "Worker w"]) (use assms in \<open>auto simp: pool_ok_def possible_def\<close>)

lemma main_can_step: "pool_ok C js s \<Longrightarrow> mainStep C s \<noteq> None \<Longrightarrow> can_step C s"
  by (rule enabledI [of _ _ Main]) (auto simp: pool_ok_def possible_def)

lemma collector_can_step: "pool_ok C js s \<Longrightarrow> collectorStep s \<noteq> None \<Longrightarrow> can_step C s"
  by (rule enabledI [of _ _ Collector]) (auto simp: pool_ok_def possible_def)

text \<open>When no renderer can step, the requests are all answered.\<close>

lemma renderers_rest:
  assumes s: "pool_ok C js s" and "\<not> can_step C s"
  shows "service s = [] \<and> list_all (\<lambda>r. r = Idle \<or> r = Ended) (renderers s) \<and> (\<forall>c. \<not> open_request c s)"
proof -
  have st: "stages_ok C s" and req: "requests_ok s" using s by (simp_all add: pool_ok_def)
  have rest: "list_all (\<lambda>r. r = Idle \<or> r = Ended) (renderers s)"
    using renderer_can_step [OF s] assms(2) by (auto simp: list_all_length)
  have empty: "service s = []"
  proof (rule ccontr)
    assume "service s \<noteq> []"
    then have "length (renderers s) = totalWorkers" "Ended \<notin> set (renderers s)" using st by (auto simp: stages_ok_def split: if_splits)
    then have "0 < length (renderers s)" "renderers s ! 0 = Idle"
      using rest by (auto simp: list_all_length totalWorkers_def in_set_conv_nth)
    with renderer_can_step [OF s, of 0] \<open>service s \<noteq> []\<close> assms(2) show False by simp
  qed
  have "sum_list (map f (renderers s)) = 0" if "f Idle = (0::nat)" "f Ended = 0" for f
    using rest that by (induction "renderers s" rule: list.induct) (auto simp: list_all_iff sum_list_eq_0_iff)
  then have "unanswered c s + to_close c s = 0" for c by (simp add: unanswered_def to_close_def empty)
  then have "\<not> open_request c s" for c using requests_okD(1) [OF req, of c] by (auto split: if_splits)
  with empty rest show ?thesis by blast
qed

lemma workers_rest:
  assumes s: "pool_ok C js s" and stuck: "\<not> can_step C s"
  shows "results s = [] \<and> list_all (\<lambda>w. w = Receiving \<or> w = Stopped) (workers s)"
proof -
  note idle = renderers_rest [OF assms]
  have res: "results s = []"
    using collector_can_step [OF s] stuck by (cases "results s") (auto simp: collectorStep_def)
  have "workers s ! w = Receiving \<or> workers s ! w = Stopped" if w: "w < length (workers s)" for w
  proof (rule ccontr)
    assume busy: "\<not> (workers s ! w = Receiving \<or> workers s ! w = Stopped)"
    have n: "0 < numWorkers C" using s w by (auto simp: pool_ok_def stages_ok_def)
    have old: "worker_ok C (requests s) (workers s ! w)" using s w by (auto simp: pool_ok_def images_ok_def list_all_length)
    have "workerStep C w err s \<noteq> None" for err
    proof (cases "workers s ! w")
      case (Requesting j i cs)
      then show ?thesis using idle by (simp add: workerStep_def requestStep_def totalWorkers_def)
    next
      case (Collecting j i cs rs)
      then have "responseClosed (requests s ! c)" if "i < gridSize C" "cs ! i = Some c" for c
        using that old idle by (auto simp: chans_right_def open_request_def)
      then show ?thesis using Collecting by (auto simp: workerStep_def collectStep_def split: option.split)
    qed (use busy res n in \<open>simp_all add: workerStep_def\<close>)
    with worker_can_step [OF s w] stuck show False by blast
  qed
  with res show ?thesis by (simp add: list_all_length)
qed

lemma stuck_finished:
  assumes s: "pool_ok C js s" and stuck: "\<not> can_step C s" and n: "0 < numWorkers C"
  shows "stage s = Finished"
proof -
  have st: "stages_ok C s" using s by (simp add: pool_ok_def)
  have len: "length (workers s) = numWorkers C" using st by (simp add: stages_ok_def)
  note idle = renderers_rest [OF s stuck] and rest = workers_rest [OF s stuck]
  have waiting: "jobs s = [] \<and> \<not> jobsClosed s" if "w < length (workers s)" "workers s ! w = Receiving" for w
  proof (rule ccontr)
    assume "\<not> (jobs s = [] \<and> \<not> jobsClosed s)"
    then have "workerStep C w err s \<noteq> None" for err using that(2) by (cases "jobs s") (simp_all add: workerStep_def)
    with worker_can_step [OF s that(1)] stuck show False by blast
  qed
  have empty: "jobs s = []"
  proof (cases "Stopped \<in> set (workers s)")
    case True
    then show ?thesis using st by (simp add: stages_ok_def)
  next
    case False
    then have "workers s ! 0 = Receiving" using rest n len by (auto simp: list_all_length in_set_conv_nth)
    then show ?thesis using waiting [of 0] n len by simp
  qed
  have stopped: "list_all (\<lambda>w. w = Stopped) (workers s)" if "jobsClosed s"
    using waiting rest that by (auto simp: list_all_length)
  have main: "mainStep C s = None" using main_can_step [OF s] stuck by blast
  show ?thesis
  proof (cases "stage s")
    case SendJobs
    then show ?thesis using main empty n by (auto simp: mainStep_def split: list.splits if_splits)
  next
    case WaitWorkers
    then have "jobsClosed s" using st by (auto simp: stages_ok_def)
    then show ?thesis using main WaitWorkers stopped by (simp add: mainStep_def)
  next
    case WaitCollector
    then have "resultsClosed s" using st by (auto simp: stages_ok_def)
    have "collectorStep s = None" using collector_can_step [OF s] stuck by blast
    then have "collectorDone s" using \<open>resultsClosed s\<close> rest by (simp add: collectorStep_def split: if_splits)
    then show ?thesis using main WaitCollector by (simp add: mainStep_def)
  next
    case WaitRenderers
    then have "serviceClosed s" using st by (auto simp: stages_ok_def)
    then have "list_all (\<lambda>r. r = Ended) (renderers s)"
      using renderer_can_step [OF s] stuck idle by (auto simp: list_all_length)
    then show ?thesis using main WaitRenderers by (simp add: mainStep_def)
  qed
qed

lemma finished_counts:
  assumes s: "pool_ok C js s" and "stage s = Finished" and n: "0 < numWorkers C"
  shows "mset (map fst (drawn s)) = mset js \<and> renderErrors s = saved True s \<and> renderedCount s = saved False s"
proof -
  have st: "stages_ok C s" and acc: "accounts_ok js s" using s by (simp_all add: pool_ok_def)
  then have all: "todo s = []" "results s = []" "list_all (\<lambda>w. w = Stopped) (workers s)" "length (workers s) = numWorkers C"
    using assms(2) by (auto simp: stages_ok_def)
  then have "Stopped \<in> set (workers s)" using n by (cases "workers s") auto
  then have jobs: "jobs s = []" using st by (simp add: stages_ok_def)
  have zero: "sum_list (map f (workers s)) = 0" if "f Stopped = 0" for f :: "'a worker \<Rightarrow> 'b::comm_monoid_add"
  proof -
    have "map f (workers s) = map (\<lambda>w. 0) (workers s)" using all(3) that by (auto simp: list_all_iff)
    then show ?thesis by (simp only: sum_list_0)
  qed
  have "sum_list (map held (workers s)) = 0" "sum_list (map (to_report b) (workers s)) = 0" for b by (simp_all add: zero)
  then have "mset (map fst (drawn s)) = mset js" "reported b s = saved b s" for b
    using acc all(1) jobs by (simp_all add: accounts_ok_def del: sum_list_eq_0_iff)
  moreover have "reported True s = renderErrors s" "reported False s = renderedCount s" by (simp_all add: reported_def all(2))
  ultimately show ?thesis by metis
qed

subsection \<open>The properties\<close>

text \<open>The longest run for a number of jobs.\<close>

definition run_bound :: "'i conf \<Rightarrow> nat \<Rightarrow> nat" where
  "run_bound C n = (5 * gridSize C + 8) * n + numWorkers C + (if renderState C then totalWorkers else 0) + 6"

lemma start_weight: "pool_weight C (startPool C js) = run_bound C (length js)"
  by (simp add: pool_weight_def startPool_def run_bound_def sum_list_replicate)

text \<open>C11: under every schedule of \<open>main\<close>, the workers, the collector and the renderers, whatever the render
  service answers and whichever pictures fail to be saved, the program does not panic, is never in a deadlock,
  and ends after a bounded number of steps.\<close>

theorem render_pool_finishes:
  assumes "0 < numWorkers C" and "run_pool C xs (startPool C js) = Some s"
  shows "length xs \<le> run_bound C (length js) \<and> \<not> panicked s \<and> (stage s = Finished \<or> can_step C s)"
proof -
  have "pool_ok C js s" using run_reached [OF reached.start assms(2)] by (rule reached_ok)
  then show ?thesis using stuck_finished assms(1) run_weight [OF assms(2)] start_weight [of C js]
    by (auto simp: pool_ok_def)
qed

text \<open>A job of one cell, and schedules: with the render service up to the drawing, and without it to the end.\<close>

definition demo_joint :: Joint where
  "demo_joint = \<lparr>RangeMin = 0, RangeMax = 4095, Position = 1, PositionNorm = 0, Goal = 7, GoalNorm = 0, CurrentMA = 1, Velocity = 2\<rparr>"

definition demo_job :: renderJob where
  "demo_job = \<lparr>gridFrames = [\<lparr>EpisodeStartNS = 5, GlobalFrameID = [], TimestampNsSinceEpisodeStart = 0,
     Joints = replicate 8 demo_joint, Images = [\<lparr>JPEG = [1]\<rparr>, \<lparr>JPEG = [2]\<rparr>], Task = []\<rparr>], episodeNums = [1], frameIndex = 0\<rparr>"

definition demo_conf :: "bool \<Rightarrow> nat conf" where
  "demo_conf render = \<lparr>gridSize = 1, numWorkers = 1, renderState = render, answers = (\<lambda>joints img. img = length joints)\<rparr>"

definition quiet :: "goroutine \<Rightarrow> goroutine \<times> nat happens" where
  "quiet g = (g, \<lparr>saveError = False, answer = Some 8\<rparr>)"

definition demo_render :: "(goroutine \<times> nat happens) list" where
  "demo_render = map quiet [Main, Worker 0, Worker 0, Renderer 3, Renderer 3, Worker 0, Worker 0, Renderer 3, Worker 0, Worker 0]"

definition demo_plain :: "(goroutine \<times> nat happens) list" where
  "demo_plain = map quiet [Main, Worker 0, Worker 0, Main, Worker 0, Worker 0, Main, Collector, Collector, Main]"

definition demo_state :: "bool \<Rightarrow> (goroutine \<times> nat happens) list \<Rightarrow> nat pool" where
  "demo_state render xs = the (run_pool (demo_conf render) xs (startPool (demo_conf render) [demo_job]))"

lemma demo_render_runs: "run_pool (demo_conf True) demo_render (startPool (demo_conf True) [demo_job]) = Some (demo_state True demo_render)"
proof -
  have "case run_pool (demo_conf True) demo_render (startPool (demo_conf True) [demo_job]) of None \<Rightarrow> False | Some s \<Rightarrow> True"
    by code_simp
  then show ?thesis by (auto simp: demo_state_def split: option.splits)
qed

lemma demo_plain_runs: "run_pool (demo_conf False) demo_plain (startPool (demo_conf False) [demo_job]) = Some (demo_state False demo_plain)"
proof -
  have "case run_pool (demo_conf False) demo_plain (startPool (demo_conf False) [demo_job]) of None \<Rightarrow> False | Some s \<Rightarrow> True"
    by code_simp
  then show ?thesis by (auto simp: demo_state_def split: option.splits)
qed

lemma render_pool_finishes_witness:
  "length demo_render \<le> run_bound (demo_conf True) (length [demo_job]) \<and> \<not> panicked (demo_state True demo_render)
    \<and> (stage (demo_state True demo_render) = Finished \<or> can_step (demo_conf True) (demo_state True demo_render))"
  by (rule render_pool_finishes [OF _ demo_render_runs]) (simp add: demo_conf_def)

text \<open>C10: when the pool has finished, under whatever schedule, every job was drawn exactly once, each failed
  picture was counted as an error and each other one as rendered, and every 3D view in a picture is
  one that the service gave for the joints of the frame in that cell.\<close>

theorem render_pool_draws_all:
  assumes "0 < numWorkers C" and "reached C js s" and "stage s = Finished"
  shows "mset (map fst (drawn s)) = mset js \<and> renderErrors s = saved True s \<and> renderedCount s = saved False s
    \<and> list_all (\<lambda>(j, rs, e). images_right C j rs) (drawn s)"
proof -
  have "pool_ok C js s" by (rule reached_ok [OF assms(2)])
  then show ?thesis using finished_counts [OF _ assms(3,1), of js] by (simp add: pool_ok_def images_ok_def)
qed

lemma render_pool_draws_all_witness:
  "mset (map fst (drawn (demo_state False demo_plain))) = mset [demo_job]
    \<and> renderErrors (demo_state False demo_plain) = saved True (demo_state False demo_plain)
    \<and> renderedCount (demo_state False demo_plain) = saved False (demo_state False demo_plain)
    \<and> list_all (\<lambda>(j, rs, e). images_right (demo_conf False) j rs) (drawn (demo_state False demo_plain))"
proof (rule render_pool_draws_all)
  show "0 < numWorkers (demo_conf False)" by (simp add: demo_conf_def)
  show "reached (demo_conf False) [demo_job] (demo_state False demo_plain)"
    by (rule run_reached [OF reached.start demo_plain_runs])
  show "stage (demo_state False demo_plain) = Finished" unfolding demo_state_def by code_simp
qed

end
