(* ===== verification/Dataset_Pictures.thy ===== *)
theory Dataset_Pictures
  imports Dataset_Draw Render_Pool_Results
begin

section \<open>The pictures of a video\<close>

text \<open>
  What is drawn stays in its cell, shows the images and the 3D view of the frame of the cell, and
  every picture of a run of the pool has a file of its own.
\<close>

subsection \<open>File names\<close>

text \<open>The number a string of digits stands for.\<close>

definition undec :: "string \<Rightarrow> nat" where
  "undec s = foldl (\<lambda>v c. v * 10 + (of_char c - 48)) 0 s"

lemma digit_value: "d < 10 \<Longrightarrow> of_char (digit d) - 48 = d"
  by (simp add: digit_def)

lemma undec_dec: "undec (dec n) = n"
proof (induction n rule: dec.induct)
  case (1 n)
  then show ?case using digit_value [of n] digit_value [of "n mod 10"]
    by (subst dec.simps) (auto simp: undec_def)
qed

lemma undec_zeros: "undec (replicate k (CHR ''0'') @ s) = undec s"
proof -
  have "foldl (\<lambda>v c. v * 10 + (of_char c - 48)) 0 (replicate k (CHR ''0'')) = (0 :: nat)" by (induction k) simp_all
  then show ?thesis by (simp add: undec_def)
qed

lemma framePath_inject: "framePath d k = framePath d l \<Longrightarrow> k = l"
proof -
  assume "framePath d k = framePath d l"
  then have "replicate (6 - length (dec k)) (CHR ''0'') @ dec k = replicate (6 - length (dec l)) (CHR ''0'') @ dec l"
    by (simp add: framePath_def flip: append_assoc)
  then have "undec (dec k) = undec (dec l)" by (metis undec_zeros)
  then show ?thesis by (simp add: undec_dec)
qed

subsection \<open>A cell\<close>

text \<open>Pictures are 224 points wide and high; a text is placed by its left end and its base line.\<close>

fun inside :: "int \<Rightarrow> int \<Rightarrow> 'p command \<Rightarrow> bool" where
  "inside ox oy (DrawImage p x y) \<longleftrightarrow> ox \<le> x \<and> x + 224 \<le> ox + int singleWidth \<and> oy \<le> y \<and> y + 224 \<le> oy + int singleHeight"
| "inside ox oy (DrawString t x y) \<longleftrightarrow> ox \<le> x \<and> x \<le> ox + int singleWidth \<and> oy \<le> y \<and> y \<le> oy + int singleHeight"
| "inside ox oy (DrawRectangle x y w h) \<longleftrightarrow> ox \<le> x \<and> x \<le> ox + int singleWidth \<and> oy \<le> y \<and> y \<le> oy + int singleHeight"
| "inside ox oy (DrawLine x y x' y') \<longleftrightarrow> False"
| "inside ox oy c \<longleftrightarrow> True"

text \<open>The images of the frame side by side, and below the left one a 3D view of its joints.\<close>

fun shows_frame :: "'p conf \<Rightarrow> 'p library \<Rightarrow> Frame \<Rightarrow> int \<Rightarrow> int \<Rightarrow> 'p command \<Rightarrow> bool" where
  "shows_frame C L f ox oy (DrawImage p x y) \<longleftrightarrow>
     (\<exists>k < 2. decode L (JPEG (Images f ! k)) = Some p \<and> x = ox + int k * 224 \<and> y = oy)
     \<or> answers C (Joints f) p \<and> x = ox \<and> y = oy + 224"
| "shows_frame C L f ox oy c \<longleftrightarrow> True"

definition fits :: "'p conf \<Rightarrow> 'p library \<Rightarrow> Frame \<Rightarrow> int \<Rightarrow> int \<Rightarrow> 'p command \<Rightarrow> bool" where
  "fits C L f ox oy c \<longleftrightarrow> inside ox oy c \<and> shows_frame C L f ox oy c"

text \<open>The number of an episode is shorter than its cell; without 3D views there is room for sixteen joints.\<close>

definition text_fits :: "'p library \<Rightarrow> bool" where
  "text_fits L \<longleftrightarrow> (\<forall>n. 0 \<le> textWidth L (''Ep'' @ dec n) \<and> textWidth L (''Ep'' @ dec n) \<le> 437
     \<and> 0 \<le> textHeight L (''Ep'' @ dec n) \<and> textHeight L (''Ep'' @ dec n) \<le> 448)"

definition few_joints :: "'p conf \<Rightarrow> Frame \<Rightarrow> bool" where
  "few_joints C f \<longleftrightarrow> renderState C \<or> length (Joints f) \<le> 16"

lemmas cell_size = singleWidth_def singleHeight_def

lemma jointLines_fit:
  "ox \<le> x \<Longrightarrow> x \<le> ox + 448 \<Longrightarrow> oy \<le> y \<Longrightarrow> y + 27 * int (length js) \<le> oy + 462 \<Longrightarrow>
    list_all (fits C L f ox oy) (jointLines x y js)"
  by (induction x y js rule: jointLines.induct) (simp_all add: fits_def cell_size)

lemma drawImages_fit: "list_all (fits C L f ox oy) (drawImages L ox oy (Images f))"
proof -
  have two: "[0..<2] = [0, 1 :: nat]" by (simp add: upt_rec)
  show ?thesis
    by (auto simp: drawImages_def two fits_def cell_size split: option.splits intro: exI [of _ 0] exI [of _ 1])
qed

lemma drawEpisodeNumber_fit: "text_fits L \<Longrightarrow> list_all (fits C L f ox oy) (drawEpisodeNumber L ox oy nums i)"
proof -
  assume "text_fits L"
  then have "0 \<le> textWidth L (''Ep'' @ dec (nums ! i)) \<and> textWidth L (''Ep'' @ dec (nums ! i)) \<le> 437
    \<and> 0 \<le> textHeight L (''Ep'' @ dec (nums ! i)) \<and> textHeight L (''Ep'' @ dec (nums ! i)) \<le> 448"
    by (simp only: text_fits_def)
  then show ?thesis by (auto simp: drawEpisodeNumber_def fits_def cell_size Let_def)
qed

lemma drawLeft_fit:
  assumes "few_joints C f" "drawLeft L (renderState C) renders ox oy f i = Inr cs"
    and "\<And>im. i < length renders \<Longrightarrow> renders ! i = Some im \<Longrightarrow> answers C (Joints f) im"
  shows "list_all (fits C L f ox oy) cs"
proof (cases "renderState C")
  case True
  then show ?thesis using assms(2,3)
    by (auto simp: drawLeft_def list_at_def andThen_def fits_def cell_size split: if_splits option.splits)
next
  case False
  then have "length (take (numJointsLeft (Joints f)) (numbered_joints (Joints f))) \<le> 8"
    using assms(1) by (auto simp: few_joints_def numJointsLeft_def)
  then have "list_all (fits C L f ox oy) (jointLines (ox + 5) (oy + 224 + 15) (take (numJointsLeft (Joints f)) (numbered_joints (Joints f))))"
    by (intro jointLines_fit) simp_all
  then show ?thesis using False assms(2) by (auto simp: drawLeft_def fits_def split: if_splits)
qed

lemma motorLines_fit:
  "ox \<le> x \<Longrightarrow> x \<le> ox + 448 \<Longrightarrow> oy \<le> y \<Longrightarrow> y + 84 \<le> oy + 448 \<Longrightarrow> list_all (fits C L f ox oy) (motorLines x y js)"
proof -
  assume y: "ox \<le> x" "x \<le> ox + 448" "oy \<le> y" "y + 84 \<le> oy + 448"
  have "i < 8" if "(i, joint) \<in> set (take 8 (numbered_joints js))" for i joint
    using that by (auto simp: numbered_joints_def in_set_conv_nth)
  with y show ?thesis by (fastforce simp: motorLines_def list_all_iff fits_def cell_size)
qed

lemma drawText_fit:
  assumes "few_joints C f"
  shows "list_all (fits C L f ox oy) (drawText L (renderState C) ox oy f)"
proof (cases "renderState C")
  case True
  then show ?thesis using motorLines_fit [of ox "229 + ox" oy "282 + oy"] motorLines_fit [of ox "229 + ox" oy "267 + oy"]
    by (auto simp: drawText_def compactText_def Let_def fits_def cell_size)
next
  case False
  then have "length (drop (numJointsLeft (Joints f)) (numbered_joints (Joints f))) \<le> 8"
    using assms by (auto simp: few_joints_def numJointsLeft_def numbered_joints_def)
  then have "list_all (fits C L f ox oy) (jointLines (ox + 224 + 5) (oy + 224 + 15) (drop (numJointsLeft (Joints f)) (numbered_joints (Joints f))))"
    by (intro jointLines_fit) simp_all
  then show ?thesis using False by (auto simp: drawText_def Let_def fits_def)
qed

text \<open>What belongs to a cell, and a picture with everything that belongs on it.\<close>

definition in_cell :: "'p conf \<Rightarrow> 'p library \<Rightarrow> nat \<Rightarrow> renderJob \<Rightarrow> nat \<Rightarrow> 'p command \<Rightarrow> bool" where
  "in_cell C L cols job i c \<longleftrightarrow>
     (case cellOffset cols i of (x, y) \<Rightarrow> fits C L (gridFrames job ! i) (int x) (int y) c)"

definition images_drawn :: "'p library \<Rightarrow> nat \<Rightarrow> renderJob \<Rightarrow> 'p command list \<Rightarrow> nat \<Rightarrow> bool" where
  "images_drawn L cols job dc i \<longleftrightarrow> (length (Images (gridFrames job ! i)) = 2 \<longrightarrow>
     (case cellOffset cols i of (x, y) \<Rightarrow>
        list_all (\<lambda>c. c \<in> set dc) (drawImages L (int x) (int y) (Images (gridFrames job ! i)))))"

definition picture_right :: "'p conf \<Rightarrow> 'p library \<Rightarrow> nat \<Rightarrow> nat \<Rightarrow> renderJob \<Rightarrow> 'p command list \<Rightarrow> bool" where
  "picture_right C L cols rows job dc \<longleftrightarrow>
     list_all (\<lambda>c. c \<in> set (gridLines cols rows) \<or> list_ex (\<lambda>i. in_cell C L cols job i c) [0..<cols * rows]) dc
     \<and> list_all (images_drawn L cols job dc) [0..<cols * rows]"

lemma drawCell_ok:
  assumes "text_fits L" "few_joints C (gridFrames job ! i)" "images_right C job rs" "renderState C \<longrightarrow> i < gridSize C"
  shows "\<exists>cs. drawCell L (renderState C) rs cols job i = Inr cs \<and> list_all (in_cell C L cols job i) cs
    \<and> images_drawn L cols job cs i"
proof -
  obtain x y where xy: "cellOffset cols i = (x, y)" by force
  let ?f = "gridFrames job ! i"
  show ?thesis
  proof (cases "length (Images ?f) = 2")
    case True
    have "drawLeft L (renderState C) rs (int x) (int y) ?f i \<noteq> Inl e" for e
      using assms(3,4) by (auto simp: drawLeft_def list_at_def images_right_def split: option.splits)
    then obtain left where left: "drawLeft L (renderState C) rs (int x) (int y) ?f i = Inr left"
      by (cases "drawLeft L (renderState C) rs (int x) (int y) ?f i") auto
    have "list_all (fits C L ?f (int x) (int y)) left"
      by (rule drawLeft_fit [OF assms(2) left]) (use assms(3) in \<open>auto simp: images_right_def\<close>)
    with True left show ?thesis
      using drawImages_fit [of C L ?f] drawEpisodeNumber_fit [OF assms(1), of C ?f] drawText_fit [OF assms(2), of L]
      by (auto simp: drawCell_def xy in_cell_def images_drawn_def list_all_iff Let_def)
  qed (simp add: drawCell_def xy images_drawn_def)
qed

lemma foldE_draw:
  "(\<And>i. i \<in> set is \<Longrightarrow> \<exists>cs. f i = Inr cs) \<Longrightarrow>
    foldE (\<lambda>i dc. andThen (f i) (\<lambda>cs. Inr (dc @ cs))) is dc = Inr (dc @ concat (map (\<lambda>i. projr (f i)) is))"
  by (induction "is" arbitrary: dc) fastforce+

lemma renderGridFrame_ok:
  assumes "text_fits L" "list_all (few_joints C) (gridFrames job)" "images_right C job rs"
    and "gridSize C = cols * rows" "length (gridFrames job) = cols * rows"
  shows "\<exists>dc. renderGridFrame L cols rows (renderState C) dir job rs = Inr (dc, framePath dir (frameIndex job))
    \<and> picture_right C L cols rows job dc"
proof -
  let ?cell = "drawCell L (renderState C) rs cols job"
  let ?dc = "gridLines cols rows @ concat (map (\<lambda>i. projr (?cell i)) [0..<cols * rows])"
  have cell: "\<exists>cs. ?cell i = Inr cs \<and> list_all (in_cell C L cols job i) cs \<and> images_drawn L cols job cs i"
    if "i < cols * rows" for i
    using drawCell_ok [OF assms(1) _ assms(3)] assms(2,4,5) that by (simp add: list_all_length)
  have "foldE (\<lambda>i dc. andThen (?cell i) (\<lambda>cs. Inr (dc @ cs))) [0..<cols * rows] (gridLines cols rows) = Inr ?dc"
    by (rule foldE_draw) (use cell in auto)
  then have "renderGridFrame L cols rows (renderState C) dir job rs = Inr (?dc, framePath dir (frameIndex job))"
    using assms(5) by (simp add: renderGridFrame_def)
  moreover have "picture_right C L cols rows job ?dc"
  proof -
    have "images_drawn L cols job ?dc i" if "i < cols * rows" for i
    proof -
      from cell [OF that] obtain cs where cs: "?cell i = Inr cs" "images_drawn L cols job cs i" by blast
      then have "set cs \<subseteq> set ?dc" using that by force
      then show ?thesis using cs(2) by (auto simp: images_drawn_def list_all_iff split: prod.splits)
    qed
    moreover have "list_ex (\<lambda>i. in_cell C L cols job i c) [0..<cols * rows]"
      if "i < cols * rows" "c \<in> set (projr (?cell i))" for i c
      using cell [OF that(1)] that by (force simp: list_all_iff list_ex_iff)
    ultimately show ?thesis by (auto simp: picture_right_def list_all_iff)
  qed
  ultimately show ?thesis by blast
qed

subsection \<open>All jobs\<close>

lemma renderJobs_facts:
  assumes "renderJobs cols rows episodes = Inr js"
  shows "map frameIndex js = [0..<length js] \<and> list_all (\<lambda>j. length (gridFrames j) = cols * rows) js"
proof -
  let ?n = "cols * rows"
  have grid: "list_all (\<lambda>j. length (gridFrames j) = n) (fold (addGrid n eps) gs js)"
    if "list_all (\<lambda>j. length (gridFrames j) = n) js" for n eps gs js
    using that
  proof (induction gs arbitrary: js)
    case (Cons g gs)
    have "list_all (\<lambda>j. length (gridFrames j) = n) (addGrid n eps g js)"
      using Cons.prems by (auto simp: addGrid_def gridJobs_def Let_def list_all_iff)
    with Cons.IH show ?case by simp
  qed simp
  obtain n where "numGrids ?n episodes = Inr n" and js: "js = fold (addGrid ?n episodes) [0..<n] []"
    using assms by (auto simp: renderJobs_def Let_def andThen_eq_Inr)
  then show ?thesis using grid map_frameIndex_grids [of "[]" ?n episodes "[0..<n]"] by simp
qed

text \<open>The pictures of a run, as what is drawn and where it is saved.\<close>

definition pictures_right :: "'p conf \<Rightarrow> 'p library \<Rightarrow> nat \<Rightarrow> nat \<Rightarrow> string \<Rightarrow> (renderJob \<times> 'p option list \<times> bool) list \<Rightarrow> bool" where
  "pictures_right C L cols rows dir ps \<longleftrightarrow> list_all (\<lambda>(j, rs, e).
     case renderGridFrame L cols rows (renderState C) dir j rs of
       Inl e \<Rightarrow> False
     | Inr (dc, p) \<Rightarrow> p = framePath dir (frameIndex j) \<and> picture_right C L cols rows j dc) ps"

lemma pool_pictures:
  assumes "0 < numWorkers C" and "gridSize C = cols * rows" and "renderJobs cols rows episodes = Inr js"
    and "reached C js s" and "stage s = Finished"
    and "text_fits L" and "list_all (\<lambda>j. list_all (few_joints C) (gridFrames j)) js"
  shows "pictures_right C L cols rows dir (drawn s)
    \<and> mset (map (\<lambda>(j, rs, e). framePath dir (frameIndex j)) (drawn s)) = mset (map (framePath dir) [0..<length js])"
proof -
  have "pool_ok C js s" by (rule reached_ok [OF assms(4)])
  then have images: "list_all (\<lambda>(j, rs, e). images_right C j rs) (drawn s)" and all: "mset (map fst (drawn s)) = mset js"
    using finished_counts [OF _ assms(5,1), of js] by (simp_all add: pool_ok_def images_ok_def)
  have facts: "map frameIndex js = [0..<length js]" "list_all (\<lambda>j. length (gridFrames j) = cols * rows) js"
    using renderJobs_facts [OF assms(3)] by simp_all
  have "\<exists>dc. renderGridFrame L cols rows (renderState C) dir j rs = Inr (dc, framePath dir (frameIndex j)) \<and> picture_right C L cols rows j dc"
    if "(j, rs, e) \<in> set (drawn s)" for j rs e
  proof (rule renderGridFrame_ok [OF assms(6)])
    have "j \<in> set js" using all that by (metis fst_conv image_eqI list.set_map mset_eq_setD)
    then show "list_all (few_joints C) (gridFrames j)" "length (gridFrames j) = cols * rows"
      using assms(7) facts(2) by (auto simp: list_all_iff)
    show "images_right C j rs" using images that by (force simp: list_all_iff)
  qed (fact assms(2))
  then have "pictures_right C L cols rows dir (drawn s)"
    by (fastforce simp: pictures_right_def list_all_iff)
  moreover have "map (\<lambda>(j, rs, e). framePath dir (frameIndex j)) (drawn s) = map (framePath dir \<circ> frameIndex) (map fst (drawn s))"
    by (simp add: case_prod_unfold comp_def)
  moreover have "mset (map (framePath dir \<circ> frameIndex) (map fst (drawn s))) = mset (map (framePath dir \<circ> frameIndex) js)"
    unfolding mset_map [of "framePath dir \<circ> frameIndex"] all ..
  moreover have "map (framePath dir \<circ> frameIndex) js = map (framePath dir) [0..<length js]"
    by (metis facts(1) map_map)
  ultimately show ?thesis by (simp only: simp_thms)
qed


definition demo_library :: "nat library" where
  "demo_library = \<lparr>decode = (\<lambda>bs. Some (length bs)), fontLoads = True, textWidth = (\<lambda>t. 28), textHeight = (\<lambda>t. 9), idText = (\<lambda>bs. [])\<rparr>"


subsection \<open>Pictures that lack something\<close>

text \<open>The font is the file of one operating system. Where it is missing, no text is drawn at all.\<close>

fun is_text :: "'p command \<Rightarrow> bool" where
  "is_text (DrawString t x y) \<longleftrightarrow> True"
| "is_text c \<longleftrightarrow> False"

lemma no_font_no_text:
  assumes "\<not> fontLoads L" "drawCell L enable rs cols job i = Inr cs"
  shows "\<not> list_ex is_text cs"
proof -
  have no: "\<not> list_ex is_text (drawImages L ox oy imgs)" "\<not> list_ex is_text (drawEpisodeNumber L ox oy nums k)"
    "\<not> list_ex is_text (drawText L enable ox oy f)" for ox oy imgs nums k f
    using assms(1) by (auto simp: drawImages_def drawEpisodeNumber_def drawText_def list_ex_iff split: if_splits option.splits)
  have left: "\<not> list_ex is_text left" if "drawLeft L enable rs ox oy f k = Inr left" for ox oy f k left
    using that assms(1) by (auto simp: drawLeft_def andThen_eq_Inr split: if_splits option.splits)
  obtain x y where "cellOffset cols i = (x, y)" by force
  then show ?thesis using assms(2) no left
    by (auto simp: drawCell_def Let_def andThen_eq_Inr simp del: list_ex_iff split: if_splits)
qed

text \<open>The ninth joint of a column is written below the cell.\<close>

lemma jointLines_last:
  "js \<noteq> [] \<Longrightarrow> \<exists>t. DrawString t x (y + 27 * int (length js) - 14) \<in> set (jointLines x y js)"
proof (induction x y js rule: jointLines.induct)
  case (2 x y j joint js)
  then show ?case by (cases "js = []") (auto simp: algebra_simps)
qed simp

lemma joints_leave_cell:
  assumes "y = oy + 239" "9 \<le> length js"
  shows "\<not> list_all (inside ox oy) (jointLines x y js :: 'p command list)"
proof -
  obtain t where "DrawString t x (y + 27 * int (length js) - 14) \<in> set (jointLines x y js :: 'p command list)"
    using jointLines_last [of js x y] assms(2) by force
  moreover have "\<not> inside ox oy (DrawString t x (y + 27 * int (length js) - 14) :: 'p command)"
    using assms by (simp add: cell_size)
  ultimately show ?thesis unfolding list_all_iff by blast
qed

text \<open>The single picture has room for eleven motors.\<close>

lemma renderFrame_motors:
  "y + 17 * int (length js) \<le> 504 + 17 \<Longrightarrow> list_all (\<lambda>c. case c of DrawString t x y' \<Rightarrow> y' \<le> 504 | _ \<Rightarrow> False) (frameMotors y js)"
  by (induction y js rule: frameMotors.induct) simp_all

end
