(* ===== verification/Station_Tools.thy ===== *)
theory Station_Tools
  imports Message_Properties Go_Strings
begin

section \<open>Commands, log lines and limits\<close>

text \<open>
  \<^verbatim>\<open>software/station/shared/station/streams.go\<close>, the hook of \<^verbatim>\<open>shared/console-tool/console-tool.go\<close> that
  adds the place of a call to a log line, and \<^verbatim>\<open>shared/ulimits/ulimits.go\<close>. The client of \<^verbatim>\<open>normfs\<close> and the
  limits of the operating system are parameters; a command is a message of a generated type.
\<close>

subsection \<open>The client\<close>

definition serverAddress :: "string \<Rightarrow> string" where
  "serverAddress server = (if \<not> contains server '':'' then server @ '':'' @ dec 8888 else server)"

text \<open>The queue and the entries handed to \<open>EnqueuePack\<close>.\<close>

definition SendCommands :: "(string \<Rightarrow> slice list \<Rightarrow> 'e option) \<Rightarrow> schema \<Rightarrow> nat \<Rightarrow> gval list \<Rightarrow> unit fault + 'e option" where
  "SendCommands enqueuePack M n commands =
     andThen (foldE (\<lambda>cmd bytes. andThen (Marshal M n cmd) (\<lambda>b. Inr (bytes @ [b]))) commands []) (\<lambda>bytes.
       Inr (enqueuePack ''commands'' bytes))"

text \<open>The entry of a command, as a receiver reads it.\<close>

definition reads_back :: "schema \<Rightarrow> nat \<Rightarrow> gval \<Rightarrow> slice \<Rightarrow> bool" where
  "reads_back M n v s \<longleftrightarrow> (let fuel = Suc (length (message_bytes M n v)) in
     case Unmarshal fuel (M n) (NewMsgReader M n) s of
       Some (m, None) \<Rightarrow> ToStruct fuel fuel M n m = Some (Inr (message_norm M n v))
     | _ \<Rightarrow> False)"

lemma SendCommands_delivers:
  assumes "schema_ok M" and "list_all (\<lambda>v. message_typed M n v \<and> length (message_bytes M n v) < 2 ^ 62) commands"
  shows "\<exists>pack. SendCommands enqueuePack M n commands = Inr (enqueuePack ''commands'' pack)
    \<and> list_all2 (reads_back M n) commands pack"
proof -
  have entry: "\<exists>s. Marshal M n v = Inr s \<and> reads_back M n v s" if "v \<in> set commands" for v
  proof -
    have v: "message_typed M n v" "length (message_bytes M n v) < 2 ^ 62" using assms(2) that by (simp_all add: list_all_iff)
    from marshal_back [OF assms(1) v, of "Suc (length (message_bytes M n v))" "length (message_bytes M n v)"]
    show ?thesis by (auto simp: reads_back_def Let_def)
  qed
  have "\<exists>pack. foldE (\<lambda>cmd bytes. andThen (Marshal M n cmd) (\<lambda>b. Inr (bytes @ [b]))) cmds acc = Inr (acc @ pack)
      \<and> list_all2 (reads_back M n) cmds pack" if "set cmds \<subseteq> set commands" for cmds acc
    using that
  proof (induction cmds arbitrary: acc)
    case (Cons v cmds)
    from entry [of v] Cons.prems obtain s where s: "Marshal M n v = Inr s" "reads_back M n v s" by auto
    from Cons.IH [of "acc @ [s]"] Cons.prems obtain pack where
      "foldE (\<lambda>cmd bytes. andThen (Marshal M n cmd) (\<lambda>b. Inr (bytes @ [b]))) cmds (acc @ [s]) = Inr (acc @ s # pack)"
      "list_all2 (reads_back M n) cmds pack" by auto
    with s show ?case by (intro exI [of _ "s # pack"]) simp
  qed simp
  from this [of commands "[]"] show ?thesis by (auto simp: SendCommands_def)
qed

text \<open>An address of the sixth version of the protocol has colons of its own, and gets no port.\<close>

lemma colon_address_without_port: "serverAddress ''::1'' = ''::1''"
  by code_simp

subsection \<open>The place of a log line\<close>

definition hookLine :: "string \<Rightarrow> nat \<Rightarrow> unit fault + string" where
  "hookLine file line =
     (let from = (case index_of ''norma_core/'' file of None \<Rightarrow> -1 | Some i \<Rightarrow> int i) + 8
      in if from > int (length file) then Inl Panic
         else Inr (drop (nat from) file @ '':'' @ dec line))"

text \<open>The key has eleven characters: three of them stay.\<close>

lemma hook_keeps_key:
  assumes "index_of ''norma_core/'' (a @ ''norma_core/'' @ b) = Some (length a)"
  shows "hookLine (a @ ''norma_core/'' @ b) line = Inr (''re/'' @ b @ '':'' @ dec line)"
proof -
  have "nat (int (length a) + 8) = length a + 8" by simp
  then show ?thesis using assms by (simp add: hookLine_def)
qed

text \<open>A file outside loses the start of its path, and a log line in one with a short path panics.\<close>

lemma hook_outside:
  assumes "index_of ''norma_core/'' file = None"
  shows "hookLine file line = (if length file < 7 then Inl Panic else Inr (drop 7 file @ '':'' @ dec line))"
  using assms by (simp add: hookLine_def)

subsection \<open>Limits\<close>

record Rlimit =
  Cur :: uint64
  MaxLimit :: uint64

datatype limit_report = GetFailed | Enough Rlimit | SetFailed | CheckFailed | Changed Rlimit

text \<open>\<open>getrlimit\<close> and \<open>setrlimit\<close> on a limit; the result is what is printed and the limit that holds then.\<close>

definition SetupForHighLoad :: "(Rlimit \<Rightarrow> Rlimit option) \<Rightarrow> (Rlimit \<Rightarrow> Rlimit \<Rightarrow> bool) \<Rightarrow> Rlimit \<Rightarrow> limit_report \<times> Rlimit" where
  "SetupForHighLoad getrlimit accepts l =
     (case getrlimit l of
        None \<Rightarrow> (GetFailed, l)
      | Some rLimit \<Rightarrow>
          let changed = (Cur rLimit < 256000 \<or> MaxLimit rLimit < 256000);
              new = rLimit\<lparr>Cur := (if Cur rLimit < 256000 then 256000 else Cur rLimit),
                MaxLimit := (if MaxLimit rLimit < 256000 then 256000 else MaxLimit rLimit)\<rparr>
          in if \<not> changed then (Enough rLimit, l)
             else if \<not> accepts l new then (SetFailed, l)
             else (case getrlimit new of None \<Rightarrow> (CheckFailed, new) | Some r \<Rightarrow> (Changed r, new)))"

text \<open>When it succeeds, both limits are high enough.\<close>

lemma SetupForHighLoad_enough:
  assumes "SetupForHighLoad Some accepts l = (r, l')" "r \<noteq> SetFailed"
  shows "256000 \<le> Cur l' \<and> 256000 \<le> MaxLimit l'"
  using assms by (auto simp: SetupForHighLoad_def Let_def not_less split: if_splits)

text \<open>A process that may not raise its hard limit asks for too much, and its soft limit stays as it is, too.\<close>

lemma soft_limit_not_raised:
  assumes "MaxLimit l < 256000" "\<And>l new. accepts l new \<longleftrightarrow> MaxLimit new \<le> MaxLimit l \<and> Cur new \<le> MaxLimit new"
  shows "SetupForHighLoad Some accepts l = (SetFailed, l)"
proof -
  have "\<not> 256000 \<le> MaxLimit l" using assms(1) by simp
  then show ?thesis using assms by (simp add: SetupForHighLoad_def Let_def)
qed

end
