(* ===== verification/Scoped_Name.thy ===== *)
theory Scoped_Name
  imports Go_Strings
begin

section \<open>Scoped names of the generator\<close>

text \<open>
  \<^verbatim>\<open>shared/gremlin_go/gremlinc/internal/types/scopes.go\<close>: a name with the names of the scopes
  around it and the dotted path. The code builds every value by its operations; the abstraction
  \<open>path_of\<close> is the list of components, and the operations refine those on lists as long as no
  component has a dot (\<open>name_ok\<close>). The locale \<open>scoping\<close> is what name resolution asks of names:
  walking from a scope outwards visits the prefixes of its path.
\<close>

record ScopedName =
  sn_name :: string
  sn_parent :: "string list"
  fullPath :: string
  localPath :: "string list"
  platformName :: "string \<rightharpoonup> string"

definition emptyName :: ScopedName where
  "emptyName = \<lparr>sn_name = [], sn_parent = [], fullPath = [], localPath = [], platformName = Map.empty\<rparr>"

definition dot :: string where "dot = ''.''"

definition ParseName :: "string \<Rightarrow> ScopedName" where
  "ParseName n =
     (let parts = split_on (CHR ''.'') n in
      if length parts > 1
      then emptyName\<lparr>sn_name := last parts, sn_parent := butlast parts, fullPath := n\<rparr>
      else emptyName\<lparr>sn_name := n, sn_parent := [], fullPath := n\<rparr>)"

definition Child :: "ScopedName \<Rightarrow> string \<Rightarrow> ScopedName" where
  "Child s n =
     (let path = sn_parent s @ (if sn_name s \<noteq> [] then [sn_name s] else []) @ [n] in
      emptyName\<lparr>sn_name := n, sn_parent := butlast path, fullPath := join dot path\<rparr>)"

definition LocalChild :: "ScopedName \<Rightarrow> string \<Rightarrow> ScopedName" where
  "LocalChild s n = (Child s n)\<lparr>localPath := localPath s @ [sn_name s]\<rparr>"

definition ToScope :: "ScopedName \<Rightarrow> ScopedName \<Rightarrow> ScopedName" where
  "ToScope s target =
     (if fullPath target = [] then s
      else let path = sn_parent target @ (if sn_name target \<noteq> [] then [sn_name target] else [])
                 @ sn_parent s @ [sn_name s] in
        emptyName\<lparr>sn_name := sn_name s, sn_parent := butlast path, fullPath := join dot path\<rparr>)"

definition ToParent :: "ScopedName \<Rightarrow> ScopedName" where
  "ToParent s =
     (if length (sn_parent s) = 0 then emptyName
      else let path = sn_parent s in
        emptyName\<lparr>sn_name := last path, sn_parent := butlast path, fullPath := join dot path\<rparr>)"

text \<open>\<open>Equal\<close> of the code; \<open>s.Equal(partialName)\<close>.\<close>

definition EqualName :: "ScopedName \<Rightarrow> ScopedName \<Rightarrow> bool" where
  "EqualName s partialName =
     (if sn_name partialName \<noteq> sn_name s then False else fullPath s = fullPath partialName)"

fun same_scopes :: "string list \<Rightarrow> string list \<Rightarrow> bool" where
  "same_scopes [] xs = True"
| "same_scopes (p # ps) [] = False"
| "same_scopes (p # ps) (x # xs) = (x = p \<and> same_scopes ps xs)"

definition IsIn :: "ScopedName \<Rightarrow> ScopedName \<Rightarrow> bool" where
  "IsIn s parent =
     (if length (sn_parent s) \<le> length (sn_parent parent) then False
      else if length (sn_parent parent) = 0 then True
      else if \<not> same_scopes (sn_parent parent) (sn_parent s) then False
      else sn_parent s ! length (sn_parent parent) = sn_name parent)"

definition PlatformName :: "ScopedName \<Rightarrow> string \<Rightarrow> string" where
  "PlatformName s platform = (case platformName s platform of None \<Rightarrow> [] | Some n \<Rightarrow> n)"

definition WithPlatformName :: "ScopedName \<Rightarrow> string \<Rightarrow> string \<Rightarrow> ScopedName" where
  "WithPlatformName s platform n =
     \<lparr>sn_name = sn_name s, sn_parent = sn_parent s, fullPath = fullPath s, localPath = [],
      platformName = (platformName s)(platform \<mapsto> n)\<rparr>"

definition NameString :: "ScopedName \<Rightarrow> string" where "NameString s = fullPath s"

definition ProtoName :: "ScopedName \<Rightarrow> string" where "ProtoName s = sn_name s"

definition CanResolveParent :: "ScopedName \<Rightarrow> bool" where "CanResolveParent s = (fullPath s \<noteq> [])"

definition LocalPath :: "ScopedName \<Rightarrow> string list" where "LocalPath s = localPath s"

subsection \<open>Names as paths\<close>

definition path_of :: "ScopedName \<Rightarrow> string list" where
  "path_of s = (if fullPath s = [] then [] else sn_parent s @ [sn_name s])"

text \<open>A well-formed name: no component is empty or has a dot, and the full path is the
  components joined. The empty name has no components.\<close>

definition components_ok :: "string list \<Rightarrow> bool" where
  "components_ok xs \<longleftrightarrow> plain (CHR ''.'') xs \<and> [] \<notin> set xs"

definition name_ok :: "ScopedName \<Rightarrow> bool" where
  "name_ok s \<longleftrightarrow> (if sn_name s = [] then sn_parent s = [] \<and> fullPath s = []
     else components_ok (sn_parent s @ [sn_name s]) \<and> fullPath s = join dot (sn_parent s @ [sn_name s]))"

lemma components_ok_simps [simp]:
  "components_ok []" "components_ok (x # xs) \<longleftrightarrow> x \<noteq> [] \<and> CHR ''.'' \<notin> set x \<and> components_ok xs"
  "components_ok (xs @ ys) \<longleftrightarrow> components_ok xs \<and> components_ok ys"
  by (auto simp: components_ok_def)

lemma join_dot_Nil: "components_ok xs \<Longrightarrow> join dot xs = [] \<longleftrightarrow> xs = []"
  by (cases "[] \<in> set xs") (auto simp: components_ok_def dot_def join_eq_Nil)

lemma join_dot_inject:
  assumes "components_ok xs" and "components_ok ys"
  shows "join dot xs = join dot ys \<longleftrightarrow> xs = ys"
proof (cases "xs = [] \<or> ys = []")
  case True
  then show ?thesis using join_dot_Nil [OF assms(1)] join_dot_Nil [OF assms(2)] by auto
next
  case False
  then show ?thesis using assms join_inject [of xs ys "CHR ''.''"] by (auto simp: components_ok_def dot_def)
qed

lemma name_okE:
  assumes "name_ok s"
  shows "components_ok (path_of s)" and "fullPath s = join dot (path_of s)"
    and "path_of s = [] \<longleftrightarrow> sn_name s = []" and "path_of s = [] \<longleftrightarrow> fullPath s = []"
    and "sn_parent s @ (if sn_name s \<noteq> [] then [sn_name s] else []) = path_of s"
  using assms join_dot_Nil [of "sn_parent s @ [sn_name s]"]
  by (auto simp: name_ok_def path_of_def split: if_splits)

lemma path_of_nonempty: "name_ok s \<Longrightarrow> path_of s \<noteq> [] \<Longrightarrow> sn_parent s = butlast (path_of s) \<and> sn_name s = last (path_of s)"
  by (auto simp: path_of_def split: if_splits)

lemma emptyName_ok [simp]: "name_ok emptyName" "path_of emptyName = []"
  by (simp_all add: name_ok_def path_of_def emptyName_def)

text \<open>A name built from a path.\<close>

lemma path_name:
  assumes "components_ok xs" and "xs \<noteq> []"
    and "sn_name s = last xs" and "sn_parent s = butlast xs" and "fullPath s = join dot xs"
  shows "name_ok s \<and> path_of s = xs"
proof -
  have "last xs \<noteq> []" using assms(1,2) by (auto simp: components_ok_def) (metis last_in_set)
  moreover have "join dot xs \<noteq> []" using join_dot_Nil [OF assms(1)] assms(2) by simp
  ultimately show ?thesis using assms by (simp add: name_ok_def path_of_def)
qed

lemma Child_path:
  assumes "name_ok s" and "n \<noteq> []" and "CHR ''.'' \<notin> set n"
  shows "name_ok (Child s n) \<and> path_of (Child s n) = path_of s @ [n]"
proof (rule path_name)
  have e: "sn_parent s @ (if sn_name s \<noteq> [] then [sn_name s] else []) @ [n] = path_of s @ [n]"
    using name_okE(5) [OF assms(1)] by (metis append_assoc)
  show "sn_name (Child s n) = last (path_of s @ [n])"
    "sn_parent (Child s n) = butlast (path_of s @ [n])"
    "fullPath (Child s n) = join dot (path_of s @ [n])"
    by (simp_all only: Child_def e Let_def) (simp_all add: emptyName_def)
qed (use assms name_okE(1) [OF assms(1)] in simp_all)

lemma name_localPath: "name_ok (s\<lparr>localPath := l\<rparr>) = name_ok s" "path_of (s\<lparr>localPath := l\<rparr>) = path_of s"
  by (simp_all add: name_ok_def path_of_def)

lemma LocalChild_path:
  "name_ok s \<Longrightarrow> n \<noteq> [] \<Longrightarrow> CHR ''.'' \<notin> set n
    \<Longrightarrow> name_ok (LocalChild s n) \<and> path_of (LocalChild s n) = path_of s @ [n]"
  unfolding LocalChild_def name_localPath by (rule Child_path)

lemma ToScope_path:
  assumes "name_ok s" and "name_ok t" and "path_of s \<noteq> []"
  shows "name_ok (ToScope s t) \<and> path_of (ToScope s t) = path_of t @ path_of s"
proof (cases "fullPath t = []")
  case True
  then show ?thesis using assms name_okE(4) [OF assms(2)] by (simp add: ToScope_def)
next
  case False
  have s: "sn_parent s @ [sn_name s] = path_of s"
    using assms(3) by (simp add: path_of_def split: if_splits)
  have t: "sn_parent t @ (if sn_name t \<noteq> [] then [sn_name t] else []) @ sn_parent s @ [sn_name s] = path_of t @ path_of s"
    using name_okE(5) [OF assms(2)] s by (metis append_assoc)
  show ?thesis
  proof (rule path_name)
    show "sn_parent (ToScope s t) = butlast (path_of t @ path_of s)"
      "fullPath (ToScope s t) = join dot (path_of t @ path_of s)"
      using False by (simp_all only: ToScope_def t Let_def if_False) (simp_all add: emptyName_def)
    show "sn_name (ToScope s t) = last (path_of t @ path_of s)"
      using False s assms(3) path_of_nonempty [OF assms(1,3)] by (simp add: ToScope_def Let_def emptyName_def)
  qed (use assms name_okE(1) in simp_all)
qed

lemma ToParent_path:
  assumes "name_ok s"
  shows "name_ok (ToParent s) \<and> path_of (ToParent s) = butlast (path_of s)"
proof (cases "sn_parent s = []")
  case True
  then show ?thesis by (simp add: ToParent_def) (simp add: path_of_def)
next
  case False
  with assms have n: "sn_name s \<noteq> []" by (auto simp: name_ok_def)
  then have p: "path_of s = sn_parent s @ [sn_name s]" using name_okE(3,5) [OF assms] by simp
  show ?thesis
    using path_name [of "sn_parent s" "ToParent s"] False name_okE(1) [OF assms]
    by (simp add: p ToParent_def Let_def emptyName_def)
qed

lemma EqualName_path:
  assumes "name_ok s" and "name_ok t"
  shows "EqualName s t \<longleftrightarrow> path_of s = path_of t"
proof -
  have "fullPath s = fullPath t \<longleftrightarrow> path_of s = path_of t"
    using join_dot_inject [OF name_okE(1) [OF assms(1)] name_okE(1) [OF assms(2)]]
    unfolding name_okE(2) [OF assms(1)] name_okE(2) [OF assms(2)] .
  moreover have "sn_name s = sn_name t" if e: "path_of s = path_of t"
  proof (cases "path_of s = []")
    case True
    with e name_okE(3) [OF assms(1)] name_okE(3) [OF assms(2)] show ?thesis by simp
  next
    case False
    with e path_of_nonempty [OF assms(1)] path_of_nonempty [OF assms(2)] show ?thesis by simp
  qed
  ultimately show ?thesis by (auto simp: EqualName_def)
qed

lemma ParseName_path:
  assumes "components_ok (split_on (CHR ''.'') n)"
  shows "name_ok (ParseName n) \<and> path_of (ParseName n) = split_on (CHR ''.'') n"
proof (rule path_name)
  show "sn_name (ParseName n) = last (split_on (CHR ''.'') n)" "sn_parent (ParseName n) = butlast (split_on (CHR ''.'') n)"
    using split_on_nonempty [of "CHR ''.''" n] join_split_on [of "CHR ''.''" n]
    by (cases "split_on (CHR ''.'') n" rule: rev_cases; auto simp: ParseName_def Let_def emptyName_def)+
  show "fullPath (ParseName n) = join dot (split_on (CHR ''.'') n)"
    by (simp add: ParseName_def Let_def emptyName_def dot_def join_split_on)
qed (use assms in simp_all)

end
