(* ===== verification/Scope_Walk.thy ===== *)
theory Scope_Walk
  imports Scoped_Name "HOL-Library.Sublist"
begin

section \<open>Walking the scopes outwards\<close>

text \<open>
  Four functions of \<^verbatim>\<open>resolving.go\<close> share one loop: they look a name up in a scope, then in the
  scope around it, and at last in the empty scope. \<open>walkScopes\<close> is that loop around a lookup.
  The locale \<open>scoping\<close> states what the loop needs of names, and shows that it returns the first
  hit among the prefixes of the scope's path, the longest first.
\<close>

fun first_some :: "('a \<Rightarrow> 'b option) \<Rightarrow> 'a list \<Rightarrow> 'b option" where
  "first_some f [] = None"
| "first_some f (x # xs) = (case f x of Some y \<Rightarrow> Some y | None \<Rightarrow> first_some f xs)"

lemma first_some_append:
  "first_some f (xs @ ys) = (case first_some f xs of Some y \<Rightarrow> Some y | None \<Rightarrow> first_some f ys)"
  by (induction xs) (auto split: option.splits)

lemma first_some_map: "first_some f (map g xs) = first_some (\<lambda>x. f (g x)) xs"
  by (induction xs) (auto split: option.splits)

lemma first_some_cong: "(\<And>x. x \<in> set xs \<Longrightarrow> f x = g x) \<Longrightarrow> first_some f xs = first_some g xs"
  by (induction xs) (auto split: option.splits)

lemma first_some_SomeD: "first_some f xs = Some y \<Longrightarrow> \<exists>x \<in> set xs. f x = Some y"
  by (induction xs) (auto split: option.splits)

lemma first_some_None: "first_some f xs = None \<longleftrightarrow> (\<forall>x \<in> set xs. f x = None)"
  by (induction xs) (auto split: option.splits)

function walkScopes :: "(ScopedName \<Rightarrow> 'r option) \<Rightarrow> ScopedName \<Rightarrow> 'r option" where
  "walkScopes try searchPath =
     (case try searchPath of
        Some r \<Rightarrow> Some r
      | None \<Rightarrow> if CanResolveParent searchPath then walkScopes try (ToParent searchPath) else None)"
  by pat_completeness auto

termination
  by (relation "measure (\<lambda>(_, s). if fullPath s = [] then 0 else Suc (length (sn_parent s)))")
    (auto simp: CanResolveParent_def ToParent_def emptyName_def Let_def)

declare walkScopes.simps [simp del]

locale scoping =
  fixes parent :: "'s \<Rightarrow> 's"
    and more :: "'s \<Rightarrow> bool"
    and path :: "'s \<Rightarrow> 'c list"
    and ok :: "'s \<Rightarrow> bool"
    and walk :: "('s \<Rightarrow> 'r option) \<Rightarrow> 's \<Rightarrow> 'r option"
  assumes parent_ok: "ok s \<Longrightarrow> ok (parent s)"
    and parent_path: "ok s \<Longrightarrow> path (parent s) = butlast (path s)"
    and more_path: "ok s \<Longrightarrow> more s \<longleftrightarrow> path s \<noteq> []"
    and walk_unfold: "walk f s = (case f s of Some r \<Rightarrow> Some r | None \<Rightarrow> if more s then walk f (parent s) else None)"
begin

lemma prefixes_butlast: "xs \<noteq> [] \<Longrightarrow> rev (prefixes xs) = xs # rev (prefixes (butlast xs))"
  by (cases xs rule: rev_cases) (simp_all add: prefixes_snoc)

text \<open>The walk tries the prefixes of the path from the longest to the empty one.\<close>

lemma walk_prefixes:
  assumes "ok s" and "\<And>t. ok t \<Longrightarrow> f t = g (path t)"
  shows "walk f s = first_some g (rev (prefixes (path s)))"
  using assms(1)
proof (induction "length (path s)" arbitrary: s)
  case 0
  then show ?case by (subst walk_unfold) (simp add: assms(2) more_path split: option.split)
next
  case (Suc n)
  then have ne: "path s \<noteq> []" by auto
  have "walk f (parent s) = first_some g (rev (prefixes (butlast (path s))))"
    using Suc(1) [of "parent s"] Suc(2) parent_ok [OF Suc(3)] parent_path [OF Suc(3)] by simp
  then show ?case
    by (subst walk_unfold)
      (simp add: assms(2) [OF Suc(3)] more_path [OF Suc(3)] ne prefixes_butlast [OF ne] split: option.split)
qed

text \<open>A hit is in the path's own scope or one around it, and no scope inside that has a hit.\<close>

lemma walk_innermost:
  assumes "ok s" and "\<And>t. ok t \<Longrightarrow> f t = g (path t)" and "walk f s = Some r"
  shows "\<exists>p q. path s = p @ q \<and> g p = Some r \<and> (\<forall>p' q'. path s = p' @ q' \<longrightarrow> length p < length p' \<longrightarrow> g p' = None)"
proof -
  have "first_some g (rev (prefixes xs)) = Some r \<Longrightarrow>
      \<exists>p q. xs = p @ q \<and> g p = Some r \<and> (\<forall>p' q'. xs = p' @ q' \<longrightarrow> length p < length p' \<longrightarrow> g p' = None)" for xs
  proof (induction xs rule: rev_induct)
    case (snoc x xs)
    show ?case
    proof (cases "g (xs @ [x])")
      case (Some y)
      with snoc.prems show ?thesis
        by (intro exI [of _ "xs @ [x]"] exI [of _ "[]"]) (auto simp: prefixes_snoc)
    next
      case None
      with snoc obtain p q where pq: "xs = p @ q" "g p = Some r"
        "\<And>p' q'. xs = p' @ q' \<Longrightarrow> length p < length p' \<Longrightarrow> g p' = None"
        by (auto simp: prefixes_snoc)
      have "g p' = None" if "xs @ [x] = p' @ q'" and "length p < length p'" for p' q'
        using that pq(3) None by (cases q' rule: rev_cases) auto
      with pq show ?thesis by (intro exI [of _ p] exI [of _ "q @ [x]"]) auto
    qed
  qed (auto split: option.splits)
  with assms walk_prefixes [OF assms(1), of f g] show ?thesis by simp
qed

lemma walk_None:
  assumes "ok s" and "\<And>t. ok t \<Longrightarrow> f t = g (path t)"
  shows "walk f s = None \<longleftrightarrow> (\<forall>p q. path s = p @ q \<longrightarrow> g p = None)"
  using walk_prefixes [OF assms(1), of f g] assms(2) by (auto simp: first_some_None prefix_def)

end

interpretation names: scoping ToParent CanResolveParent path_of name_ok walkScopes
proof
  fix f :: "ScopedName \<Rightarrow> 'r option" and s
  show "walkScopes f s = (case f s of Some r \<Rightarrow> Some r
      | None \<Rightarrow> if CanResolveParent s then walkScopes f (ToParent s) else None)"
    by (rule walkScopes.simps)
qed (use ToParent_path name_okE(4) in \<open>auto simp: CanResolveParent_def\<close>)

end
