(* ===== verification/Proto_File.thy ===== *)
theory Proto_File
  imports Scope_Walk
begin

section \<open>Proto files of the generator\<close>

text \<open>
  The data of \<^verbatim>\<open>shared/gremlin_go/gremlinc/internal/types\<close> (\<^verbatim>\<open>struct.go\<close>, \<^verbatim>\<open>types.go\<close>), and the part
  of the parse tree of \<^verbatim>\<open>emicklei/proto\<close> the generator reads. The code links files, messages and
  enums by pointers; here a pointer to a file is its position in the list of files, and a pointer
  to a message or an enum its position in the lists of its file. Paths are lists of their
  components.
\<close>

subsection \<open>The parse tree\<close>

record ProtoOption =
  po_name :: string
  po_source :: string
  po_is_string :: bool

record ProtoField =
  pf_name :: string
  pf_type :: string
  pf_sequence :: int
  pf_options :: "ProtoOption list"

text \<open>The elements of a message that are looked at.\<close>

datatype ProtoElement =
    GroupElement string
  | NormalElement ProtoField bool bool
  | MapElement ProtoField string
  | OneofElement string "ProtoElement list"
  | OneofFieldElement ProtoField
  | OtherElement

text \<open>\<open>pm_parents\<close> are the names of the messages around a message, outermost first.\<close>

record ProtoMessage =
  pm_name :: string
  pm_is_extend :: bool
  pm_parents :: "string list"
  pm_elements :: "ProtoElement list"

record ProtoEnumField =
  pv_name :: string
  pv_integer :: int
  pv_options :: "ProtoOption list"

record ProtoEnum =
  pe_name :: string
  pe_parents :: "string list"
  pe_elements :: "ProtoEnumField option list"

text \<open>What \<^verbatim>\<open>proto.Walk\<close> hands to the handler.\<close>

datatype Visitee =
    ImportNode string string
  | SyntaxNode string
  | PackageNode string
  | OptionNode ProtoOption
  | MessageNode ProtoMessage
  | EnumNode ProtoEnum
  | OtherNode

subsection \<open>Definitions\<close>

definition ProtobufScalarTypes :: "string list" where
  "ProtobufScalarTypes = [''string'', ''bytes'', ''bool'', ''double'', ''float'', ''int32'', ''int64'',
     ''uint32'', ''uint64'', ''sint32'', ''sint64'', ''fixed32'', ''fixed64'', ''sfixed32'', ''sfixed64'']"

definition isScalar :: "string \<Rightarrow> bool" where
  "isScalar t \<longleftrightarrow> t \<in> set ProtobufScalarTypes"

definition TargetPlatform_Go :: string where "TargetPlatform_Go = ''go''"

record EnumValueOptionDefinition =
  eo_name :: string
  eo_repeated :: bool
  eo_scalar :: string
  eo_local_enum :: "nat option"
  eo_values :: "string list"
  eo_value :: string

record EnumValueDefinition =
  ev_name :: ScopedName
  ev_value :: int
  ev_proto :: ProtoEnumField
  ev_options :: "string \<rightharpoonup> EnumValueOptionDefinition"

record EnumDefinition =
  en_name :: ScopedName
  en_values :: "EnumValueDefinition list"
  en_proto :: ProtoEnum

record MessageFieldDefinition =
  fd_name :: ScopedName
  fd_repeated :: bool
  fd_map :: bool
  fd_oneof :: string
  fd_map_key :: string
  fd_required :: bool
  fd_scalar :: string
  fd_external_file :: "nat option"
  fd_external_enum :: "nat option"
  fd_external_msg :: "nat option"
  fd_local_enum :: "nat option"
  fd_local_msg :: "nat option"
  fd_proto :: ProtoField
  fd_extra_scopes :: "ScopedName list"
  fd_default :: "ProtoOption option"

text \<open>\<open>Copy\<close> copies every member, the slice of scopes into a new slice; a value is its own copy.\<close>

definition CopyField :: "MessageFieldDefinition \<Rightarrow> MessageFieldDefinition" where
  "CopyField m =
     \<lparr>fd_name = fd_name m, fd_repeated = fd_repeated m, fd_map = fd_map m, fd_oneof = fd_oneof m,
      fd_map_key = fd_map_key m, fd_required = fd_required m, fd_scalar = fd_scalar m,
      fd_external_file = fd_external_file m, fd_external_enum = fd_external_enum m,
      fd_external_msg = fd_external_msg m, fd_local_enum = fd_local_enum m, fd_local_msg = fd_local_msg m,
      fd_proto = fd_proto m, fd_extra_scopes = fd_extra_scopes m, fd_default = fd_default m\<rparr>"

record MessageDefinition =
  md_name :: ScopedName
  md_fields :: "MessageFieldDefinition list"
  md_proto :: ProtoMessage

record ProtoImport =
  im_path :: string
  im_target :: "nat option"
  im_kind :: string

record ProtoFile =
  pr_path :: "string list"
  pr_relative :: "string list"
  pr_proto2 :: bool
  pr_package :: "ScopedName option"
  pr_imports :: "ProtoImport list"
  pr_enums :: "EnumDefinition list"
  pr_messages :: "MessageDefinition list"
  pr_base :: "string list"

text \<open>A file as \<^verbatim>\<open>FindAllProtobufFiles\<close> lists it.\<close>

definition new_file :: "string list \<Rightarrow> string list \<Rightarrow> ProtoFile" where
  "new_file p rel = \<lparr>pr_path = p, pr_relative = rel, pr_proto2 = False, pr_package = None, pr_imports = [],
     pr_enums = [], pr_messages = [], pr_base = []\<rparr>"

text \<open>What the passes of the generator report.\<close>

datatype gen_error =
    GroupUnsupported "string list" string
  | ImportUnresolved string "string list"
  | ExtendUnresolved string ScopedName "string list"
  | ReferenceUnresolved string ScopedName "string list"
  | OptionUnknown string ScopedName

end
