(* ===== verification/Proto_Parser.thy ===== *)
theory Proto_Parser
  imports Proto_File
begin

section \<open>Extracting the definitions of a file\<close>

text \<open>
  \<^verbatim>\<open>shared/gremlin_go/gremlinc/internal/parser.go\<close>: the handler that \<^verbatim>\<open>proto.Walk\<close> calls for every
  node, in order. Files are walked concurrently, each by itself; the errors of all files are
  collected under a lock and are listed here in the order of the files.
\<close>

definition extractDefaultValue :: "ProtoField \<Rightarrow> ProtoOption option" where
  "extractDefaultValue f = List.find (\<lambda>o'. po_name o' = ''default'') (pf_options f)"

definition blank_field :: "ScopedName \<Rightarrow> ProtoField \<Rightarrow> MessageFieldDefinition" where
  "blank_field n f = \<lparr>fd_name = n, fd_repeated = False, fd_map = False, fd_oneof = [], fd_map_key = [],
     fd_required = False, fd_scalar = [], fd_external_file = None, fd_external_enum = None,
     fd_external_msg = None, fd_local_enum = None, fd_local_msg = None, fd_proto = f,
     fd_extra_scopes = [], fd_default = None\<rparr>"

definition with_scalar :: "string \<Rightarrow> MessageFieldDefinition \<Rightarrow> MessageFieldDefinition" where
  "with_scalar t f = (if isScalar t then f\<lparr>fd_scalar := t\<rparr> else f)"

definition extractField :: "ScopedName \<Rightarrow> ProtoField \<Rightarrow> bool \<Rightarrow> bool \<Rightarrow> MessageFieldDefinition" where
  "extractField n v repeated required =
     with_scalar (pf_type v) ((blank_field (Child n (pf_name v)) v)
       \<lparr>fd_repeated := repeated, fd_default := extractDefaultValue v, fd_required := required\<rparr>)"

definition extractBasicField :: "ScopedName \<Rightarrow> ProtoField \<Rightarrow> MessageFieldDefinition" where
  "extractBasicField n v =
     with_scalar (pf_type v) ((blank_field (Child n (pf_name v)) v)\<lparr>fd_default := extractDefaultValue v\<rparr>)"

definition extractMap :: "ScopedName \<Rightarrow> ProtoField \<Rightarrow> string \<Rightarrow> MessageFieldDefinition" where
  "extractMap n v keyType =
     with_scalar (pf_type v)
       (let f = (blank_field (Child n (pf_name v)) v)\<lparr>fd_map := True\<rparr> in
        if isScalar keyType then f\<lparr>fd_map_key := keyType\<rparr> else f)"

text \<open>\<open>parseStructElement\<close> and \<open>extractOneOf\<close>. A field inside a oneof is a \<open>OneOfField\<close>, whose
  inner field is taken.\<close>

fun parseStructElement :: "ScopedName \<Rightarrow> ProtoElement \<Rightarrow> MessageFieldDefinition list"
  and extractOneOf :: "ScopedName \<Rightarrow> string \<Rightarrow> ProtoElement list \<Rightarrow> MessageFieldDefinition list" where
  "parseStructElement n (NormalElement f repeated required) = [extractField n f repeated required]"
| "parseStructElement n (MapElement f keyType) = [extractMap n f keyType]"
| "parseStructElement n (OneofElement grp elements) = extractOneOf n grp elements"
| "parseStructElement n (OneofFieldElement f) = [extractBasicField n f]"
| "parseStructElement n (GroupElement g) = []"
| "parseStructElement n OtherElement = []"
| "extractOneOf n grp [] = []"
| "extractOneOf n grp (e # es) =
     map (\<lambda>f. f\<lparr>fd_oneof := grp\<rparr>) (parseStructElement n e) @ extractOneOf n grp es"

definition buildScopedName :: "ProtoFile \<Rightarrow> string list \<Rightarrow> string \<Rightarrow> ScopedName" where
  "buildScopedName pFile parents n =
     (case parents @ [n] of
        [] \<Rightarrow> emptyName
      | outermost # inner \<Rightarrow>
          foldl LocalChild
            (case pr_package pFile of None \<Rightarrow> ParseName outermost | Some p \<Rightarrow> Child p outermost) inner)"

text \<open>A group is reported and passed over; the other elements give their fields.\<close>

fun extractElements :: "ProtoFile \<Rightarrow> ScopedName \<Rightarrow> ProtoElement list \<Rightarrow> MessageFieldDefinition list \<times> gen_error list" where
  "extractElements pFile n [] = ([], [])"
| "extractElements pFile n (e # es) =
     (let (fields, errors) = extractElements pFile n es in
      case e of
        GroupElement g \<Rightarrow> (fields, GroupUnsupported (pr_path pFile) g # errors)
      | _ \<Rightarrow> (parseStructElement n e @ fields, errors))"

definition extractMessage :: "ProtoFile \<Rightarrow> ProtoMessage \<Rightarrow> MessageDefinition \<times> gen_error list" where
  "extractMessage pFile m =
     (let n = buildScopedName pFile (pm_parents m) (pm_name m);
          (fields, errors) = extractElements pFile n (pm_elements m)
      in (\<lparr>md_name = n, md_fields = fields, md_proto = m\<rparr>, errors))"

definition extractEnum :: "ProtoFile \<Rightarrow> ProtoEnum \<Rightarrow> EnumDefinition" where
  "extractEnum pFile e =
     (let n = buildScopedName pFile (pe_parents e) (pe_name e) in
      \<lparr>en_name = n,
       en_values = map (\<lambda>v. \<lparr>ev_name = Child n (pv_name v), ev_value = pv_integer v, ev_proto = v,
         ev_options = Map.empty\<rparr>) (List.map_filter id (pe_elements e)),
       en_proto = e\<rparr>)"

definition walkHandler :: "Visitee \<Rightarrow> ProtoFile \<times> gen_error list \<Rightarrow> ProtoFile \<times> gen_error list" where
  "walkHandler v = (\<lambda>(pFile, errors).
     case v of
       ImportNode filename kind \<Rightarrow>
         if filename = ''google/protobuf/descriptor.proto'' then (pFile, errors)
         else (pFile\<lparr>pr_imports := pr_imports pFile @ [\<lparr>im_path = filename, im_target = None, im_kind = kind\<rparr>]\<rparr>, errors)
     | SyntaxNode s \<Rightarrow> (if s = ''proto2'' then (pFile\<lparr>pr_proto2 := True\<rparr>, errors) else (pFile, errors))
     | PackageNode p \<Rightarrow> (pFile\<lparr>pr_package := Some (ParseName p)\<rparr>, errors)
     | OptionNode opt \<Rightarrow>
         if po_name opt = ''go_package'' then
           (let p = (case pr_package pFile of None \<Rightarrow> emptyName | Some p \<Rightarrow> p) in
            (pFile\<lparr>pr_package := Some (WithPlatformName p TargetPlatform_Go (po_source opt))\<rparr>, errors))
         else (pFile, errors)
     | MessageNode m \<Rightarrow>
         (let (msg, es) = extractMessage pFile m in
          (pFile\<lparr>pr_messages := pr_messages pFile @ [msg]\<rparr>, errors @ es))
     | EnumNode e \<Rightarrow> (pFile\<lparr>pr_enums := pr_enums pFile @ [extractEnum pFile e]\<rparr>, errors)
     | OtherNode \<Rightarrow> (pFile, errors))"

definition extractProtoStruct :: "ProtoFile \<Rightarrow> Visitee list \<Rightarrow> ProtoFile \<times> gen_error list" where
  "extractProtoStruct pFile visited = fold walkHandler visited (pFile, [])"

definition ParseStruct :: "(ProtoFile \<times> Visitee list) list \<Rightarrow> ProtoFile list \<times> gen_error list" where
  "ParseStruct targets =
     (let rs = map (\<lambda>(pFile, visited). extractProtoStruct pFile visited) targets
      in (map fst rs, concat (map snd rs)))"

subsection \<open>What is extracted\<close>

text \<open>A valid identifier has no dot and is not empty; \<open>idents\<close> are the ones a node brings.\<close>

definition ident :: "string \<Rightarrow> bool" where
  "ident n \<longleftrightarrow> n \<noteq> [] \<and> CHR ''.'' \<notin> set n"

definition package_path :: "ProtoFile \<Rightarrow> string list" where
  "package_path pFile = (case pr_package pFile of None \<Rightarrow> [] | Some p \<Rightarrow> path_of p)"

definition package_ok :: "ProtoFile \<Rightarrow> bool" where
  "package_ok pFile \<longleftrightarrow> (case pr_package pFile of None \<Rightarrow> True | Some p \<Rightarrow> name_ok p)"

lemma ident_components: "list_all ident xs \<Longrightarrow> components_ok xs"
  by (induction xs) (auto simp: ident_def)

lemma ParseName_ident: "ident n \<Longrightarrow> name_ok (ParseName n) \<and> path_of (ParseName n) = [n]"
  using ParseName_path [of n] split_on_plain [of "CHR ''.''" n] by (simp add: ident_def)

lemma foldl_LocalChild:
  "name_ok s \<Longrightarrow> list_all ident xs \<Longrightarrow> name_ok (foldl LocalChild s xs) \<and> path_of (foldl LocalChild s xs) = path_of s @ xs
    \<and> localPath (foldl LocalChild s xs) = localPath s @ (if xs = [] then [] else sn_name s # butlast xs)"
proof (induction xs arbitrary: s)
  case (Cons x xs)
  have c: "name_ok (LocalChild s x)" "path_of (LocalChild s x) = path_of s @ [x]"
    using LocalChild_path [of s x] Cons.prems by (simp_all add: ident_def)
  have "localPath (LocalChild s x) = localPath s @ [sn_name s]" "sn_name (LocalChild s x) = x"
    by (simp_all add: LocalChild_def Child_def Let_def)
  with Cons.IH [OF c(1)] Cons.prems(2) c(2) show ?case by auto
qed simp

text \<open>The name of a message or enum is the package, the messages around it and its own name,
  and its local path, from which the name of the generated type is made, are the messages around
  it.\<close>

lemma buildScopedName_path:
  assumes "package_ok pFile" and "list_all ident (parents @ [n])"
  shows "name_ok (buildScopedName pFile parents n)
    \<and> path_of (buildScopedName pFile parents n) = package_path pFile @ parents @ [n]
    \<and> LocalPath (buildScopedName pFile parents n) = parents"
proof -
  obtain o1 rest where o: "parents @ [n] = o1 # rest" by (cases "parents @ [n]") auto
  let ?s = "case pr_package pFile of None \<Rightarrow> ParseName o1 | Some p \<Rightarrow> Child p o1"
  have i: "ident o1" "list_all ident rest" using assms(2) unfolding o by simp_all
  have s: "name_ok ?s \<and> path_of ?s = package_path pFile @ [o1] \<and> localPath ?s = [] \<and> sn_name ?s = o1"
  proof (cases "pr_package pFile")
    case None
    have "localPath (ParseName o1) = []" "sn_name (ParseName o1) = o1"
      using i(1) split_on_plain [of "CHR ''.''" o1] by (simp_all add: ParseName_def Let_def emptyName_def ident_def)
    with None ParseName_ident [OF i(1)] show ?thesis by (simp add: package_path_def)
  next
    case (Some p)
    have "localPath (Child p o1) = []" "sn_name (Child p o1) = o1" by (simp_all add: Child_def Let_def emptyName_def)
    with Some assms(1) Child_path [of p o1] i(1) show ?thesis by (simp add: package_ok_def package_path_def ident_def)
  qed
  have "buildScopedName pFile parents n = foldl LocalChild ?s rest" by (simp add: buildScopedName_def o)
  moreover have "(if rest = [] then [] else o1 # butlast rest) = parents"
    using o by (cases parents) auto
  ultimately show ?thesis using foldl_LocalChild [of ?s rest] s i(2) o by (auto simp: LocalPath_def)
qed

lemma buildScopedName_path_witness:
  "name_ok (buildScopedName ((new_file [] [])\<lparr>pr_package := Some (ParseName ''a.b'')\<rparr>) [''M''] ''K'')
    \<and> path_of (buildScopedName ((new_file [] [])\<lparr>pr_package := Some (ParseName ''a.b'')\<rparr>) [''M''] ''K'')
      = package_path ((new_file [] [])\<lparr>pr_package := Some (ParseName ''a.b'')\<rparr>) @ [''M''] @ [''K'']
    \<and> LocalPath (buildScopedName ((new_file [] [])\<lparr>pr_package := Some (ParseName ''a.b'')\<rparr>) [''M''] ''K'') = [''M'']"
proof (rule buildScopedName_path)
  show "package_ok ((new_file [] [])\<lparr>pr_package := Some (ParseName ''a.b'')\<rparr>)"
    using ParseName_path [of "''a.b''"] by (simp add: package_ok_def)
qed (simp add: ident_def)

text \<open>Fields: their names lie in the message, scalar types are the scalar types of the language, and
  the members of a oneof carry its name.\<close>

definition field_ok :: "ScopedName \<Rightarrow> MessageFieldDefinition \<Rightarrow> bool" where
  "field_ok n f \<longleftrightarrow> fd_name f = Child n (pf_name (fd_proto f))
     \<and> (fd_scalar f = (if isScalar (pf_type (fd_proto f)) then pf_type (fd_proto f) else []))
     \<and> (fd_map_key f = [] \<or> isScalar (fd_map_key f) \<and> fd_map f)
     \<and> fd_local_enum f = None \<and> fd_local_msg f = None \<and> fd_external_file f = None
     \<and> fd_extra_scopes f = []"

lemma with_scalar_simps [simp]:
  "fd_name (with_scalar t f) = fd_name f" "fd_proto (with_scalar t f) = fd_proto f"
  "fd_map (with_scalar t f) = fd_map f" "fd_map_key (with_scalar t f) = fd_map_key f"
  "fd_scalar (with_scalar t f) = (if isScalar t then t else fd_scalar f)"
  "fd_local_enum (with_scalar t f) = fd_local_enum f" "fd_local_msg (with_scalar t f) = fd_local_msg f"
  "fd_external_file (with_scalar t f) = fd_external_file f" "fd_extra_scopes (with_scalar t f) = fd_extra_scopes f"
  by (simp_all add: with_scalar_def)

lemma blank_field_simps [simp]: "fd_proto (blank_field n f) = f" "fd_name (blank_field n f) = n"
  "fd_scalar (blank_field n f) = []" "fd_map_key (blank_field n f) = []" "fd_local_enum (blank_field n f) = None"
  "fd_local_msg (blank_field n f) = None" "fd_external_file (blank_field n f) = None"
  "fd_extra_scopes (blank_field n f) = []"
  by (simp_all add: blank_field_def)

lemma parseStructElement_ok:
  "list_all (field_ok n) (parseStructElement n e)"
  "list_all (\<lambda>f. field_ok n f \<and> fd_oneof f = g) (extractOneOf n g es)"
  by (induction n e and n g es rule: parseStructElement_extractOneOf.induct)
    (auto simp: field_ok_def extractField_def extractMap_def extractBasicField_def Let_def list_all_iff)

lemma extractElements_ok: "list_all (field_ok n) (fst (extractElements pFile n es))"
proof (induction es)
  case (Cons e es)
  obtain fs errs where r: "extractElements pFile n es = (fs, errs)" by force
  have "fst (extractElements pFile n (e # es)) = (case e of GroupElement g \<Rightarrow> fs | _ \<Rightarrow> parseStructElement n e @ fs)"
    by (simp add: r split: ProtoElement.split)
  with Cons parseStructElement_ok(1) [of n e] show ?case by (cases e) (simp_all add: r)
qed simp

fun is_group :: "ProtoElement \<Rightarrow> bool" where
  "is_group (GroupElement g) = True"
| "is_group _ = False"

text \<open>Every message the walk of a file extracts has fields whose names, types and map keys are
  those of the parse tree, with no reference resolved yet; it reports one error for each group.\<close>

lemma extractMessage_ok:
  "list_all (field_ok (md_name (fst (extractMessage pFile m)))) (md_fields (fst (extractMessage pFile m)))
    \<and> length (snd (extractMessage pFile m))
      = length (List.filter is_group (pm_elements m))"
proof -
  have "length (snd (extractElements pFile n es)) = length (List.filter is_group es)" for n es
  proof (induction es)
    case (Cons e es)
    obtain fs errs where "extractElements pFile n es = (fs, errs)" by force
    with Cons show ?case by (cases e) simp_all
  qed simp
  then show ?thesis
    using extractElements_ok [of "buildScopedName pFile (pm_parents m) (pm_name m)" pFile "pm_elements m"]
    by (auto simp: extractMessage_def Let_def split: prod.splits) (metis snd_conv)
qed

text \<open>A group inside a oneof is dropped without an error.\<close>

lemma oneof_group_dropped:
  "extractElements pFile n [OneofElement ''o'' [GroupElement ''g'']] = ([], [])"
  by simp

text \<open>The Go package is kept only when the package statement comes before the option.\<close>

lemma package_after_option:
  "map_option (\<lambda>p. PlatformName p TargetPlatform_Go) (pr_package (fst (extractProtoStruct f
      [PackageNode ''a'', OptionNode \<lparr>po_name = ''go_package'', po_source = ''x'', po_is_string = True\<rparr>]))) = Some ''x''"
  "map_option (\<lambda>p. PlatformName p TargetPlatform_Go) (pr_package (fst (extractProtoStruct f
      [OptionNode \<lparr>po_name = ''go_package'', po_source = ''x'', po_is_string = True\<rparr>, PackageNode ''a'']))) = Some []"
  by (simp_all add: extractProtoStruct_def walkHandler_def ParseName_def Let_def WithPlatformName_def PlatformName_def emptyName_def)

end
