(* ===== verification/Proto_Imports.thy ===== *)
theory Proto_Imports
  imports Proto_Parser
begin

section \<open>Base folders and imports\<close>

text \<open>
  \<^verbatim>\<open>shared/gremlin_go/gremlinc/internal/imports.go\<close>: imports are looked up below a base folder that
  is found from the tree of the directories of all files. \<^verbatim>\<open>log.Fatalf\<close> ends the program, a value
  of \<open>fatal\<close>. The theorem compares the tree with the longest common prefix of the directories.
\<close>

datatype fsNode = FsNode (node_path: "string list") (node_children: "fsNode list") (node_files: "nat list")

function (sequential) insertFile :: "string list \<Rightarrow> nat \<Rightarrow> fsNode \<Rightarrow> fsNode"
  and insertChild :: "string list \<Rightarrow> string list \<Rightarrow> nat \<Rightarrow> fsNode list \<Rightarrow> fsNode list" where
  "insertFile [] i (FsNode p cs fs) = FsNode p cs (fs @ [i])"
| "insertFile (part # ps) i (FsNode p cs fs) = FsNode p (insertChild (p @ [part]) ps i cs) fs"
| "insertChild q ps i [] = [insertFile ps i (FsNode q [] [])]"
| "insertChild q ps i (c # cs) =
     (if node_path c = q then insertFile ps i c # cs else c # insertChild q ps i cs)"
  by pat_completeness auto

termination
  by (relation "measures [\<lambda>x. case x of Inl (ps, _, _) \<Rightarrow> length ps | Inr (_, ps, _, _) \<Rightarrow> length ps,
      \<lambda>x. case x of Inl _ \<Rightarrow> 0 | Inr (_, _, _, cs) \<Rightarrow> Suc (length cs)]") auto

text \<open>The parts of the directory of a file.\<close>

definition dirParts :: "ProtoFile \<Rightarrow> string list" where
  "dirParts f = List.filter (\<lambda>part. part \<noteq> []) (butlast (pr_path f))"

definition buildTree :: "ProtoFile list \<Rightarrow> fsNode" where
  "buildTree parsed = foldl (\<lambda>root i. insertFile (dirParts (parsed ! i)) i root) (FsNode [] [] []) [0..<length parsed]"

fun descend :: "fsNode \<Rightarrow> fsNode" where
  "descend (FsNode p [c] []) = descend c"
| "descend n = n"

fun recursivelyAssignImportBaseFolder :: "string list \<Rightarrow> fsNode \<Rightarrow> (nat \<times> string list) list" where
  "recursivelyAssignImportBaseFolder base (FsNode p cs fs) =
     map (\<lambda>i. (i, base)) fs @ concat (map (recursivelyAssignImportBaseFolder base) cs)"

definition assignBaseFolder :: "fsNode \<Rightarrow> (nat \<times> string list) list" where
  "assignBaseFolder root =
     (if length (node_files root) > 0 then map (\<lambda>i. (i, node_path root)) (node_files root) else [])
     @ concat (map (\<lambda>c. recursivelyAssignImportBaseFolder (node_path c) c) (node_children root))"

datatype fatal = NoFiles "string list" | Ambiguous "string list"

definition set_bases :: "(nat \<times> string list) list \<Rightarrow> ProtoFile list \<Rightarrow> ProtoFile list" where
  "set_bases bs fs = foldl (\<lambda>fs (i, b). fs[i := (fs ! i)\<lparr>pr_base := b\<rparr>]) fs bs"

definition resolveBaseFolders :: "ProtoFile list \<Rightarrow> fatal + ProtoFile list" where
  "resolveBaseFolders parsed =
     (let root = descend (buildTree parsed);
          hasChildren = length (node_children root) > 0;
          hasFiles = length (node_files root) > 0
      in
      if \<not> hasChildren \<and> \<not> hasFiles then Inl (NoFiles (node_path root))
      else if hasFiles \<and> hasChildren then Inl (Ambiguous (node_path root))
      else Inr (set_bases (assignBaseFolder root) parsed))"

subsection \<open>Imports\<close>

text \<open>\<^verbatim>\<open>filepath.Join\<close> on an absolute path: the result is cleaned.\<close>

definition joinPath :: "string list \<Rightarrow> string \<Rightarrow> string list" where
  "joinPath base rel = foldl (\<lambda>acc c. if c = [] \<or> c = ''.'' then acc else if c = ''..'' then butlast acc else acc @ [c])
     base (split_on (CHR ''/'') rel)"

text \<open>\<open>parsedMap\<close>: the files by their path; a path given twice maps to the last file.\<close>

definition findFile :: "ProtoFile list \<Rightarrow> string list \<Rightarrow> nat option" where
  "findFile parsed p = List.find (\<lambda>i. pr_path (parsed ! i) = p) (rev [0..<length parsed])"

fun resolveImportList :: "ProtoFile list \<Rightarrow> ProtoFile \<Rightarrow> ProtoImport list \<Rightarrow> ProtoImport list \<times> gen_error list" where
  "resolveImportList parsed pFile [] = ([], [])"
| "resolveImportList parsed pFile (imp # is) =
     (let p = joinPath (pr_base pFile) (im_path imp); (is', errors) = resolveImportList parsed pFile is in
      case findFile parsed p of
        Some t \<Rightarrow> (imp\<lparr>im_target := Some t\<rparr> # is', errors)
      | None \<Rightarrow> (imp # is', ImportUnresolved (im_path imp) (pr_relative pFile) # errors))"

definition resolveImports :: "ProtoFile list \<Rightarrow> ProtoFile \<Rightarrow> ProtoFile \<times> gen_error list" where
  "resolveImports parsed pFile =
     (if length (pr_imports pFile) = 0 then (pFile, [])
      else let (is, errors) = resolveImportList parsed pFile (pr_imports pFile) in (pFile\<lparr>pr_imports := is\<rparr>, errors))"

definition publicImports :: "ProtoFile \<Rightarrow> ProtoImport list" where
  "publicImports f = List.filter (\<lambda>i. im_kind i = ''public'') (pr_imports f)"

text \<open>The loop ranges over the imports the file has at its start; the imports of a target are read
  when its turn comes.\<close>

definition addPublic :: "nat \<Rightarrow> ProtoFile list \<Rightarrow> ProtoImport \<Rightarrow> ProtoFile list" where
  "addPublic i parsed imp =
     (case im_target imp of
        None \<Rightarrow> parsed
      | Some t \<Rightarrow> parsed[i := (parsed ! i)\<lparr>pr_imports := pr_imports (parsed ! i) @ publicImports (parsed ! t)\<rparr>])"

definition addPublicImports :: "nat \<Rightarrow> ProtoFile list \<Rightarrow> ProtoFile list" where
  "addPublicImports i parsed = foldl (addPublic i) parsed (pr_imports (parsed ! i))"

definition addAllPublicImports :: "ProtoFile list \<Rightarrow> ProtoFile list" where
  "addAllPublicImports parsed = foldl (\<lambda>parsed i. addPublicImports i parsed) parsed [0..<length parsed]"

subsection \<open>The tree\<close>

fun entries :: "fsNode \<Rightarrow> (string list \<times> nat) list" where
  "entries (FsNode p cs fs) = map (\<lambda>i. (p, i)) fs @ concat (map entries cs)"

fun tree_ok :: "fsNode \<Rightarrow> bool" where
  "tree_ok (FsNode p cs fs) \<longleftrightarrow> distinct (map node_path cs)
     \<and> list_all (\<lambda>c. tree_ok c \<and> butlast (node_path c) = p \<and> node_path c \<noteq> [] \<and> entries c \<noteq> []) cs"

lemma insertFile_path [simp]: "node_path (insertFile ps i n) = node_path n"
  by (cases n; cases ps) auto

lemma insertFile_entries:
  "set (entries (insertFile ps i n)) = insert (node_path n @ ps, i) (set (entries n))"
  "set (concat (map entries (insertChild q ps i cs))) = insert (q @ ps, i) (set (concat (map entries cs)))"
  by (induction ps i n and q ps i cs rule: insertFile_insertChild.induct) auto

lemma insertChild_paths:
  "set (map node_path (insertChild q ps i cs)) = insert q (set (map node_path cs))"
  "distinct (map node_path cs) \<Longrightarrow> distinct (map node_path (insertChild q ps i cs))"
  by (induction cs) (auto simp del: set_map simp: set_map [symmetric])

lemma insertFile_ok:
  "tree_ok n \<Longrightarrow> tree_ok (insertFile ps i n)"
  "list_all (\<lambda>c. tree_ok c \<and> butlast (node_path c) = p \<and> node_path c \<noteq> [] \<and> entries c \<noteq> []) cs \<Longrightarrow> q \<noteq> [] \<Longrightarrow> butlast q = p
    \<Longrightarrow> list_all (\<lambda>c. tree_ok c \<and> butlast (node_path c) = p \<and> node_path c \<noteq> [] \<and> entries c \<noteq> []) (insertChild q ps i cs)"
proof (induction ps i n and q ps i cs arbitrary: and p rule: insertFile_insertChild.induct)
  case (2 part ps i p cs fs)
  then show ?case using insertChild_paths(2) by simp
next
  case (3 q ps i)
  have "entries (insertFile ps i (FsNode q [] [])) \<noteq> []"
    using insertFile_entries(1) [of ps i "FsNode q [] []"] by (metis empty_iff insert_not_empty list.set(1))
  with 3 show ?case by simp
next
  case (4 q ps i c cs)
  have "entries (insertFile ps i c) \<noteq> []"
    using insertFile_entries(1) [of ps i c] by (metis empty_iff insert_not_empty list.set(1))
  with 4 show ?case by auto
qed auto

lemma entries_prefix: "tree_ok n \<Longrightarrow> (d, i) \<in> set (entries n) \<Longrightarrow> prefix (node_path n) d"
proof (induction n rule: entries.induct)
  case (1 p cs fs)
  then consider "d = p" | c where "c \<in> set cs" "(d, i) \<in> set (entries c)" by auto
  then show ?case
  proof cases
    case (2 c)
    with 1 have "prefix (node_path c) d" "butlast (node_path c) = p" by (auto simp: list_all_iff)
    then show ?thesis by (metis fsNode.sel(1) prefix_order.trans prefixeq_butlast)
  qed simp
qed

lemma child_path:
  assumes "tree_ok (FsNode p cs fs)" and "c \<in> set cs" and "(d, i) \<in> set (entries c)"
  shows "node_path c = take (Suc (length p)) d" and "d \<noteq> p"
proof -
  have c: "tree_ok c" "butlast (node_path c) = p" "node_path c \<noteq> []" using assms(1,2) by (auto simp: list_all_iff)
  then have l: "length (node_path c) = Suc (length p)" by (cases "node_path c" rule: rev_cases) auto
  have pre: "prefix (node_path c) d" using entries_prefix [OF c(1) assms(3)] .
  then show "node_path c = take (Suc (length p)) d" using l by (auto simp: prefix_def)
  show "d \<noteq> p" using prefix_length_le [OF pre] l by auto
qed

lemma descend_keeps: "tree_ok n \<Longrightarrow> tree_ok (descend n) \<and> entries (descend n) = entries n"
  by (induction n rule: descend.induct) auto

lemma descend_stops: "descend n \<noteq> FsNode p [c] []"
  by (induction n rule: descend.induct) auto

lemma buildTree_spec:
  "tree_ok (buildTree parsed)
    \<and> set (entries (buildTree parsed)) = (\<lambda>i. (dirParts (parsed ! i), i)) ` {..<length parsed}"
proof -
  let ?t = "\<lambda>n. foldl (\<lambda>root i. insertFile (dirParts (parsed ! i)) i root) (FsNode [] [] []) [0..<n]"
  have "tree_ok (?t n) \<and> node_path (?t n) = []
      \<and> set (entries (?t n)) = (\<lambda>i. (dirParts (parsed ! i), i)) ` {..<n}" for n
    by (induction n) (simp_all add: insertFile_ok insertFile_entries lessThan_Suc)
  then show ?thesis by (simp add: buildTree_def)
qed

lemma assign_all: "set (recursivelyAssignImportBaseFolder b n) = (\<lambda>(d, i). (i, b)) ` set (entries n)"
  by (induction b n rule: recursivelyAssignImportBaseFolder.induct) (auto simp: image_iff; force)

definition base_of :: "string list \<Rightarrow> string list \<Rightarrow> string list" where
  "base_of r d = (if d = r then r else take (Suc (length r)) d)"

lemma assignBaseFolder_spec:
  assumes "tree_ok n"
  shows "set (assignBaseFolder n) = (\<lambda>(d, i). (i, base_of (node_path n) d)) ` set (entries n)"
proof (cases n)
  case (FsNode p cs fs)
  have "set (recursivelyAssignImportBaseFolder (node_path c) c) = (\<lambda>(d, i). (i, base_of p d)) ` set (entries c)"
    if "c \<in> set cs" for c
    unfolding assign_all using child_path [OF assms [unfolded FsNode] that]
    by (intro image_cong) (auto simp: base_of_def)
  then have "(\<Union>c \<in> set cs. set (recursivelyAssignImportBaseFolder (node_path c) c))
      = (\<lambda>(d, i). (i, base_of p d)) ` (\<Union>c \<in> set cs. set (entries c))"
    by (simp add: image_UN)
  moreover have "(\<lambda>i. (i, p)) ` set fs = (\<lambda>(d, i). (i, base_of p d)) ` (\<lambda>i. (p, i)) ` set fs"
    by (auto simp: base_of_def image_iff)
  ultimately show ?thesis by (auto simp: FsNode assignBaseFolder_def image_Un)
qed

text \<open>The root that is found is the longest common prefix of all directories.\<close>

lemma root_is_common_prefix:
  assumes "tree_ok n" and "\<And>p c. n \<noteq> FsNode p [c] []" and "entries n \<noteq> []"
  shows "Longest_common_prefix (fst ` set (entries n)) = node_path n"
proof (rule Longest_common_prefix_eq)
  show "fst ` set (entries n) \<noteq> {}" using assms(3) by simp
  show "\<forall>xs \<in> fst ` set (entries n). prefix (node_path n) xs"
    using entries_prefix [OF assms(1)] by auto
  show "\<forall>qs. (\<forall>xs \<in> fst ` set (entries n). prefix qs xs) \<longrightarrow> length qs \<le> length (node_path n)"
  proof (intro allI impI)
    fix qs assume qs: "\<forall>xs \<in> fst ` set (entries n). prefix qs xs"
    obtain p cs fs where n: "n = FsNode p cs fs" by (cases n)
    show "length qs \<le> length (node_path n)"
    proof (cases fs)
      case (Cons f fs')
      then have "prefix qs p" using qs by (auto simp: n)
      then show ?thesis by (simp add: n prefix_length_le)
    next
      case Nil
      then obtain c1 c2 cs' where cs: "cs = c1 # c2 # cs'"
        using assms(2,3) n by (cases cs; cases "tl cs") auto
      have ok: "tree_ok (FsNode p cs fs)" using assms(1) n by simp
      obtain d1 i1 d2 i2 where d: "(d1, i1) \<in> set (entries c1)" "(d2, i2) \<in> set (entries c2)"
        using ok by (simp add: cs) (metis list.set_intros(1) neq_Nil_conv surj_pair)
      have "node_path c1 = take (Suc (length p)) d1" "node_path c2 = take (Suc (length p)) d2"
        using child_path(1) [OF ok _ d(1)] child_path(1) [OF ok _ d(2)] by (simp_all add: cs)
      moreover have "node_path c1 \<noteq> node_path c2" using ok by (simp add: cs)
      moreover have "prefix qs d1" "prefix qs d2" using qs d by (force simp: n cs)+
      moreover have "take k d = take k qs" if "prefix qs d" "k \<le> length qs" for k d
        using that by (auto simp: prefix_def)
      ultimately have "\<not> Suc (length p) \<le> length qs" by metis
      then show ?thesis by (simp add: n)
    qed
  qed
qed

lemma set_bases_nth:
  assumes "\<And>i b. (i, b) \<in> set bs \<Longrightarrow> b = g i" and "i < length fs"
  shows "length (set_bases bs fs) = length fs"
    and "set_bases bs fs ! i = (if i \<in> fst ` set bs then (fs ! i)\<lparr>pr_base := g i\<rparr> else fs ! i)"
proof -
  have "length (set_bases bs fs) = length fs
    \<and> set_bases bs fs ! i = (if i \<in> fst ` set bs then (fs ! i)\<lparr>pr_base := g i\<rparr> else fs ! i)"
    using assms
  proof (induction bs arbitrary: fs)
    case (Cons x bs)
    obtain j b where x: "x = (j, b)" by force
    have b: "b = g j" using Cons.prems(1) [of j b] x by simp
    have step: "set_bases (x # bs) fs = set_bases bs (fs[j := (fs ! j)\<lparr>pr_base := g j\<rparr>])"
      by (simp add: set_bases_def x b)
    show ?case
      unfolding step using Cons.IH [of "fs[j := (fs ! j)\<lparr>pr_base := g j\<rparr>]"] Cons.prems
      by (cases "i = j") (auto simp: x)
  qed (simp add: set_bases_def)
  then show "length (set_bases bs fs) = length fs"
    "set_bases bs fs ! i = (if i \<in> fst ` set bs then (fs ! i)\<lparr>pr_base := g i\<rparr> else fs ! i)" by simp_all
qed

lemma set_bases_all:
  assumes "\<And>i b. (i, b) \<in> set bs \<Longrightarrow> b = g (fs ! i)" and "{..<length fs} \<subseteq> fst ` set bs"
  shows "set_bases bs fs = map (\<lambda>f. f\<lparr>pr_base := g f\<rparr>) fs"
proof (cases "fs = []")
  case True
  have "set_bases bs ([] :: ProtoFile list) = []" by (induction bs) (auto simp: set_bases_def)
  with True show ?thesis by simp
next
  case False
  show ?thesis
  proof (rule nth_equalityI)
    show "length (set_bases bs fs) = length (map (\<lambda>f. f\<lparr>pr_base := g f\<rparr>) fs)"
      using set_bases_nth(1) [of bs "\<lambda>i. g (fs ! i)" 0 fs] assms(1) False by simp
    then show "set_bases bs fs ! i = map (\<lambda>f. f\<lparr>pr_base := g f\<rparr>) fs ! i" if "i < length (set_bases bs fs)" for i
      using that set_bases_nth(2) [of bs "\<lambda>i. g (fs ! i)" i fs] assms by auto
  qed
qed

text \<open>C17: the base folder of every file is given by the longest common prefix of the directories:
  that prefix itself when all files are in it, else the next directory on the way to the file;
  files both in it and below it end the program.\<close>

theorem resolveBaseFolders_spec:
  assumes "parsed \<noteq> []"
  shows "resolveBaseFolders parsed =
    (let D = set (map dirParts parsed); r = Longest_common_prefix D in
     if D = {r} then Inr (map (\<lambda>f. f\<lparr>pr_base := r\<rparr>) parsed)
     else if r \<in> D then Inl (Ambiguous r)
     else Inr (map (\<lambda>f. f\<lparr>pr_base := take (Suc (length r)) (dirParts f)\<rparr>) parsed))"
proof -
  let ?D = "set (map dirParts parsed)"
  obtain p cs fs where n: "descend (buildTree parsed) = FsNode p cs fs" by (cases "descend (buildTree parsed)")
  have ok: "tree_ok (FsNode p cs fs)"
    and ent: "set (entries (FsNode p cs fs)) = (\<lambda>i. (dirParts (parsed ! i), i)) ` {..<length parsed}"
    using descend_keeps buildTree_spec [of parsed] n by metis+
  have D: "fst ` set (entries (FsNode p cs fs)) = ?D"
  proof -
    have "(\<lambda>i. dirParts (parsed ! i)) ` {..<length parsed} = dirParts ` ((!) parsed ` {..<length parsed})"
      by (simp add: image_image)
    also have "(!) parsed ` {..<length parsed} = set parsed" by (auto simp: in_set_conv_nth)
    finally show ?thesis unfolding ent by (simp add: image_image)
  qed
  have ne: "entries (FsNode p cs fs) \<noteq> []"
  proof
    assume "entries (FsNode p cs fs) = []"
    with ent have "{..<length parsed} = {}" by simp
    with assms show False by auto
  qed
  have lcp: "Longest_common_prefix ?D = p"
    using root_is_common_prefix [OF ok _ ne] descend_stops n D by fastforce
  have bases: "set_bases (assignBaseFolder (FsNode p cs fs)) parsed
      = map (\<lambda>f. f\<lparr>pr_base := base_of p (dirParts f)\<rparr>) parsed"
    by (rule set_bases_all [where g = "\<lambda>f. base_of p (dirParts f)"])
      (auto simp: assignBaseFolder_spec [OF ok] ent image_image image_iff simp del: entries.simps)
  have files: "fs \<noteq> [] \<longleftrightarrow> p \<in> ?D"
  proof -
    have "p \<in> fst ` set (entries (FsNode p cs fs))" if "fs \<noteq> []" using that by (cases fs) auto
    moreover have "p \<notin> fst ` set (entries (FsNode p cs fs))" if "fs = []"
      using child_path(2) [OF ok] that by (auto, blast)
    ultimately have "p \<in> fst ` set (entries (FsNode p cs fs)) \<longleftrightarrow> fs \<noteq> []" by blast
    then show ?thesis unfolding D by blast
  qed
  have children: "cs = [] \<longleftrightarrow> ?D = {p}"
  proof
    assume "cs = []"
    with ne show "?D = {p}" unfolding D [symmetric] by (cases fs) (auto simp: image_iff)
  next
    assume D1: "?D = {p}"
    show "cs = []"
    proof (rule ccontr)
      assume "cs \<noteq> []"
      then obtain c cs' where cs: "cs = c # cs'" by (cases cs) auto
      then obtain d i where d: "(d, i) \<in> set (entries c)" using ok by (simp add: cs) (metis neq_Nil_conv list.set_intros(1) surj_pair)
      have "d \<in> ?D" unfolding D [symmetric] using d cs by force
      with D1 child_path(2) [OF ok _ d] cs show False by simp
    qed
  qed
  have "cs \<noteq> [] \<or> fs \<noteq> []" using ne by auto
  then show ?thesis
    unfolding resolveBaseFolders_def Let_def n lcp
    using bases files children by (auto simp: base_of_def cong: map_cong)
qed

lemma resolveBaseFolders_spec_witness:
  "resolveBaseFolders [new_file [''p'', ''a'', ''x.proto''] [], new_file [''p'', ''b'', ''c'', ''y.proto''] []] =
    (let D = set (map dirParts [new_file [''p'', ''a'', ''x.proto''] [], new_file [''p'', ''b'', ''c'', ''y.proto''] []]);
         r = Longest_common_prefix D in
     if D = {r} then Inr (map (\<lambda>f. f\<lparr>pr_base := r\<rparr>)
       [new_file [''p'', ''a'', ''x.proto''] [], new_file [''p'', ''b'', ''c'', ''y.proto''] []])
     else if r \<in> D then Inl (Ambiguous r)
     else Inr (map (\<lambda>f. f\<lparr>pr_base := take (Suc (length r)) (dirParts f)\<rparr>)
       [new_file [''p'', ''a'', ''x.proto''] [], new_file [''p'', ''b'', ''c'', ''y.proto''] []]))"
  by (rule resolveBaseFolders_spec) simp

subsection \<open>What a file sees of its imports\<close>

text \<open>Imports are only added, at the end.\<close>

definition extends :: "ProtoFile list \<Rightarrow> ProtoFile list \<Rightarrow> bool" where
  "extends fs fs' \<longleftrightarrow> length fs' = length fs \<and> (\<forall>j. \<exists>more. pr_imports (fs' ! j) = pr_imports (fs ! j) @ more)"

lemma extends_refl [simp]: "extends fs fs" by (simp add: extends_def)

lemma extends_trans: "extends a b \<Longrightarrow> extends b c \<Longrightarrow> extends a c"
  unfolding extends_def by (metis append_assoc)

lemma extends_imports: "extends fs fs' \<Longrightarrow> set (pr_imports (fs ! j)) \<subseteq> set (pr_imports (fs' ! j))"
  unfolding extends_def by (metis Un_upper1 set_append)

lemma extends_public: "extends fs fs' \<Longrightarrow> set (publicImports (fs ! j)) \<subseteq> set (publicImports (fs' ! j))"
  using extends_imports by (auto simp: publicImports_def)

lemma addPublic_extends: "extends fs (addPublic i fs imp)"
  by (cases "i < length fs") (auto simp: extends_def addPublic_def nth_list_update list_update_beyond split: option.split)

lemma foldl_extends: "(\<And>fs x. extends fs (f fs x)) \<Longrightarrow> extends fs (foldl f fs xs)"
  by (induction xs arbitrary: fs) (auto intro: extends_trans)

lemma foldl_addPublic:
  assumes "imp \<in> set imps" and "im_target imp = Some t" and "i < length fs"
  shows "set (publicImports (fs ! t)) \<subseteq> set (pr_imports (foldl (addPublic i) fs imps ! i))"
  using assms(1,3)
proof (induction imps arbitrary: fs)
  case (Cons x imps)
  let ?fs = "addPublic i fs x"
  have e: "extends fs ?fs" by (rule addPublic_extends)
  show ?case
  proof (cases "x = imp")
    case True
    then have "set (publicImports (fs ! t)) \<subseteq> set (pr_imports (?fs ! i))"
      using assms(2) Cons.prems(2) by (simp add: addPublic_def)
    also have "\<dots> \<subseteq> set (pr_imports (foldl (addPublic i) ?fs imps ! i))"
      by (rule extends_imports [OF foldl_extends [OF addPublic_extends]])
    finally show ?thesis by simp
  next
    case False
    have "i < length ?fs" using e Cons.prems(2) by (simp add: extends_def)
    with False Cons have "set (publicImports (?fs ! t)) \<subseteq> set (pr_imports (foldl (addPublic i) ?fs imps ! i))" by simp
    with extends_public [OF e, of t] show ?thesis by auto
  qed
qed simp

text \<open>After all files have been visited, every file keeps its imports and sees the public
  imports of every file it imports itself.\<close>

lemma addAllPublicImports_direct:
  assumes "i < length parsed" and "imp \<in> set (pr_imports (parsed ! i))" and "im_target imp = Some t"
  shows "imp \<in> set (pr_imports (addAllPublicImports parsed ! i))
    \<and> set (publicImports (parsed ! t)) \<subseteq> set (pr_imports (addAllPublicImports parsed ! i))"
proof -
  let ?f = "\<lambda>parsed i. addPublicImports i parsed"
  have f: "extends fs (?f fs j)" for fs j
    unfolding addPublicImports_def by (rule foldl_extends [OF addPublic_extends])
  have "[0..<length parsed] = [0..<i] @ i # [Suc i..<length parsed]"
    using assms(1) upt_add_eq_append [of 0 i "length parsed - i"] by (simp add: upt_conv_Cons)
  then have all: "addAllPublicImports parsed = foldl ?f (?f (foldl ?f parsed [0..<i]) i) [Suc i..<length parsed]"
    by (simp add: addAllPublicImports_def)
  let ?p = "foldl ?f parsed [0..<i]"
  have e: "extends parsed ?p" by (rule foldl_extends [OF f])
  have "i < length ?p" using e assms(1) by (simp add: extends_def)
  moreover have imp: "imp \<in> set (pr_imports (?p ! i))" using extends_imports [OF e] assms(2) by blast
  ultimately have "set (publicImports (?p ! t)) \<subseteq> set (pr_imports (?f ?p i ! i))"
    unfolding addPublicImports_def using foldl_addPublic assms(3) by blast
  moreover have "extends (?f ?p i) (addAllPublicImports parsed)" unfolding all by (rule foldl_extends [OF f])
  moreover have "imp \<in> set (pr_imports (?f ?p i ! i))" using extends_imports [OF f] imp by blast
  ultimately show ?thesis using extends_public [OF e, of t] extends_imports by blast
qed

definition demo_import :: "nat \<Rightarrow> string \<Rightarrow> ProtoImport" where
  "demo_import t kind = \<lparr>im_path = [], im_target = Some t, im_kind = kind\<rparr>"

definition demo_files :: "ProtoImport list list \<Rightarrow> ProtoFile list" where
  "demo_files = map (\<lambda>imps. (new_file [] [])\<lparr>pr_imports := imps\<rparr>)"

lemma addAllPublicImports_direct_witness:
  "demo_import 1 [] \<in> set (pr_imports (addAllPublicImports (demo_files [[demo_import 1 []], [demo_import 2 ''public''], []]) ! 0))
    \<and> set (publicImports (demo_files [[demo_import 1 []], [demo_import 2 ''public''], []] ! 1))
      \<subseteq> set (pr_imports (addAllPublicImports (demo_files [[demo_import 1 []], [demo_import 2 ''public''], []]) ! 0))"
  by (rule addAllPublicImports_direct) (simp_all add: demo_files_def demo_import_def)

text \<open>A public import of a public import is seen only when the file between is visited first: the
  first file imports the second, which imports the third publicly, which imports the fourth
  publicly; in the other order of the files the importer sees all of them.\<close>

lemma public_imports_depend_on_order:
  "map im_target (pr_imports (addAllPublicImports (demo_files
     [[demo_import 1 []], [demo_import 2 ''public''], [demo_import 3 ''public''], []]) ! 0)) = [Some 1, Some 2]"
  "map im_target (pr_imports (addAllPublicImports (demo_files
     [[], [demo_import 0 ''public''], [demo_import 1 ''public''], [demo_import 2 []]]) ! 3)) = [Some 2, Some 1, Some 0]"
  by (simp_all add: addAllPublicImports_def addPublicImports_def addPublic_def publicImports_def demo_files_def
      demo_import_def new_file_def upt_rec)

end
