(* ===== verification/Proto_Resolving.thy ===== *)
theory Proto_Resolving
  imports Proto_Imports
begin

section \<open>Resolving extensions, references and options\<close>

text \<open>
  \<^verbatim>\<open>shared/gremlin_go/gremlinc/internal/resolving.go\<close> and the driver
  \<open>ResolveImportsAndReferences\<close> of \<^verbatim>\<open>imports.go\<close>. A file is resolved against the list of all files;
  the passes change only the file at hand. A found definition is its position.
\<close>

definition findIndex :: "('a \<Rightarrow> bool) \<Rightarrow> 'a list \<Rightarrow> nat option" where
  "findIndex P xs = List.find (\<lambda>i. P (xs ! i)) [0..<length xs]"

lemma findIndex_Some: "findIndex P xs = Some i \<Longrightarrow> i < length xs \<and> P (xs ! i)"
  by (auto simp: findIndex_def find_Some_iff)

lemma findIndex_None: "findIndex P xs = None \<longleftrightarrow> (\<forall>x \<in> set xs. \<not> P x)"
  by (auto simp: findIndex_def find_None_iff in_set_conv_nth Ball_def)

subsection \<open>Extensions\<close>

definition extendable :: "ScopedName \<Rightarrow> MessageDefinition \<Rightarrow> bool" where
  "extendable n msg \<longleftrightarrow> EqualName (md_name msg) n \<and> \<not> pm_is_extend (md_proto msg)"

definition resolveLocalExtendSource :: "ProtoFile \<Rightarrow> MessageDefinition \<Rightarrow> nat option" where
  "resolveLocalExtendSource pFile m =
     (let scopedName = ParseName (pm_name (md_proto m)) in
      walkScopes (\<lambda>searchPath. findIndex (extendable (ToScope scopedName searchPath)) (pr_messages pFile)) (md_name m))"

text \<open>The scope an imported file is searched from: its package, or the empty name.\<close>

definition packageScope :: "ProtoFile \<Rightarrow> ScopedName" where
  "packageScope f = (case pr_package f of None \<Rightarrow> emptyName | Some p \<Rightarrow> p)"

definition resolveImportedExtendSource :: "ProtoFile list \<Rightarrow> ProtoFile \<Rightarrow> MessageDefinition \<Rightarrow> (nat \<times> nat) option" where
  "resolveImportedExtendSource parsed pFile m =
     (let scopedName = ParseName (pm_name (md_proto m)) in
      first_some (\<lambda>imp. case im_target imp of
          None \<Rightarrow> None
        | Some t \<Rightarrow> map_option (\<lambda>k. (t, k))
            (walkScopes (\<lambda>searchPath. findIndex (extendable (ToScope scopedName searchPath)) (pr_messages (parsed ! t)))
              (packageScope (parsed ! t))))
        (pr_imports pFile))"

text \<open>The fields of the extended message, each with the message as a further scope.\<close>

definition addExtended :: "MessageDefinition \<Rightarrow> MessageDefinition \<Rightarrow> MessageDefinition" where
  "addExtended src m = m\<lparr>md_fields := md_fields m @
     map (\<lambda>f. let f = CopyField f in f\<lparr>fd_extra_scopes := fd_extra_scopes f @ [md_name src]\<rparr>) (md_fields src)\<rparr>"

definition hasPrefix :: "string \<Rightarrow> string \<Rightarrow> bool" where
  "hasPrefix s p \<longleftrightarrow> take (length p) s = p"

text \<open>One message: what becomes of it, the index of a message it replaces, and its error.\<close>

definition resolveExtension :: "ProtoFile list \<Rightarrow> ProtoFile \<Rightarrow> MessageDefinition \<Rightarrow>
    MessageDefinition \<times> nat option \<times> gen_error list" where
  "resolveExtension parsed pFile message =
     (if \<not> pm_is_extend (md_proto message) then (message, None, [])
      else case resolveLocalExtendSource pFile message of
        Some k \<Rightarrow>
          (let localSrc = pr_messages pFile ! k in
           (addExtended localSrc message, if EqualName (md_name localSrc) (md_name message) then Some k else None, []))
      | None \<Rightarrow>
          (case resolveImportedExtendSource parsed pFile message of
             Some (t, k) \<Rightarrow> (addExtended (pr_messages (parsed ! t) ! k) message, None, [])
           | None \<Rightarrow>
               if \<not> hasPrefix (pm_name (md_proto message)) ''google.protobuf.''
               then (message, None, [ExtendUnresolved (pm_name (md_proto message)) (md_name message) (pr_relative pFile)])
               else (message, None, [])))"

text \<open>The sources of extensions are not extensions, so their fields do not change in the loop.\<close>

definition resolveExtensions :: "ProtoFile list \<Rightarrow> ProtoFile \<Rightarrow> ProtoFile \<times> gen_error list" where
  "resolveExtensions parsed pFile =
     (let rs = map (resolveExtension parsed pFile) (pr_messages pFile);
          messages = map fst rs;
          removed = List.map_filter (\<lambda>(_, r, _). r) rs;
          errors = concat (map (\<lambda>(_, _, e). e) rs)
      in (pFile\<lparr>pr_messages := (if length removed > 0
            then map (\<lambda>i. messages ! i) (List.filter (\<lambda>i. i \<notin> set removed) [0..<length messages])
            else messages)\<rparr>, errors))"

subsection \<open>References\<close>

datatype definitionRef = EnumRef nat | MessageRef nat

definition lookupName :: "ProtoFile \<Rightarrow> ScopedName \<Rightarrow> definitionRef option" where
  "lookupName f n =
     (case findIndex (\<lambda>enum. EqualName (en_name enum) n) (pr_enums f) of
        Some i \<Rightarrow> Some (EnumRef i)
      | None \<Rightarrow> map_option MessageRef (findIndex (\<lambda>msg. EqualName (md_name msg) n) (pr_messages f)))"

definition scopesToSearch :: "MessageFieldDefinition \<Rightarrow> ScopedName list" where
  "scopesToSearch field = ParseName (pf_type (fd_proto field)) # fd_extra_scopes field"

definition findLocalReference :: "ProtoFile \<Rightarrow> ScopedName \<Rightarrow> MessageFieldDefinition \<Rightarrow> definitionRef option" where
  "findLocalReference f messageName field =
     first_some (\<lambda>scopedName. walkScopes (\<lambda>searchPath. lookupName f (ToScope scopedName searchPath)) messageName)
       (scopesToSearch field)"

definition resolveLocalReference :: "ProtoFile \<Rightarrow> ScopedName \<Rightarrow> MessageFieldDefinition \<Rightarrow> MessageFieldDefinition option" where
  "resolveLocalReference f messageName field =
     (case findLocalReference f messageName field of
        None \<Rightarrow> None
      | Some (EnumRef i) \<Rightarrow> Some (field\<lparr>fd_local_enum := Some i\<rparr>)
      | Some (MessageRef i) \<Rightarrow> Some (field\<lparr>fd_local_msg := Some i\<rparr>))"

definition findImportedReference :: "ProtoFile list \<Rightarrow> ProtoFile \<Rightarrow> MessageFieldDefinition \<Rightarrow> (nat \<times> definitionRef) option" where
  "findImportedReference parsed f field =
     first_some (\<lambda>scopedName. first_some (\<lambda>imp. case im_target imp of
         None \<Rightarrow> None
       | Some t \<Rightarrow> map_option (\<lambda>r. (t, r))
           (walkScopes (\<lambda>searchPath. lookupName (parsed ! t) (ToScope scopedName searchPath)) (packageScope (parsed ! t))))
       (pr_imports f)) (scopesToSearch field)"

definition resolveImportedReference :: "ProtoFile list \<Rightarrow> ProtoFile \<Rightarrow> MessageFieldDefinition \<Rightarrow> MessageFieldDefinition option" where
  "resolveImportedReference parsed f field =
     (case findImportedReference parsed f field of
        None \<Rightarrow> None
      | Some (t, EnumRef i) \<Rightarrow> Some (field\<lparr>fd_external_enum := Some i, fd_external_file := Some t\<rparr>)
      | Some (t, MessageRef i) \<Rightarrow> Some (field\<lparr>fd_external_msg := Some i, fd_external_file := Some t\<rparr>))"

definition resolveField :: "ProtoFile list \<Rightarrow> ProtoFile \<Rightarrow> MessageDefinition \<Rightarrow> MessageFieldDefinition \<Rightarrow>
    MessageFieldDefinition \<times> gen_error list" where
  "resolveField parsed f message field =
     (if fd_scalar field \<noteq> [] then (field, [])
      else case resolveLocalReference f (md_name message) field of
        Some field \<Rightarrow> (field, [])
      | None \<Rightarrow>
          (case resolveImportedReference parsed f field of
             Some field \<Rightarrow> (field, [])
           | None \<Rightarrow> (field, [ReferenceUnresolved (pf_type (fd_proto field)) (md_name message) (pr_relative f)])))"

definition resolveMessage :: "ProtoFile list \<Rightarrow> ProtoFile \<Rightarrow> MessageDefinition \<Rightarrow> MessageDefinition \<times> gen_error list" where
  "resolveMessage parsed f message =
     (let rs = map (resolveField parsed f message) (md_fields message)
      in (message\<lparr>md_fields := map fst rs\<rparr>, concat (map snd rs)))"

definition resolveReferences :: "ProtoFile list \<Rightarrow> ProtoFile \<Rightarrow> ProtoFile \<times> gen_error list" where
  "resolveReferences parsed f =
     (let rs = map (resolveMessage parsed f) (pr_messages f)
      in (f\<lparr>pr_messages := map fst rs\<rparr>, concat (map snd rs)))"

subsection \<open>Options of enum values\<close>

text \<open>\<^verbatim>\<open>%q\<close> on ASCII text; other bytes are taken to be printable.\<close>

definition hexDigit :: "nat \<Rightarrow> char" where
  "hexDigit n = (if n < 10 then char_of (48 + n) else char_of (87 + n))"

definition quoteChar :: "char \<Rightarrow> string" where
  "quoteChar c =
     (let n = of_char c :: nat; backslash = CHR 0x5C in
      if n = 0x22 \<or> n = 0x5C then [backslash, c]
      else if n = 7 then [backslash, CHR ''a''] else if n = 8 then [backslash, CHR ''b'']
      else if n = 12 then [backslash, CHR ''f''] else if n = 10 then [backslash, CHR ''n'']
      else if n = 13 then [backslash, CHR ''r''] else if n = 9 then [backslash, CHR ''t'']
      else if n = 11 then [backslash, CHR ''v'']
      else if n < 0x20 \<or> n = 0x7F then [backslash, CHR ''x'', hexDigit (n div 16), hexDigit (n mod 16)]
      else [c])"

definition goQuote :: "string \<Rightarrow> string" where
  "goQuote s = [CHR 0x22] @ concat (map quoteChar s) @ [CHR 0x22]"

definition extraOptions :: "ProtoFile \<Rightarrow> string \<rightharpoonup> MessageFieldDefinition" where
  "extraOptions f = foldl (\<lambda>opts message.
       if ProtoName (md_name message) = ''google.protobuf.EnumValueOptions''
       then foldl (\<lambda>opts field. opts(ProtoName (fd_name field) \<mapsto> field)) opts (md_fields message) else opts)
     Map.empty (pr_messages f)"

text \<open>\<open>TrimPrefix(name, "(")\<close> and \<open>TrimSuffix(name, ")")\<close>\<close>

definition cleanName :: "string \<Rightarrow> string" where
  "cleanName n =
     (let n = (if n \<noteq> [] \<and> hd n = CHR ''('' then tl n else n)
      in if n \<noteq> [] \<and> last n = CHR '')'' then butlast n else n)"

definition find_option :: "(string \<rightharpoonup> MessageFieldDefinition) \<Rightarrow> string \<Rightarrow> MessageFieldDefinition option" where
  "find_option opts n = (case opts n of Some f \<Rightarrow> Some f | None \<Rightarrow> opts (cleanName n))"

text \<open>An option that is not found is reported, and then the missing field is read: a nil pointer.\<close>

definition resolveOption :: "(string \<rightharpoonup> MessageFieldDefinition) \<Rightarrow> ProtoOption \<Rightarrow> EnumValueDefinition \<Rightarrow>
    unit fault + EnumValueDefinition" where
  "resolveOption opts opt v =
     (case find_option opts (po_name opt) of
        None \<Rightarrow> Inl Panic
      | Some field \<Rightarrow>
          let n = ProtoName (fd_name field);
              optValue = (if po_is_string opt \<and> fd_scalar field \<noteq> [] then goQuote (po_source opt) else po_source opt);
              fresh = \<lparr>eo_name = n, eo_repeated = fd_repeated field, eo_scalar = fd_scalar field,
                eo_local_enum = fd_local_enum field, eo_values = [], eo_value = []\<rparr>
          in Inr (v\<lparr>ev_options := (ev_options v)(n \<mapsto>
               (if fd_repeated field
                then (let o' = (case ev_options v n of None \<Rightarrow> fresh | Some o' \<Rightarrow> o')
                      in o'\<lparr>eo_values := eo_values o' @ [optValue]\<rparr>)
                else fresh\<lparr>eo_value := optValue\<rparr>))\<rparr>))"

fun resolveValues :: "(string \<rightharpoonup> MessageFieldDefinition) \<Rightarrow> EnumValueDefinition list \<Rightarrow> unit fault + EnumValueDefinition list" where
  "resolveValues opts [] = Inr []"
| "resolveValues opts (v # vs) =
     andThen (foldE (resolveOption opts) (pv_options (ev_proto v)) v) (\<lambda>v.
     andThen (resolveValues opts vs) (\<lambda>vs. Inr (v # vs)))"

fun resolveEnums :: "(string \<rightharpoonup> MessageFieldDefinition) \<Rightarrow> EnumDefinition list \<Rightarrow> unit fault + EnumDefinition list" where
  "resolveEnums opts [] = Inr []"
| "resolveEnums opts (e # es) =
     andThen (resolveValues opts (en_values e)) (\<lambda>vs.
     andThen (resolveEnums opts es) (\<lambda>es. Inr (e\<lparr>en_values := vs\<rparr> # es)))"

definition resolveOptions :: "ProtoFile \<Rightarrow> unit fault + ProtoFile" where
  "resolveOptions f =
     andThen (resolveEnums (extraOptions f) (pr_enums f)) (\<lambda>es. Inr (f\<lparr>pr_enums := es\<rparr>))"

subsection \<open>All passes\<close>

text \<open>A pass over all files, one after the other, each against the files as they are then.\<close>

fun passFiles :: "(ProtoFile list \<Rightarrow> ProtoFile \<Rightarrow> ProtoFile \<times> gen_error list) \<Rightarrow> nat list \<Rightarrow> ProtoFile list \<Rightarrow>
    ProtoFile list \<times> gen_error list" where
  "passFiles pass [] parsed = (parsed, [])"
| "passFiles pass (i # is) parsed =
     (let (f, errors) = pass parsed (parsed ! i);
          (parsed, errors') = passFiles pass is (parsed[i := f])
      in (parsed, errors @ errors'))"

fun optionPass :: "nat list \<Rightarrow> ProtoFile list \<Rightarrow> unit fault + ProtoFile list" where
  "optionPass [] parsed = Inr parsed"
| "optionPass (i # is) parsed = andThen (resolveOptions (parsed ! i)) (\<lambda>f. optionPass is (parsed[i := f]))"

datatype stop = Exit fatal | Crash

definition ResolveImportsAndReferences :: "ProtoFile list \<Rightarrow> stop + ProtoFile list \<times> gen_error list" where
  "ResolveImportsAndReferences parsed =
     (case resolveBaseFolders parsed of
        Inl e \<Rightarrow> Inl (Exit e)
      | Inr parsed \<Rightarrow>
          let is = [0..<length parsed];
              (parsed, importErrors) = passFiles resolveImports is parsed;
              parsed = addAllPublicImports parsed;
              (parsed, extensionErrors) = passFiles resolveExtensions is parsed;
              (parsed, referenceErrors) = passFiles resolveReferences is parsed
          in case optionPass is parsed of
               Inl _ \<Rightarrow> Inl Crash
             | Inr parsed \<Rightarrow> Inr (parsed, importErrors @ extensionErrors @ referenceErrors))"

end
