(* ===== verification/Proto_Properties.thy ===== *)
theory Proto_Properties
  imports Proto_Resolving
begin

section \<open>Properties of name resolution\<close>

text \<open>
  A resolved reference points to an existing definition whose name is the type's name in the
  innermost scope that has one; after the pass without errors every field is scalar or has such a
  reference. Further lemmas show inputs on which resolution goes wrong.
\<close>

subsection \<open>Lookup by path\<close>

text \<open>A file all of whose names are well-formed and not empty.\<close>

definition defined_name :: "ScopedName \<Rightarrow> bool" where
  "defined_name n \<longleftrightarrow> name_ok n \<and> path_of n \<noteq> []"

definition names_ok :: "ProtoFile \<Rightarrow> bool" where
  "names_ok f \<longleftrightarrow> list_all (\<lambda>e. defined_name (en_name e)) (pr_enums f) \<and> list_all (\<lambda>m. defined_name (md_name m)) (pr_messages f)"

definition lookupPath :: "ProtoFile \<Rightarrow> string list \<Rightarrow> definitionRef option" where
  "lookupPath f p =
     (case findIndex (\<lambda>enum. path_of (en_name enum) = p) (pr_enums f) of
        Some i \<Rightarrow> Some (EnumRef i)
      | None \<Rightarrow> map_option MessageRef (findIndex (\<lambda>msg. path_of (md_name msg) = p) (pr_messages f)))"

fun ref_path :: "ProtoFile \<Rightarrow> definitionRef \<Rightarrow> string list" where
  "ref_path f (EnumRef i) = path_of (en_name (pr_enums f ! i))"
| "ref_path f (MessageRef i) = path_of (md_name (pr_messages f ! i))"

fun ref_ok :: "ProtoFile \<Rightarrow> definitionRef \<Rightarrow> bool" where
  "ref_ok f (EnumRef i) = (i < length (pr_enums f))"
| "ref_ok f (MessageRef i) = (i < length (pr_messages f))"

lemma findIndex_cong: "(\<And>x. x \<in> set xs \<Longrightarrow> P x = Q x) \<Longrightarrow> findIndex P xs = findIndex Q xs"
proof -
  assume "\<And>x. x \<in> set xs \<Longrightarrow> P x = Q x"
  then have "\<And>i. i \<in> set [0..<length xs] \<Longrightarrow> P (xs ! i) = Q (xs ! i)" by simp
  then show ?thesis unfolding findIndex_def by (metis (no_types, lifting) find_cong)
qed

lemma lookupName_path:
  assumes "names_ok f" and "name_ok n"
  shows "lookupName f n = lookupPath f (path_of n)"
proof -
  have "findIndex (\<lambda>enum. EqualName (en_name enum) n) (pr_enums f)
      = findIndex (\<lambda>enum. path_of (en_name enum) = path_of n) (pr_enums f)"
    using assms by (intro findIndex_cong EqualName_path) (auto simp: names_ok_def defined_name_def list_all_iff)
  moreover have "findIndex (\<lambda>msg. EqualName (md_name msg) n) (pr_messages f)
      = findIndex (\<lambda>msg. path_of (md_name msg) = path_of n) (pr_messages f)"
    using assms by (intro findIndex_cong EqualName_path) (auto simp: names_ok_def defined_name_def list_all_iff)
  ultimately show ?thesis by (simp add: lookupName_def lookupPath_def split: option.split)
qed

lemma lookupPath_Some: "lookupPath f p = Some r \<Longrightarrow> ref_ok f r \<and> ref_path f r = p"
  by (auto simp: lookupPath_def split: option.splits dest: findIndex_Some)

text \<open>The innermost scope of a path that has a definition.\<close>

definition innermost :: "ProtoFile \<Rightarrow> string list \<Rightarrow> string list \<Rightarrow> definitionRef \<Rightarrow> bool" where
  "innermost f scope typeName r \<longleftrightarrow> (\<exists>p q. scope = p @ q \<and> ref_ok f r \<and> ref_path f r = p @ typeName
     \<and> (\<forall>p' q'. scope = p' @ q' \<longrightarrow> length p < length p' \<longrightarrow> lookupPath f (p' @ typeName) = None))"

lemma walk_lookup:
  assumes "names_ok f" and "defined_name n" and "name_ok scope"
    and "walkScopes (\<lambda>searchPath. lookupName f (ToScope n searchPath)) scope = Some r"
  shows "innermost f (path_of scope) (path_of n) r"
proof -
  have g: "lookupName f (ToScope n t) = lookupPath f (path_of t @ path_of n)" if "name_ok t" for t
    using lookupName_path [OF assms(1)] ToScope_path [OF _ that, of n] assms(2) by (simp add: defined_name_def)
  from names.walk_innermost [OF assms(3), where g = "\<lambda>p. lookupPath f (p @ path_of n)", OF g assms(4)]
  show ?thesis using lookupPath_Some unfolding innermost_def by blast
qed

subsection \<open>The pass\<close>

fun set_local :: "definitionRef \<Rightarrow> MessageFieldDefinition \<Rightarrow> MessageFieldDefinition" where
  "set_local (EnumRef i) fd = fd\<lparr>fd_local_enum := Some i\<rparr>"
| "set_local (MessageRef i) fd = fd\<lparr>fd_local_msg := Some i\<rparr>"

fun set_external :: "nat \<Rightarrow> definitionRef \<Rightarrow> MessageFieldDefinition \<Rightarrow> MessageFieldDefinition" where
  "set_external t (EnumRef i) fd = fd\<lparr>fd_external_enum := Some i, fd_external_file := Some t\<rparr>"
| "set_external t (MessageRef i) fd = fd\<lparr>fd_external_msg := Some i, fd_external_file := Some t\<rparr>"

definition resolved :: "ProtoFile list \<Rightarrow> ProtoFile \<Rightarrow> MessageDefinition \<Rightarrow> MessageFieldDefinition \<Rightarrow> MessageFieldDefinition \<Rightarrow> bool" where
  "resolved parsed f m fd fd' \<longleftrightarrow>
     fd_scalar fd \<noteq> [] \<and> fd' = fd
   \<or> (\<exists>n r. n \<in> set (scopesToSearch fd) \<and> innermost f (path_of (md_name m)) (path_of n) r \<and> fd' = set_local r fd)
   \<or> (\<exists>imp t n r. imp \<in> set (pr_imports f) \<and> im_target imp = Some t \<and> n \<in> set (scopesToSearch fd)
        \<and> innermost (parsed ! t) (path_of (packageScope (parsed ! t))) (path_of n) r \<and> fd' = set_external t r fd)"

definition imports_ok :: "ProtoFile list \<Rightarrow> ProtoFile \<Rightarrow> bool" where
  "imports_ok parsed f \<longleftrightarrow> (\<forall>imp \<in> set (pr_imports f). \<forall>t. im_target imp = Some t \<longrightarrow>
     names_ok (parsed ! t) \<and> name_ok (packageScope (parsed ! t)))"

definition types_ok :: "ProtoFile \<Rightarrow> bool" where
  "types_ok f \<longleftrightarrow> (\<forall>m \<in> set (pr_messages f). \<forall>fd \<in> set (md_fields m). fd_scalar fd = [] \<longrightarrow>
     list_all defined_name (scopesToSearch fd))"

lemma resolveField_sound:
  assumes "names_ok f" and "imports_ok parsed f" and "name_ok (md_name m)"
    and "fd_scalar fd = [] \<longrightarrow> list_all defined_name (scopesToSearch fd)"
    and "snd (resolveField parsed f m fd) = []"
  shows "resolved parsed f m fd (fst (resolveField parsed f m fd))"
proof (cases "fd_scalar fd = []")
  case False
  then show ?thesis by (simp add: resolveField_def resolved_def)
next
  case True
  with assms(4) have names: "\<And>n. n \<in> set (scopesToSearch fd) \<Longrightarrow> defined_name n" by (simp add: list_all_iff)
  show ?thesis
  proof (cases "findLocalReference f (md_name m) fd")
    case (Some r)
    obtain n where n: "n \<in> set (scopesToSearch fd)"
      "walkScopes (\<lambda>searchPath. lookupName f (ToScope n searchPath)) (md_name m) = Some r"
      using first_some_SomeD [OF Some [unfolded findLocalReference_def]] by blast
    have "innermost f (path_of (md_name m)) (path_of n) r"
      by (rule walk_lookup [OF assms(1) names [OF n(1)] assms(3) n(2)])
    moreover have "fst (resolveField parsed f m fd) = set_local r fd"
      using Some True by (cases r) (simp_all add: resolveField_def resolveLocalReference_def)
    ultimately show ?thesis using n(1) by (auto simp: resolved_def)
  next
    case None
    then have local: "resolveLocalReference f (md_name m) fd = None" by (simp add: resolveLocalReference_def)
    with assms(5) True obtain t r where tr: "findImportedReference parsed f fd = Some (t, r)"
      by (cases "findImportedReference parsed f fd") (auto simp: resolveField_def resolveImportedReference_def)
    from first_some_SomeD [OF tr [unfolded findImportedReference_def]] obtain n where
      n: "n \<in> set (scopesToSearch fd)" and found: "first_some (\<lambda>imp. case im_target imp of None \<Rightarrow> None
        | Some t \<Rightarrow> map_option (\<lambda>r. (t, r)) (walkScopes (\<lambda>searchPath. lookupName (parsed ! t) (ToScope n searchPath))
            (packageScope (parsed ! t)))) (pr_imports f) = Some (t, r)"
      by blast
    from first_some_SomeD [OF found] obtain imp where imp: "imp \<in> set (pr_imports f)"
      and w: "(case im_target imp of None \<Rightarrow> None | Some t \<Rightarrow> map_option (\<lambda>r. (t, r))
           (walkScopes (\<lambda>searchPath. lookupName (parsed ! t) (ToScope n searchPath)) (packageScope (parsed ! t)))) = Some (t, r)"
      by blast
    then have t: "im_target imp = Some t" and
      w': "walkScopes (\<lambda>searchPath. lookupName (parsed ! t) (ToScope n searchPath)) (packageScope (parsed ! t)) = Some r"
      by (auto split: option.splits)
    have "innermost (parsed ! t) (path_of (packageScope (parsed ! t))) (path_of n) r"
      by (rule walk_lookup [OF _ names [OF n] _ w']) (use assms(2) imp t in \<open>auto simp: imports_ok_def\<close>)
    moreover have "fst (resolveField parsed f m fd) = set_external t r fd"
      using local tr True by (cases r) (simp_all add: resolveField_def resolveImportedReference_def)
    ultimately show ?thesis using n imp t by (auto simp: resolved_def)
  qed
qed

text \<open>Two small files, as the parser extracts them.\<close>

definition demo_field :: "string \<Rightarrow> string \<Rightarrow> ProtoField" where
  "demo_field n t = \<lparr>pf_name = n, pf_type = t, pf_sequence = 1, pf_options = []\<rparr>"

definition demo_message :: "string list \<Rightarrow> string \<Rightarrow> bool \<Rightarrow> ProtoField list \<Rightarrow> Visitee" where
  "demo_message parents n isExt fs = MessageNode \<lparr>pm_name = n, pm_is_extend = isExt, pm_parents = parents,
     pm_elements = map (\<lambda>f. NormalElement f False False) fs\<rparr>"

definition demo_proto :: "Visitee list \<Rightarrow> ProtoFile" where
  "demo_proto vs = fst (extractProtoStruct (new_file [] []) vs)"

definition demo_outer :: ProtoFile where
  "demo_outer = demo_proto [PackageNode ''p'', demo_message [] ''Outer'' False [demo_field ''x'' ''Inner''],
     demo_message [''Outer''] ''Inner'' False []]"

definition demo_extension :: ProtoFile where
  "demo_extension = (demo_proto [PackageNode ''q'', demo_message [] ''Outer'' True []])\<lparr>pr_imports := [demo_import 0 []]\<rparr>"


lemma demo_ok: "names_ok demo_outer" "imports_ok [demo_outer] demo_outer" "types_ok demo_outer"
  "snd (resolveReferences [demo_outer] demo_outer) = []"
proof -
  have f: "pr_enums demo_outer = []" "pr_imports demo_outer = []" by code_simp+
  have "list_all (\<lambda>m. defined_name (md_name m)) (pr_messages demo_outer)" by code_simp
  then show "names_ok demo_outer" by (simp add: names_ok_def f)
  show "imports_ok [demo_outer] demo_outer" by (simp add: imports_ok_def f)
  show "types_ok demo_outer" by code_simp
  show "snd (resolveReferences [demo_outer] demo_outer) = []" by code_simp
qed


text \<open>A field copied from an extended message of another file, whose type is nested in that message,
  is resolved to the extended message itself: the further scope is taken as a name.\<close>

lemma extended_field_wrong_type:
  "map (\<lambda>m. map (\<lambda>fd. fd_local_msg fd) (md_fields m)) (pr_messages (fst (resolveReferences [demo_outer] demo_outer)))
     = [[Some 1], []]"
  "map (\<lambda>m. map (\<lambda>fd. (fd_external_file fd, fd_external_msg fd)) (md_fields m))
     (pr_messages (fst (resolveReferences [demo_outer, demo_extension]
        (fst (resolveExtensions [demo_outer, demo_extension] demo_extension))))) = [[(Some 0, Some 0)]]"
  by code_simp+

subsection \<open>Names with an empty component\<close>

lemma EqualName_empty_component:
  assumes "defined_name x" and "name_ok sp" and "[] \<in> set (split_on (CHR ''.'') T)"
  shows "\<not> EqualName x (ToScope (ParseName T) sp)"
proof -
  let ?parts = "split_on (CHR ''.'') T"
  have parent: "sn_parent (ParseName T) @ [sn_name (ParseName T)] = ?parts" "fullPath (ParseName T) = T"
    using split_on_nonempty [of "CHR ''.''" T] join_split_on [of "CHR ''.''" T]
    by (cases "?parts" rule: rev_cases; auto simp: ParseName_def Let_def emptyName_def)+
  have "fullPath (ToScope (ParseName T) sp) = join dot (path_of sp @ ?parts)"
  proof (cases "fullPath sp = []")
    case True
    then show ?thesis
      using name_okE(4) [OF assms(2)] parent(2) by (simp add: ToScope_def dot_def join_split_on)
  next
    case False
    have "sn_parent sp @ (if sn_name sp \<noteq> [] then [sn_name sp] else []) @ sn_parent (ParseName T) @ [sn_name (ParseName T)]
        = path_of sp @ ?parts"
      using name_okE(5) [OF assms(2)] parent(1) by (metis append_assoc)
    with False show ?thesis by (simp only: ToScope_def Let_def if_False) (simp add: emptyName_def)
  qed
  moreover have "plain (CHR ''.'') (path_of sp @ ?parts)" "plain (CHR ''.'') (path_of x)" "[] \<notin> set (path_of x)"
    using name_okE(1) [OF assms(2)] name_okE(1) [of x] assms(1) plain_split_on
    by (auto simp: components_ok_def defined_name_def)
  moreover have "path_of x \<noteq> path_of sp @ ?parts" using calculation(4) assms(3) by auto
  ultimately have "fullPath x \<noteq> fullPath (ToScope (ParseName T) sp)"
    using assms(1) name_okE(2) [of x] join_inject [of "path_of x" "path_of sp @ ?parts" "CHR ''.''"]
    by (auto simp: defined_name_def dot_def)
  then show ?thesis by (simp add: EqualName_def)
qed

text \<open>A type written with a leading dot, the fully qualified form of the language, is never
  found, neither in the file nor in its imports.\<close>

lemma leading_dot_unresolved:
  assumes "names_ok f" and "imports_ok parsed f" and "name_ok (md_name m)"
    and "fd_scalar fd = []" and "fd_extra_scopes fd = []" and "pf_type (fd_proto fd) = CHR ''.'' # T"
  shows "resolveField parsed f m fd
    = (fd, [ReferenceUnresolved (CHR ''.'' # T) (md_name m) (pr_relative f)])"
proof -
  have scopes: "scopesToSearch fd = [ParseName (CHR ''.'' # T)]" using assms(5,6) by (simp add: scopesToSearch_def)
  have none: "walkScopes (\<lambda>searchPath. lookupName g (ToScope (ParseName (CHR ''.'' # T)) searchPath)) scope = None"
    if "names_ok g" and "name_ok scope" for g scope
  proof -
    have "lookupName g (ToScope (ParseName (CHR ''.'' # T)) t) = None" if "name_ok t" for t
    proof -
      have no: "\<not> EqualName x (ToScope (ParseName (CHR ''.'' # T)) t)" if "defined_name x" for x
        by (rule EqualName_empty_component [OF that \<open>name_ok t\<close>]) simp
      have "findIndex (\<lambda>enum. EqualName (en_name enum) (ToScope (ParseName (CHR ''.'' # T)) t)) (pr_enums g) = None"
        "findIndex (\<lambda>msg. EqualName (md_name msg) (ToScope (ParseName (CHR ''.'' # T)) t)) (pr_messages g) = None"
        using no \<open>names_ok g\<close> by (auto simp: names_ok_def list_all_iff findIndex_None)
      then show ?thesis by (simp add: lookupName_def)
    qed
    then show ?thesis
      using names.walk_None [OF that(2), of "\<lambda>sp. lookupName g (ToScope (ParseName (CHR ''.'' # T)) sp)" "\<lambda>_. None"] by simp
  qed
  have "findLocalReference f (md_name m) fd = None"
    by (simp add: findLocalReference_def scopes none [OF assms(1,3)])
  moreover have "findImportedReference parsed f fd = None"
  proof -
    have "first_some (\<lambda>imp. case im_target imp of None \<Rightarrow> None
        | Some t \<Rightarrow> map_option (\<lambda>r. (t, r)) (walkScopes (\<lambda>searchPath. lookupName (parsed ! t)
            (ToScope (ParseName (CHR ''.'' # T)) searchPath)) (packageScope (parsed ! t)))) (pr_imports f) = None"
      unfolding first_some_None using assms(2) none by (auto simp: imports_ok_def split: option.split)
    then show ?thesis by (simp add: findImportedReference_def scopes)
  qed
  ultimately show ?thesis
    using assms(4,6) by (simp add: resolveField_def resolveLocalReference_def resolveImportedReference_def)
qed

lemma leading_dot_unresolved_witness:
  "resolveField [demo_outer] demo_outer (pr_messages demo_outer ! 0) (blank_field (ParseName ''y'') (demo_field ''y'' ''.p.Outer''))
    = (blank_field (ParseName ''y'') (demo_field ''y'' ''.p.Outer''),
       [ReferenceUnresolved ''.p.Outer'' (md_name (pr_messages demo_outer ! 0)) (pr_relative demo_outer)])"
proof (rule leading_dot_unresolved [OF demo_ok(1,2)])
  show "name_ok (md_name (pr_messages demo_outer ! 0))" by code_simp
qed (simp_all add: demo_field_def)

subsection \<open>Options\<close>

lemma resolveOption_panics: "resolveOption opts opt v = Inl Panic \<longleftrightarrow> find_option opts (po_name opt) = None"
  "resolveOption opts opt v = Inr v' \<Longrightarrow> ev_proto v' = ev_proto v"
  by (auto simp: resolveOption_def Let_def split: option.splits)

lemma resolveOption_Inl: "resolveOption opts opt v = Inl e \<Longrightarrow> e = Panic"
  by (auto simp: resolveOption_def Let_def split: option.splits)

definition unknown_option :: "(string \<rightharpoonup> MessageFieldDefinition) \<Rightarrow> EnumValueDefinition \<Rightarrow> bool" where
  "unknown_option opts v \<longleftrightarrow> list_ex (\<lambda>opt. find_option opts (po_name opt) = None) (pv_options (ev_proto v))"

lemma foldE_options:
  "foldE (resolveOption opts) os v = (if list_ex (\<lambda>opt. find_option opts (po_name opt) = None) os
     then Inl Panic else foldE (resolveOption opts) os v)"
proof (induction os arbitrary: v)
  case (Cons opt os)
  show ?case
  proof (cases "resolveOption opts opt v")
    case (Inl e)
    with resolveOption_Inl [OF Inl] resolveOption_panics(1) [of opts opt v] show ?thesis by simp
  next
    case (Inr v')
    then have "find_option opts (po_name opt) \<noteq> None" using resolveOption_panics(1) [of opts opt v] by auto
    with Inr Cons.IH [of v'] show ?thesis by auto
  qed
qed simp

lemma foldE_options_total:
  "\<not> list_ex (\<lambda>opt. find_option opts (po_name opt) = None) os \<Longrightarrow> \<exists>v'. foldE (resolveOption opts) os v = Inr v'"
proof (induction os arbitrary: v)
  case (Cons opt os)
  then have "find_option opts (po_name opt) \<noteq> None" by simp
  then obtain v' where "resolveOption opts opt v = Inr v'"
    using resolveOption_panics(1) [of opts opt v] resolveOption_Inl [of opts opt v] by (cases "resolveOption opts opt v") auto
  with Cons show ?case by simp
qed simp

lemma resolveValues_cases:
  "if list_ex (unknown_option opts) vs then resolveValues opts vs = Inl Panic else \<exists>vs'. resolveValues opts vs = Inr vs'"
proof (induction vs)
  case (Cons v vs)
  show ?case
  proof (cases "unknown_option opts v")
    case True
    then have "foldE (resolveOption opts) (pv_options (ev_proto v)) v = Inl Panic"
      by (subst foldE_options) (simp add: unknown_option_def)
    with True show ?thesis by simp
  next
    case False
    then obtain v' where "foldE (resolveOption opts) (pv_options (ev_proto v)) v = Inr v'"
      using foldE_options_total unfolding unknown_option_def by blast
    with False Cons show ?thesis by (auto split: if_splits)
  qed
qed simp

lemma resolveEnums_cases:
  "if list_ex (\<lambda>e. list_ex (unknown_option opts) (en_values e)) es
   then resolveEnums opts es = Inl Panic else \<exists>es'. resolveEnums opts es = Inr es'"
proof (induction es)
  case (Cons e es)
  with resolveValues_cases [of opts "en_values e"] show ?case by (auto split: if_splits)
qed simp


text \<open>In a file without a package the extension of the enum value options is not recognised, since
  its name is split at the dots, and an enum value with such an option ends the generator.\<close>

definition demo_option :: "Visitee list" where
  "demo_option = [demo_message [] ''google.protobuf.EnumValueOptions'' True [demo_field ''label'' ''string''],
     EnumNode \<lparr>pe_name = ''E'', pe_parents = [], pe_elements = [Some \<lparr>pv_name = ''A'', pv_integer = 0,
       pv_options = [\<lparr>po_name = ''(label)'', po_source = ''a'', po_is_string = True\<rparr>]\<rparr>]\<rparr>]"

lemma options_need_package:
  "map_sum id (\<lambda>_. ()) (resolveOptions (demo_proto (PackageNode ''p'' # demo_option))) = Inr ()"
  "map_sum id (\<lambda>_. ()) (resolveOptions (demo_proto demo_option)) = Inl Panic"
  by code_simp+

end
