(* ===== verification/Go_Paths.thy ===== *)
theory Go_Paths
  imports Go_Strings
begin

section \<open>Paths of Go\<close>

text \<open>
  The functions of \<^verbatim>\<open>path/filepath\<close> and \<^verbatim>\<open>strings\<close> that \<^verbatim>\<open>gremlinc\<close> names files and packages with,
  on slash-separated paths. \<open>Clean\<close> goes over the components of a path once, from the left.
\<close>

definition slash :: char where "slash = CHR ''/''"

definition trimPrefix :: "string \<Rightarrow> string \<Rightarrow> string" where
  "trimPrefix s p = (if take (length p) s = p then drop (length p) s else s)"

definition trimSuffix :: "string \<Rightarrow> string \<Rightarrow> string" where
  "trimSuffix s p = (if length p \<le> length s \<and> drop (length s - length p) s = p then take (length s - length p) s else s)"

text \<open>\<^verbatim>\<open>strings.ReplaceAll\<close> of one character by one character\<close>

definition replaceChar :: "char \<Rightarrow> char \<Rightarrow> string \<Rightarrow> string" where
  "replaceChar a b s = map (\<lambda>c. if c = a then b else c) s"

definition cleanStep :: "bool \<Rightarrow> string list \<Rightarrow> string \<Rightarrow> string list" where
  "cleanStep rooted out part =
     (if part = [] \<or> part = ''.'' then out
      else if part = ''..'' then
        (if out \<noteq> [] \<and> last out \<noteq> ''..'' then butlast out else if rooted then out else out @ [part])
      else out @ [part])"

definition Clean :: "string \<Rightarrow> string" where
  "Clean path =
     (if path = [] then ''.''
      else let rooted = (hd path = slash);
               out = foldl (cleanStep rooted) [] (split_on slash path);
               s = join [slash] out
           in if rooted then slash # s else if s = [] then ''.'' else s)"

definition Dir :: "string \<Rightarrow> string" where
  "Dir path = (case butlast (split_on slash path) of [] \<Rightarrow> Clean [] | ps \<Rightarrow> Clean (join [slash] ps @ [slash]))"

fun dropLastSlashes :: "string \<Rightarrow> string" where
  "dropLastSlashes s = (if s \<noteq> [] \<and> last s = slash then dropLastSlashes (butlast s) else s)"

declare dropLastSlashes.simps [simp del]

definition Base :: "string \<Rightarrow> string" where
  "Base path =
     (if path = [] then ''.''
      else let p = dropLastSlashes path in if p = [] then [slash] else last (split_on slash p))"

fun Join :: "string list \<Rightarrow> string" where
  "Join [] = []"
| "Join (e # es) = (if e \<noteq> [] then Clean (join [slash] (e # es)) else Join es)"

subsection \<open>Paths of plain components\<close>

text \<open>A component that \<open>Clean\<close> keeps as it is.\<close>

definition part_ok :: "string \<Rightarrow> bool" where
  "part_ok p \<longleftrightarrow> p \<noteq> [] \<and> slash \<notin> set p \<and> p \<noteq> ''.'' \<and> p \<noteq> ''..''"

abbreviation path :: "string list \<Rightarrow> string" where
  "path \<equiv> join [slash]"

lemma plain_parts: "list_all part_ok ps \<Longrightarrow> plain slash ps"
  by (induction ps) (simp_all add: part_ok_def)

lemma clean_parts: "list_all part_ok ps \<Longrightarrow> foldl (cleanStep rooted) out ps = out @ ps"
  by (induction ps arbitrary: out) (simp_all add: cleanStep_def part_ok_def)

lemma part_ends: "part_ok p \<Longrightarrow> p \<noteq> [] \<and> hd p \<noteq> slash \<and> last p \<noteq> slash"
  unfolding part_ok_def using hd_in_set last_in_set by metis

lemma path_nonempty: "list_all part_ok ps \<Longrightarrow> ps \<noteq> [] \<Longrightarrow> path ps \<noteq> [] \<and> hd (path ps) \<noteq> slash"
  by (induction "[slash]" ps rule: join.induct) (simp_all add: part_ends)

lemma Clean_path: "list_all part_ok ps \<Longrightarrow> ps \<noteq> [] \<Longrightarrow> Clean (path ps) = path ps"
  using path_nonempty [of ps] by (simp add: Clean_def Let_def split_on_join plain_parts clean_parts)

lemma Clean_path_slash: "list_all part_ok ps \<Longrightarrow> ps \<noteq> [] \<Longrightarrow> Clean (path ps @ [slash]) = path ps"
proof -
  assume ps: "list_all part_ok ps" "ps \<noteq> []"
  have "path ps @ [slash] = path (ps @ [[]])" using ps(2) by (simp add: join_snoc)
  then have "split_on slash (path ps @ [slash]) = ps @ [[]]" using ps by (simp add: split_on_join plain_parts)
  then show ?thesis using path_nonempty [OF ps] clean_parts [OF ps(1), of False "[]"]
    by (simp add: Clean_def Let_def cleanStep_def)
qed

lemma Dir_path: "list_all part_ok ps \<Longrightarrow> ps \<noteq> [] \<Longrightarrow> Dir (path ps) = (if butlast ps = [] then ''.'' else path (butlast ps))"
proof -
  assume ps: "list_all part_ok ps" "ps \<noteq> []"
  have "list_all part_ok (butlast ps)" using ps(1) by (auto simp: list_all_iff dest: in_set_butlastD)
  then show ?thesis using ps Clean_path_slash [of "butlast ps"]
    by (cases "butlast ps") (simp_all add: Dir_def split_on_join plain_parts Clean_def)
qed

lemma last_path: "list_all part_ok ps \<Longrightarrow> ps \<noteq> [] \<Longrightarrow> last (path ps) \<noteq> slash"
proof (induction "[slash]" ps rule: join.induct)
  case (3 s t ss)
  then show ?case using path_nonempty [of "t # ss"] by simp
qed (simp_all add: part_ends)

lemma Base_path: "list_all part_ok ps \<Longrightarrow> ps \<noteq> [] \<Longrightarrow> Base (path ps) = last ps"
  using path_nonempty [of ps] last_path [of ps]
  by (simp add: Base_def Let_def dropLastSlashes.simps split_on_join plain_parts)

lemma path_append: "ps \<noteq> [] \<Longrightarrow> qs \<noteq> [] \<Longrightarrow> path (ps @ qs) = path ps @ slash # path qs"
  by (induction "[slash]" ps rule: join.induct) (auto simp: join_Cons)

lemma Join_path: "list_all part_ok ps \<Longrightarrow> list_all part_ok qs \<Longrightarrow> ps \<noteq> [] \<Longrightarrow> qs \<noteq> [] \<Longrightarrow> Join [path ps, path qs] = path (ps @ qs)"
proof -
  assume a: "list_all part_ok ps" "list_all part_ok qs" "ps \<noteq> []" "qs \<noteq> []"
  have "path ps @ slash # path qs = path (ps @ qs)" using a(3,4) by (simp add: path_append)
  then show ?thesis using a path_nonempty [of ps] Clean_path [of "ps @ qs"] by simp
qed

end
