(* ===== verification/Go_Files.thy ===== *)
theory Go_Files
  imports Proto_Resolving Go_Paths
begin

section \<open>Go files of the generator\<close>

text \<open>
  \<^verbatim>\<open>gremlinc/internal/generators/golang\<close>: the names and the text of generated enums
  (\<^verbatim>\<open>types/enums.go\<close>), the names of structs and their fields (\<^verbatim>\<open>types/structs.go\<close>, \<^verbatim>\<open>types/fields.go\<close>), and
  a generated file with its imports (\<^verbatim>\<open>core/files.go\<close>). A pointer to a definition is the position of
  its file and its position there; a pointer to a generated file is its position in the list of
  files. The text of a struct is in \<open>Go_Templates\<close>, its meaning in \<open>Message_Writer\<close> and \<open>Message_Reader\<close>.
\<close>

type_synonym defPtr = "nat \<times> nat"

subsection \<open>Enums\<close>

record goEnumVariant =
  ConstName :: string
  variantValue :: int
  variantProto :: ScopedName

record GoEnumType =
  EnumName :: string
  enumValuesPrefix :: string
  variants :: "goEnumVariant list"
  enumProto :: defPtr

definition underscore :: string where "underscore = ''_''"

definition enumPrefix :: "EnumDefinition \<Rightarrow> string" where
  "enumPrefix enum =
     (let enumType = replaceChar (CHR ''.'') (CHR ''_'') (ProtoName (en_name enum)); lp = LocalPath (en_name enum)
      in if length lp > 0 then join underscore lp @ underscore else enumType @ underscore)"

definition enumTypeName :: "EnumDefinition \<Rightarrow> string" where
  "enumTypeName enum =
     (let enumType = replaceChar (CHR ''.'') (CHR ''_'') (ProtoName (en_name enum)); lp = LocalPath (en_name enum)
      in if length lp > 0 then join underscore lp @ underscore @ enumType else enumType)"

definition NewEnumType :: "defPtr \<Rightarrow> EnumDefinition \<Rightarrow> GoEnumType" where
  "NewEnumType ptr enum =
     \<lparr>EnumName = enumTypeName enum, enumValuesPrefix = enumPrefix enum,
      variants = map (\<lambda>v. \<lparr>ConstName = enumPrefix enum @ ProtoName (ev_name v), variantValue = ev_value v,
        variantProto = ev_name v\<rparr>) (en_values enum),
      enumProto = ptr\<rparr>"

definition GetEnumForDefault :: "GoEnumType \<Rightarrow> string \<Rightarrow> string" where
  "GetEnumForDefault g s =
     (case List.find (\<lambda>v. ProtoName (variantProto v) = s) (variants g) of None \<Rightarrow> [] | Some v \<Rightarrow> ConstName v)"

definition decInt :: "int \<Rightarrow> string" where
  "decInt n = (if n < 0 then CHR ''-'' # dec (nat (- n)) else dec (nat n))"

definition nl :: string where "nl = [CHR 0x0A]"
definition tab :: string where "tab = [CHR 0x09]"

definition writeEnumHeader :: "GoEnumType \<Rightarrow> string" where
  "writeEnumHeader g = nl @ ''type '' @ EnumName g @ '' int32'' @ nl"

definition writeEnumConstants :: "GoEnumType \<Rightarrow> string" where
  "writeEnumConstants g =
     nl @ ''const ('' @ nl
     @ concat (map (\<lambda>v. tab @ ConstName v @ '' '' @ EnumName g @ '' = '' @ decInt (variantValue v) @ nl) (variants g))
     @ '')'' @ nl"

text \<open>The variants that get a case: a number is used once.\<close>

fun casesOf :: "int list \<Rightarrow> goEnumVariant list \<Rightarrow> goEnumVariant list" where
  "casesOf usedValues [] = []"
| "casesOf usedValues (v # vs) =
     (if variantValue v \<in> set usedValues then casesOf usedValues vs
      else v # casesOf (variantValue v # usedValues) vs)"

definition writeEnumToString :: "GoEnumType \<Rightarrow> string" where
  "writeEnumToString g =
     nl @ ''func (e '' @ EnumName g @ '') String() string {'' @ nl @ tab @ ''switch e {'' @ nl
     @ concat (map (\<lambda>v. tab @ ''case '' @ ConstName v @ '':'' @ nl @ tab @ tab @ ''return '' @ goQuote (ProtoName (variantProto v)) @ nl)
         (casesOf [] (variants g)))
     @ tab @ ''default:'' @ nl @ tab @ tab @ ''return '' @ goQuote [] @ nl @ tab @ ''}'' @ nl @ ''}'' @ nl"

definition GenerateEnum :: "GoEnumType \<Rightarrow> string" where
  "GenerateEnum g = writeEnumHeader g @ writeEnumConstants g @ writeEnumToString g"

text \<open>What the emitted method does: the first case whose constant has the value.\<close>

definition EnumString :: "GoEnumType \<Rightarrow> int \<Rightarrow> string" where
  "EnumString g e =
     (case List.find (\<lambda>v. variantValue v = e) (casesOf [] (variants g)) of
        None \<Rightarrow> [] | Some v \<Rightarrow> ProtoName (variantProto v))"

subsection \<open>Structs\<close>

text \<open>\<^verbatim>\<open>goBasicValueType\<close>, \<^verbatim>\<open>goEnumValueType\<close> and \<^verbatim>\<open>goStructValueType\<close>; default values are Go source.\<close>

datatype goValueType =
    goBasicValueType (bt_name: string) (bt_proto: string) (bt_default: string) (bt_required: bool)
  | goEnumValueType (et_name: string) (et_default: string) (et_required: bool)
  | goStructValueType (st_package: string) (st_name: string) (st_required: bool)

datatype GoFieldType =
    goSingle goValueType
  | goRepeatedValueType goValueType bool
  | goRepeatedPackedValueType goValueType bool
  | goMapValueType goValueType goValueType

record GoStructField =
  gf_name :: string
  gf_type :: GoFieldType
  gf_proto :: MessageFieldDefinition

record GoStructType =
  StructName :: string
  structProto :: defPtr
  structFields :: "GoStructField list"

definition structTypeName :: "MessageDefinition \<Rightarrow> string" where
  "structTypeName msg =
     (let msgType = ProtoName (md_name msg); lp = LocalPath (md_name msg);
          msgType = (if length lp > 0 then join underscore lp @ underscore @ msgType else msgType)
      in replaceChar (CHR ''.'') (CHR ''_'') msgType)"

definition NewStructType :: "defPtr \<Rightarrow> MessageDefinition \<Rightarrow> GoStructType" where
  "NewStructType ptr msg = \<lparr>StructName = structTypeName msg, structProto = ptr, structFields = []\<rparr>"

text \<open>\<^verbatim>\<open>strings.ToUpper\<close> of one ASCII character; names of the language are ASCII.\<close>

definition toUpper :: "char \<Rightarrow> char" where
  "toUpper c = (let n = of_char c :: nat in if 97 \<le> n \<and> n \<le> 122 then char_of (n - 32) else c)"

fun fieldNameFrom :: "bool \<Rightarrow> string \<Rightarrow> string" where
  "fieldNameFrom targetNameShouldUpper [] = []"
| "fieldNameFrom targetNameShouldUpper (c # cs) =
     (if c \<in> set ''-_. '' then fieldNameFrom True cs
      else if targetNameShouldUpper then toUpper c # fieldNameFrom False cs
      else c # fieldNameFrom False cs)"

definition AddField :: "MessageFieldDefinition \<Rightarrow> GoFieldType \<Rightarrow> GoStructType \<Rightarrow> GoStructType" where
  "AddField fd t g = g\<lparr>structFields := structFields g @
     [\<lparr>gf_name = fieldNameFrom True (ProtoName (fd_name fd)), gf_type = t, gf_proto = fd\<rparr>]\<rparr>"

subsection \<open>Files and imports\<close>

record GoImport =
  ImportPath :: string
  Alias :: string
  GoFiles :: "nat list"
  Used :: bool

record GoGeneratedFile =
  goImports :: "GoImport list"
  samePackageImports :: "nat list"
  enums :: "GoEnumType list"
  structs :: "GoStructType list"
  protoFile :: nat
  FullPackageName :: string
  ShortPackageName :: string
  FullOutputPath :: string

text \<open>The alias for a package: the suffix counts the imports that have the alias without a suffix.\<close>

definition freeAlias :: "GoImport list \<Rightarrow> string \<Rightarrow> string" where
  "freeAlias imps al =
     (let usedAliases = length (List.filter (\<lambda>goImport. Alias goImport = al) imps)
      in if usedAliases > 0 then al @ underscore @ dec usedAliases else al)"

definition AddImport :: "string \<Rightarrow> string \<Rightarrow> GoGeneratedFile \<Rightarrow> GoGeneratedFile" where
  "AddImport p al g =
     (if list_ex (\<lambda>goImport. ImportPath goImport = p) (goImports g) then g
      else g\<lparr>goImports := goImports g @ [\<lparr>ImportPath = p, Alias = freeAlias (goImports g) al, GoFiles = [], Used = True\<rparr>]\<rparr>)"

text \<open>\<open>t\<close> is the position of the file \<open>targetFile\<close>.\<close>

definition AddProtoImport :: "nat \<Rightarrow> GoGeneratedFile \<Rightarrow> GoGeneratedFile \<Rightarrow> GoGeneratedFile" where
  "AddProtoImport t targetFile g =
     (if FullPackageName targetFile = FullPackageName g
      then g\<lparr>samePackageImports := samePackageImports g @ [t]\<rparr>
      else case findIndex (\<lambda>goImport. ImportPath goImport = FullPackageName targetFile) (goImports g) of
        Some i \<Rightarrow> g\<lparr>goImports := (goImports g)[i := (goImports g ! i)\<lparr>GoFiles := GoFiles (goImports g ! i) @ [t]\<rparr>]\<rparr>
      | None \<Rightarrow> g\<lparr>goImports := goImports g @ [\<lparr>ImportPath = FullPackageName targetFile,
            Alias = freeAlias (goImports g) (ShortPackageName targetFile), GoFiles = [t], Used = False\<rparr>]\<rparr>)"

definition AddEnum :: "GoEnumType \<Rightarrow> GoGeneratedFile \<Rightarrow> GoGeneratedFile" where
  "AddEnum e g = g\<lparr>enums := enums g @ [e]\<rparr>"

definition AddStruct :: "GoStructType \<Rightarrow> GoGeneratedFile \<Rightarrow> GoGeneratedFile" where
  "AddStruct s g = g\<lparr>structs := structs g @ [s]\<rparr>"

text \<open>\<open>None\<close> is the nil pointer, which no definition has.\<close>

definition FindEnum :: "GoGeneratedFile \<Rightarrow> defPtr option \<Rightarrow> GoEnumType option" where
  "FindEnum g ptr = List.find (\<lambda>enum. Some (enumProto enum) = ptr) (enums g)"

definition FindStruct :: "GoGeneratedFile \<Rightarrow> defPtr option \<Rightarrow> GoStructType option" where
  "FindStruct g ptr = List.find (\<lambda>goType. Some (structProto goType) = ptr) (structs g)"

definition ImportFindEnum :: "GoGeneratedFile list \<Rightarrow> GoImport \<Rightarrow> defPtr option \<Rightarrow> GoEnumType option" where
  "ImportFindEnum goFiles g ptr = first_some (\<lambda>k. FindEnum (goFiles ! k) ptr) (GoFiles g)"

definition ImportFindStruct :: "GoGeneratedFile list \<Rightarrow> GoImport \<Rightarrow> defPtr option \<Rightarrow> GoStructType option" where
  "ImportFindStruct goFiles g ptr = first_some (\<lambda>k. FindStruct (goFiles ! k) ptr) (GoFiles g)"

text \<open>The import that has the file: first the files of the same package, then the imports, which are
  marked as used.\<close>

definition findSame :: "GoGeneratedFile list \<Rightarrow> nat \<Rightarrow> GoGeneratedFile \<Rightarrow> nat option" where
  "findSame goFiles t g = List.find (\<lambda>k. protoFile (goFiles ! k) = t) (samePackageImports g)"

definition findImport :: "GoGeneratedFile list \<Rightarrow> nat \<Rightarrow> GoGeneratedFile \<Rightarrow> nat option" where
  "findImport goFiles t g = findIndex (\<lambda>goImport. list_ex (\<lambda>k. protoFile (goFiles ! k) = t) (GoFiles goImport)) (goImports g)"

definition markUsed :: "nat \<Rightarrow> GoGeneratedFile \<Rightarrow> GoGeneratedFile" where
  "markUsed i g = g\<lparr>goImports := (goImports g)[i := (goImports g ! i)\<lparr>Used := True\<rparr>]\<rparr>"

definition FindEnumInImports :: "GoGeneratedFile list \<Rightarrow> nat \<Rightarrow> defPtr option \<Rightarrow> GoGeneratedFile \<Rightarrow>
    GoGeneratedFile \<times> string \<times> GoEnumType option" where
  "FindEnumInImports goFiles t ptr g =
     (case findSame goFiles t g of
        Some k \<Rightarrow> (g, [], FindEnum (goFiles ! k) ptr)
      | None \<Rightarrow>
          (case findImport goFiles t g of
             Some i \<Rightarrow> (markUsed i g, Alias (goImports g ! i), ImportFindEnum goFiles (goImports g ! i) ptr)
           | None \<Rightarrow> (g, [], None)))"

definition FindStructInImports :: "GoGeneratedFile list \<Rightarrow> nat \<Rightarrow> defPtr option \<Rightarrow> GoGeneratedFile \<Rightarrow>
    GoGeneratedFile \<times> string \<times> GoStructType option" where
  "FindStructInImports goFiles t ptr g =
     (case findSame goFiles t g of
        Some k \<Rightarrow> (g, [], FindStruct (goFiles ! k) ptr)
      | None \<Rightarrow>
          (case findImport goFiles t g of
             Some i \<Rightarrow> (markUsed i g, Alias (goImports g ! i), ImportFindStruct goFiles (goImports g ! i) ptr)
           | None \<Rightarrow> (g, [], None)))"

definition importLines :: "GoImport list \<Rightarrow> string" where
  "importLines filtered =
     (let q = [CHR 0x22] in
      if length filtered > 1 then
        ''import ('' @ nl @ concat (map (\<lambda>i. tab @ Alias i @ '' '' @ q @ ImportPath i @ q @ nl) filtered) @ '')'' @ nl
      else if length filtered = 1 then
        ''import '' @ Alias (hd filtered) @ '' '' @ goQuote (ImportPath (hd filtered)) @ nl
      else [])"

definition gremlinPackage :: string where
  "gremlinPackage = ''github.com/norma-core/norma-core/shared/gremlin_go''"

text \<open>The file that is emitted, with the import of the runtime added.\<close>

definition withRuntime :: "GoGeneratedFile \<Rightarrow> GoGeneratedFile" where
  "withRuntime g = (if length (structs g) > 0 then AddImport gremlinPackage ''gremlin'' g else g)"

end
