(* ===== verification/Go_Mapper.thy ===== *)
theory Go_Mapper
  imports Go_Files
begin

section \<open>From proto files to Go files\<close>

text \<open>
  \<^verbatim>\<open>gremlinc/internal/generators/golang\<close>: the type of a field (\<^verbatim>\<open>fields/types.go\<close>, with the default
  values of \<^verbatim>\<open>scalar.go\<close> and \<^verbatim>\<open>enums.go\<close>), packages, output paths and imports (\<^verbatim>\<open>mapper\<close>), and the
  files written (\<^verbatim>\<open>golang.go\<close>). Resolving a type may mark an import as used or add one, so the
  file at hand is passed along; \<open>goFiles\<close> are all files, whose enums and structs no longer change.
\<close>

datatype map_error =
    UnknownFieldType ScopedName
  | UnknownScalarType string
  | UnknownMapKeyType string
  | UnknownEnumType string string
  | UnknownMessageType string
  | InFile string map_error
  | NoGoFile string "ScopedName option"

subsection \<open>Types of fields\<close>

definition goBasicTypesMap :: "(string \<times> string) list" where
  "goBasicTypesMap =
     [(''string'', ''string''), (''bytes'', ''[]byte''), (''bool'', ''bool''), (''double'', ''float64''),
      (''float'', ''float32''), (''int32'', ''int32''), (''int64'', ''int64''), (''uint32'', ''uint32''),
      (''uint64'', ''uint64''), (''sint32'', ''int32''), (''sint64'', ''int64''), (''fixed32'', ''uint32''),
      (''fixed64'', ''uint64''), (''sfixed32'', ''int32''), (''sfixed64'', ''int64'')]"

definition goTypeName :: "string \<Rightarrow> string" where
  "goTypeName t = (case map_of goBasicTypesMap t of None \<Rightarrow> [] | Some n \<Rightarrow> n)"

definition canBePacked :: "string \<Rightarrow> bool" where
  "canBePacked t \<longleftrightarrow> t \<in> set [''bool'', ''double'', ''float'', ''int32'', ''int64'', ''uint32'', ''uint64'', ''sint32'',
     ''sint64'', ''fixed32'', ''fixed64'', ''sfixed32'', ''sfixed64'']"

definition parseByteDefaultValue :: "ProtoOption \<Rightarrow> GoGeneratedFile \<Rightarrow> GoGeneratedFile \<times> string" where
  "parseByteDefaultValue opt g =
     (AddImport ''bytes'' ''bytes'' g,
      ''[]byte('' @ (if po_is_string opt then goQuote (po_source opt) else po_source opt) @ '')'')"

text \<open>\<open>setPositiveInfDefault\<close>, \<open>setNegativeInfDefault\<close> and \<open>setNanDefault\<close> differ in the call.\<close>

definition setMathDefault :: "string \<Rightarrow> string \<Rightarrow> GoGeneratedFile \<Rightarrow> GoGeneratedFile \<times> string" where
  "setMathDefault typeName call g =
     (AddImport ''math'' ''math'' g,
      if typeName \<noteq> ''float64'' then typeName @ ''('' @ call @ '')'' else call)"

definition parseDefaultValue :: "string \<Rightarrow> MessageFieldDefinition \<Rightarrow> GoGeneratedFile \<Rightarrow> GoGeneratedFile \<times> string" where
  "parseDefaultValue typeName field g =
     (case fd_default field of
        None \<Rightarrow> (g, [])
      | Some opt \<Rightarrow>
          if typeName = ''[]byte'' then parseByteDefaultValue opt g
          else if typeName = ''string'' then (g, goQuote (po_source opt))
          else if po_source opt = ''inf'' then setMathDefault typeName ''math.Inf(1)'' g
          else if po_source opt = ''-inf'' then setMathDefault typeName ''math.Inf(-1)'' g
          else if po_source opt = ''nan'' then setMathDefault typeName ''math.NaN()'' g
          else (g, po_source opt))"

definition resolveMapKeyType :: "MessageFieldDefinition \<Rightarrow> map_error + goValueType" where
  "resolveMapKeyType field =
     (let keyType = goTypeName (fd_map_key field) in
      if keyType = [] then Inl (UnknownMapKeyType (fd_map_key field))
      else Inr (goBasicValueType keyType (fd_map_key field) [] False))"

definition resolveScalarType :: "MessageFieldDefinition \<Rightarrow> GoGeneratedFile \<Rightarrow> GoGeneratedFile \<times> (map_error + GoFieldType)" where
  "resolveScalarType field g =
     (let typeName = goTypeName (fd_scalar field) in
      if typeName = [] then (g, Inl (UnknownScalarType (fd_scalar field)))
      else let baseType = goBasicValueType typeName (fd_scalar field) [] (fd_required field) in
        if fd_repeated field then
          (g, Inr (if canBePacked (fd_scalar field) then goRepeatedPackedValueType baseType (fd_required field)
                   else goRepeatedValueType baseType (fd_required field)))
        else if fd_map field then
          (g, andThen (resolveMapKeyType field) (\<lambda>basicKeyType. Inr (goMapValueType basicKeyType baseType)))
        else let (g, d) = parseDefaultValue typeName field g in
          (g, Inr (goSingle (goBasicValueType typeName (fd_scalar field) d (fd_required field)))))"

text \<open>\<open>i\<close> is the position of the file whose field this is.\<close>

definition resolveEnumType :: "ProtoFile list \<Rightarrow> GoGeneratedFile list \<Rightarrow> nat \<Rightarrow> MessageFieldDefinition \<Rightarrow> GoGeneratedFile \<Rightarrow>
    GoGeneratedFile \<times> (map_error + GoFieldType)" where
  "resolveEnumType parsed goFiles i field g =
     (let (g, enumPackage, enumType) =
        (case fd_external_file field of
           Some t \<Rightarrow> (let (g, al, e) = FindEnumInImports goFiles t (map_option (Pair t) (fd_external_enum field)) g
             in (g, if al \<noteq> [] then al @ dot else [], e))
         | None \<Rightarrow> (g, [], FindEnum g (map_option (Pair i) (fd_local_enum field))))
      in case enumType of
        None \<Rightarrow> (g, Inl (UnknownEnumType (pf_type (fd_proto field)) (pf_name (fd_proto field))))
      | Some e \<Rightarrow>
          let enumName = enumPackage @ EnumName e; valueType = goEnumValueType enumName [] (fd_required field) in
          if fd_repeated field then (g, Inr (goRepeatedPackedValueType valueType (fd_required field)))
          else if fd_map field then
            (g, andThen (resolveMapKeyType field) (\<lambda>basicKeyType. Inr (goMapValueType basicKeyType valueType)))
          else (g, Inr (goSingle (goEnumValueType enumName
            (if pr_proto2 (parsed ! protoFile g) then ''0''
             else case fd_default field of None \<Rightarrow> []
                  | Some opt \<Rightarrow> enumPackage @ GetEnumForDefault e (po_source opt))
            (fd_required field)))))"

definition resolveMsgType :: "GoGeneratedFile list \<Rightarrow> nat \<Rightarrow> MessageFieldDefinition \<Rightarrow> GoGeneratedFile \<Rightarrow>
    GoGeneratedFile \<times> (map_error + GoFieldType)" where
  "resolveMsgType goFiles i field g =
     (let (g, msgPackage, msgType) =
        (case fd_external_file field of
           Some t \<Rightarrow> FindStructInImports goFiles t (map_option (Pair t) (fd_external_msg field)) g
         | None \<Rightarrow> (g, [], FindStruct g (map_option (Pair i) (fd_local_msg field))))
      in case msgType of
        None \<Rightarrow> (g, Inl (UnknownMessageType (pf_type (fd_proto field))))
      | Some s \<Rightarrow>
          let valueType = goStructValueType msgPackage (StructName s) (fd_required field) in
          if fd_repeated field then (g, Inr (goRepeatedValueType valueType (fd_required field)))
          else if fd_map field then
            (g, andThen (resolveMapKeyType field) (\<lambda>basicKeyType. Inr (goMapValueType basicKeyType valueType)))
          else (g, Inr (goSingle valueType)))"

definition ResolveType :: "ProtoFile list \<Rightarrow> GoGeneratedFile list \<Rightarrow> nat \<Rightarrow> MessageFieldDefinition \<Rightarrow> GoGeneratedFile \<Rightarrow>
    GoGeneratedFile \<times> (map_error + GoFieldType)" where
  "ResolveType parsed goFiles i field g =
     (if fd_scalar field \<noteq> [] then resolveScalarType field g
      else if fd_local_enum field \<noteq> None \<or> fd_external_enum field \<noteq> None then resolveEnumType parsed goFiles i field g
      else if fd_local_msg field \<noteq> None \<or> fd_external_msg field \<noteq> None then resolveMsgType goFiles i field g
      else (g, Inl (UnknownFieldType (fd_name field))))"

subsection \<open>Packages and paths\<close>

definition RelativePath :: "ProtoFile \<Rightarrow> string" where
  "RelativePath f = path (pr_relative f)"

definition packageName :: "ProtoFile \<Rightarrow> string" where
  "packageName f = (case pr_package f of None \<Rightarrow> [] | Some p \<Rightarrow> ProtoName p)"

definition cleanupPackageName :: "string \<Rightarrow> string" where
  "cleanupPackageName s = replaceChar (CHR ''.'') (CHR ''_'') (replaceChar (CHR ''-'') (CHR ''_'') s)"

definition getGoPackage :: "string \<Rightarrow> string \<Rightarrow> ProtoFile \<Rightarrow> string \<times> string" where
  "getGoPackage outBase modulePath target =
     (let pkgName = Dir (RelativePath target);
          protoName = packageName target;
          platform = (case pr_package target of None \<Rightarrow> [] | Some p \<Rightarrow> PlatformName p TargetPlatform_Go)
      in if platform = [] then
        (let (shortName, pkgName) =
               (if protoName \<noteq> [] then (protoName, Join [pkgName, protoName]) else (Base pkgName, pkgName));
             pkgName = (if modulePath \<noteq> [] then Join [modulePath, trimPrefix (trimPrefix pkgName ''.'') [slash]]
                        else Join [Base outBase, trimPrefix pkgName outBase])
         in (cleanupPackageName shortName, pkgName))
      else (cleanupPackageName (Base platform), platform))"

definition buildOutputPath :: "string \<Rightarrow> ProtoFile \<Rightarrow> string" where
  "buildOutputPath root pFile =
     (let fName = trimSuffix (Base (RelativePath pFile)) ''.proto'' @ ''.pb2.go'';
          pkgDir = Dir (RelativePath pFile);
          protoName = packageName pFile;
          pkgDir = (if protoName \<noteq> [] then Join [pkgDir, protoName] else pkgDir);
          pkgDir = trimPrefix (trimPrefix pkgDir ''.'') [slash]
      in Join [root, pkgDir, fName])"

subsection \<open>The mapper\<close>

text \<open>The report on an import without a target file panics.\<close>

fun addImports :: "GoGeneratedFile list \<Rightarrow> ProtoFile list \<Rightarrow> ProtoFile \<Rightarrow> ProtoImport list \<Rightarrow> GoGeneratedFile \<times> map_error list \<Rightarrow>
    unit fault + GoGeneratedFile \<times> map_error list" where
  "addImports goFiles parsed f [] s = Inr s"
| "addImports goFiles parsed f (imp # is) (g, errors) =
     (case im_target imp of
        None \<Rightarrow> Inl Panic
      | Some t \<Rightarrow>
          addImports goFiles parsed f is
            (case findIndex (\<lambda>go. protoFile go = t) goFiles of
               None \<Rightarrow> (g, errors @ [NoGoFile (RelativePath (parsed ! t)) (pr_package f)])
             | Some k \<Rightarrow> (AddProtoImport k (goFiles ! k) g, errors)))"

fun mapImports :: "ProtoFile list \<Rightarrow> nat list \<Rightarrow> GoGeneratedFile list \<times> map_error list \<Rightarrow>
    unit fault + GoGeneratedFile list \<times> map_error list" where
  "mapImports parsed [] s = Inr s"
| "mapImports parsed (i # is) (goFiles, errors) =
     (let f = parsed ! protoFile (goFiles ! i) in
      andThen (addImports goFiles parsed f (pr_imports f) (goFiles ! i, errors)) (\<lambda>(g, errors).
        mapImports parsed is (goFiles[i := g], errors)))"

definition newGoFile :: "string \<Rightarrow> string \<Rightarrow> nat \<Rightarrow> ProtoFile \<Rightarrow> GoGeneratedFile option" where
  "newGoFile root modulePath i target =
     (let (shortName, fullName) = getGoPackage root modulePath target in
      if shortName = [] \<or> fullName = [] then None
      else Some \<lparr>goImports = [], samePackageImports = [], enums = [], structs = [], protoFile = i,
        FullPackageName = fullName, ShortPackageName = shortName, FullOutputPath = []\<rparr>)"

definition addDefinitions :: "ProtoFile list \<Rightarrow> GoGeneratedFile \<Rightarrow> GoGeneratedFile" where
  "addDefinitions parsed g =
     (let t = protoFile g; f = parsed ! t;
          g = foldl (\<lambda>g j. AddEnum (NewEnumType (t, j) (pr_enums f ! j)) g) g [0..<length (pr_enums f)]
      in foldl (\<lambda>g j. AddStruct (NewStructType (t, j) (pr_messages f ! j)) g) g [0..<length (pr_messages f)])"

definition mapField :: "ProtoFile list \<Rightarrow> GoGeneratedFile list \<Rightarrow> nat \<Rightarrow> nat \<Rightarrow> MessageFieldDefinition \<Rightarrow>
    GoGeneratedFile \<times> map_error list \<Rightarrow> GoGeneratedFile \<times> map_error list" where
  "mapField parsed goFiles i j field = (\<lambda>(g, errors).
     case ResolveType parsed goFiles i field g of
       (g, Inl e) \<Rightarrow> (g, errors @ [InFile (RelativePath (parsed ! protoFile g)) e])
     | (g, Inr t) \<Rightarrow> (g\<lparr>structs := (structs g)[j := AddField field t (structs g ! j)]\<rparr>, errors))"

definition mapMessage :: "ProtoFile list \<Rightarrow> GoGeneratedFile list \<Rightarrow> nat \<Rightarrow> nat \<Rightarrow> GoGeneratedFile \<times> map_error list \<Rightarrow>
    GoGeneratedFile \<times> map_error list" where
  "mapMessage parsed goFiles i j s =
     fold (mapField parsed goFiles i j) (md_fields (pr_messages (parsed ! i) ! j)) s"

definition mapFields :: "ProtoFile list \<Rightarrow> nat \<Rightarrow> GoGeneratedFile list \<times> map_error list \<Rightarrow> GoGeneratedFile list \<times> map_error list" where
  "mapFields parsed i = (\<lambda>(goFiles, errors).
     let (g, errors) = fold (mapMessage parsed goFiles i) [0..<length (pr_messages (parsed ! i))] (goFiles ! i, errors)
     in (goFiles[i := g], errors))"

text \<open>A file without a package has no Go file, and \<open>mapImports\<close> panics on the missing one.\<close>

definition MapProtoFiles :: "string \<Rightarrow> string \<Rightarrow> ProtoFile list \<Rightarrow> unit fault + GoGeneratedFile list \<times> map_error list" where
  "MapProtoFiles root modulePath parsed =
     (let is = [0..<length parsed];
          result = map (\<lambda>i. newGoFile root modulePath i (parsed ! i)) is
      in if list_ex Option.is_none result then Inl Panic
      else andThen (mapImports parsed is (map the result, [])) (\<lambda>(goFiles, errors).
        if length errors > 0 then Inr ([], errors)
        else let goFiles = map (\<lambda>g. g\<lparr>FullOutputPath := buildOutputPath root (parsed ! protoFile g)\<rparr>) goFiles;
                 goFiles = map (addDefinitions parsed) goFiles
             in Inr (fold (mapFields parsed) is (goFiles, errors))))"

end
