(* ===== verification/Go_Mapper_Properties.thy ===== *)
theory Go_Mapper_Properties
  imports Go_Mapper Proto_Properties
begin

section \<open>Every resolved field gets a Go type\<close>

text \<open>
  The mapper is compared with the references that resolution leaves in the fields (\<open>linked\<close>): every
  file gets its enums and structs in order, every file imported by a proto file is found from its Go file,
  so every field gets a type, and no step of the mapper panics or reports an error. Further
  lemmas: where the files are written and how packages are named, and inputs on which names collide.
\<close>

subsection \<open>Linked files\<close>

definition import_targets :: "ProtoFile \<Rightarrow> nat list" where
  "import_targets f = List.map_filter im_target (pr_imports f)"

definition imports_linked :: "ProtoFile list \<Rightarrow> ProtoFile \<Rightarrow> bool" where
  "imports_linked parsed f \<longleftrightarrow>
     list_all (\<lambda>imp. case im_target imp of None \<Rightarrow> False | Some t \<Rightarrow> t < length parsed) (pr_imports f)"

text \<open>A definition of a file: an enum if the first reference is set, else a message.\<close>

fun ref_in :: "ProtoFile \<Rightarrow> nat option \<Rightarrow> nat option \<Rightarrow> bool" where
  "ref_in f (Some j) m = (j < length (pr_enums f))"
| "ref_in f None (Some j) = (j < length (pr_messages f))"
| "ref_in f None None = False"

definition linked_field :: "ProtoFile list \<Rightarrow> ProtoFile \<Rightarrow> MessageFieldDefinition \<Rightarrow> bool" where
  "linked_field parsed f fd \<longleftrightarrow>
     (fd_map fd \<longrightarrow> isScalar (fd_map_key fd)) \<and>
     (if fd_scalar fd \<noteq> [] then isScalar (fd_scalar fd)
      else case fd_external_file fd of
        None \<Rightarrow> fd_external_enum fd = None \<and> fd_external_msg fd = None \<and> ref_in f (fd_local_enum fd) (fd_local_msg fd)
      | Some t \<Rightarrow> fd_local_enum fd = None \<and> fd_local_msg fd = None \<and> t \<in> set (import_targets f)
          \<and> ref_in (parsed ! t) (fd_external_enum fd) (fd_external_msg fd))"

definition linked_file :: "ProtoFile list \<Rightarrow> ProtoFile \<Rightarrow> bool" where
  "linked_file parsed f \<longleftrightarrow> imports_linked parsed f \<and> list_all (\<lambda>m. list_all (linked_field parsed f) (md_fields m)) (pr_messages f)"

definition linked :: "ProtoFile list \<Rightarrow> bool" where
  "linked parsed \<longleftrightarrow> list_all (linked_file parsed) parsed"

lemma imports_linkedD: "imports_linked parsed f \<Longrightarrow> imp \<in> set (pr_imports f) \<Longrightarrow> \<exists>t. im_target imp = Some t \<and> t < length parsed"
  by (auto simp: imports_linked_def list_all_iff split: option.splits)

lemma import_targets_less: "imports_linked parsed f \<Longrightarrow> t \<in> set (import_targets f) \<Longrightarrow> t < length parsed"
  by (auto simp: import_targets_def map_filter_def dest: imports_linkedD)

subsection \<open>Types\<close>

fun value_ok :: "goValueType \<Rightarrow> bool" where
  "value_ok (goBasicValueType n p d r) = (isScalar p \<and> n = goTypeName p \<and> n \<noteq> [])"
| "value_ok _ = True"

fun packable :: "goValueType \<Rightarrow> bool" where
  "packable (goBasicValueType n p d r) = canBePacked p"
| "packable (goEnumValueType n d r) = True"
| "packable (goStructValueType p n r) = False"

fun go_type_ok :: "GoFieldType \<Rightarrow> bool" where
  "go_type_ok (goSingle v) = value_ok v"
| "go_type_ok (goRepeatedValueType v r) = (value_ok v \<and> \<not> packable v)"
| "go_type_ok (goRepeatedPackedValueType v r) = (value_ok v \<and> packable v)"
| "go_type_ok (goMapValueType k v) = (value_ok v \<and> (case k of goBasicValueType n p d r \<Rightarrow> value_ok k \<and> d = [] | _ \<Rightarrow> False))"

text \<open>Every scalar type of the language has a Go type.\<close>

lemma scalar_type_known: "isScalar t \<Longrightarrow> goTypeName t \<noteq> []"
  by (auto simp: isScalar_def ProtobufScalarTypes_def goTypeName_def goBasicTypesMap_def)

lemma resolveMapKeyType_ok: "isScalar (fd_map_key field) \<Longrightarrow>
    resolveMapKeyType field = Inr (goBasicValueType (goTypeName (fd_map_key field)) (fd_map_key field) [] False)"
  by (simp add: resolveMapKeyType_def scalar_type_known Let_def)

subsection \<open>What resolving a type does to the file\<close>

definition import_info :: "GoGeneratedFile \<Rightarrow> (string \<times> string \<times> nat list) list" where
  "import_info g = map (\<lambda>i. (Alias i, ImportPath i, GoFiles i)) (goImports g)"

definition import_files :: "GoGeneratedFile \<Rightarrow> nat list" where
  "import_files g = concat (map (\<lambda>(a, p, fs). fs) (import_info g))"

text \<open>The imports that are emitted.\<close>

definition used_imports :: "GoGeneratedFile \<Rightarrow> (string \<times> string) list" where
  "used_imports g = map (\<lambda>i. (Alias i, ImportPath i)) (filter Used (goImports g))"

text \<open>Only imports without files are added; imports keep their names and stay used.\<close>

definition keeps :: "GoGeneratedFile \<Rightarrow> GoGeneratedFile \<Rightarrow> bool" where
  "keeps g g' \<longleftrightarrow> enums g' = enums g \<and> structs g' = structs g \<and> protoFile g' = protoFile g
     \<and> samePackageImports g' = samePackageImports g \<and> FullPackageName g' = FullPackageName g \<and> FullOutputPath g' = FullOutputPath g
     \<and> (\<exists>added. import_info g' = import_info g @ map (\<lambda>(a, p). (a, p, [])) added)
     \<and> set (used_imports g) \<subseteq> set (used_imports g')"

lemma keepsI:
  assumes "import_info g' = import_info g @ map (\<lambda>(a, p). (a, p, [])) added"
    and "enums g' = enums g" and "structs g' = structs g" and "protoFile g' = protoFile g"
    and "samePackageImports g' = samePackageImports g" and "FullPackageName g' = FullPackageName g" and "FullOutputPath g' = FullOutputPath g"
    and "set (used_imports g) \<subseteq> set (used_imports g')"
  shows "keeps g g'"
  using assms by (auto simp: keeps_def)

lemma keeps_refl [simp]: "keeps g g" by (rule keepsI [of _ _ "[]"]) simp_all

lemma AddImport_keeps: "keeps g (AddImport p al g)"
proof (cases "list_ex (\<lambda>goImport. ImportPath goImport = p) (goImports g)")
  case False
  then show ?thesis
    by (intro keepsI [of _ _ "[(freeAlias (goImports g) al, p)]"]) (auto simp: AddImport_def import_info_def used_imports_def)
qed (simp add: AddImport_def)

lemma markUsed_info: "import_info (markUsed i g) = import_info g"
proof (cases "i < length (goImports g)")
  case True
  then show ?thesis by (auto simp: import_info_def markUsed_def nth_list_update intro!: nth_equalityI)
qed (simp add: import_info_def markUsed_def list_update_beyond)

lemma markUsed_used:
  "set (used_imports (markUsed i g)) = set (used_imports g) \<union>
     (if i < length (goImports g) then {(Alias (goImports g ! i), ImportPath (goImports g ! i))} else {})"
proof (cases "i < length (goImports g)")
  case True
  let ?used = "(goImports g ! i)\<lparr>Used := True\<rparr>"
  have split: "goImports g = take i (goImports g) @ goImports g ! i # drop (Suc i) (goImports g)"
    using True by (rule id_take_nth_drop)
  have "used_imports (markUsed i g) = map (\<lambda>i. (Alias i, ImportPath i))
      (filter Used (take i (goImports g) @ ?used # drop (Suc i) (goImports g)))"
    using True by (simp add: used_imports_def markUsed_def upd_conv_take_nth_drop)
  moreover have "used_imports g = map (\<lambda>i. (Alias i, ImportPath i))
      (filter Used (take i (goImports g) @ goImports g ! i # drop (Suc i) (goImports g)))"
    by (subst split [symmetric]) (simp add: used_imports_def)
  ultimately show ?thesis using True by auto
qed (simp add: used_imports_def markUsed_def list_update_beyond)

lemma markUsed_keeps: "keeps g (markUsed i g)"
  by (rule keepsI [of _ _ "[]"]) (simp add: markUsed_info, simp_all add: markUsed_used, simp_all add: markUsed_def)

lemma parseDefaultValue_keeps: "keeps g (fst (parseDefaultValue t field g))"
  by (auto simp: parseDefaultValue_def parseByteDefaultValue_def setMathDefault_def AddImport_keeps split: option.split)

lemma Find_keeps: "keeps g (fst (FindEnumInImports goFiles t ptr g))" "keeps g (fst (FindStructInImports goFiles t ptr g))"
  by (simp_all add: FindEnumInImports_def FindStructInImports_def markUsed_keeps split: option.split)

lemma keeps_files: "keeps g g' \<Longrightarrow> import_files g' = import_files g"
proof -
  have "concat (map (\<lambda>(a, p, fs). fs) (map (\<lambda>(a, p). (a, p, [])) added)) = []" for added :: "(string \<times> string) list"
    by (induction added) auto
  then show "keeps g g' \<Longrightarrow> import_files g' = import_files g" by (auto simp: keeps_def import_files_def simp del: map_map)
qed

subsection \<open>Files with their definitions\<close>

text \<open>The Go file of a proto file has its enums and structs, in order, under their names, and lies in
  the package chosen for the file; \<open>pk\<close> gives the import paths of the packages.\<close>

definition shape :: "(nat \<Rightarrow> string) \<Rightarrow> ProtoFile list \<Rightarrow> nat \<Rightarrow> GoGeneratedFile \<Rightarrow> bool" where
  "shape pk parsed k g \<longleftrightarrow> protoFile g = k \<and> FullPackageName g = pk k
     \<and> map (\<lambda>e. (enumProto e, EnumName e)) (enums g)
       = map (\<lambda>j. ((k, j), enumTypeName (pr_enums (parsed ! k) ! j))) [0..<length (pr_enums (parsed ! k))]
     \<and> map (\<lambda>s. (structProto s, StructName s)) (structs g)
       = map (\<lambda>j. ((k, j), structTypeName (pr_messages (parsed ! k) ! j))) [0..<length (pr_messages (parsed ! k))]"

definition shapes :: "(nat \<Rightarrow> string) \<Rightarrow> ProtoFile list \<Rightarrow> GoGeneratedFile list \<Rightarrow> bool" where
  "shapes pk parsed goFiles \<longleftrightarrow> length goFiles = length parsed \<and> (\<forall>k < length parsed. shape pk parsed k (goFiles ! k))"

text \<open>A file is seen from another one through its package or an import.\<close>

definition sees :: "GoGeneratedFile \<Rightarrow> nat \<Rightarrow> bool" where
  "sees g t \<longleftrightarrow> t \<in> set (samePackageImports g) \<or> t \<in> set (import_files g)"

definition sees_only :: "nat \<Rightarrow> GoGeneratedFile \<Rightarrow> bool" where
  "sees_only n g \<longleftrightarrow> (\<forall>t. sees g t \<longrightarrow> t < n)"

lemma keeps_sees: "keeps g g' \<Longrightarrow> sees g' t \<longleftrightarrow> sees g t"
  using keeps_files [of g g'] by (auto simp: sees_def) (auto simp: keeps_def)

text \<open>Files are seen through the package they are in.\<close>

fun import_right :: "(nat \<Rightarrow> string) \<Rightarrow> string \<times> string \<times> nat list \<Rightarrow> bool" where
  "import_right pk (a, p, fs) = (fs \<noteq> [] \<longrightarrow> a \<noteq> [] \<and> list_all (\<lambda>k. pk k = p) fs)"

definition imports_right :: "(nat \<Rightarrow> string) \<Rightarrow> GoGeneratedFile \<Rightarrow> bool" where
  "imports_right pk g \<longleftrightarrow> list_all (\<lambda>k. pk k = FullPackageName g) (samePackageImports g)
     \<and> list_all (import_right pk) (import_info g)"

lemma keeps_right: "keeps g g' \<Longrightarrow> imports_right pk g \<Longrightarrow> imports_right pk g'"
  by (auto simp: keeps_def imports_right_def list.pred_map o_def list_all_iff [of "\<lambda>x. import_right pk (case x of (a, p) \<Rightarrow> (a, p, []))"])

text \<open>The qualifier under which a file has the package of file \<open>k\<close>; its import is emitted.\<close>

definition reached_as :: "(nat \<Rightarrow> string) \<Rightarrow> GoGeneratedFile \<Rightarrow> nat \<Rightarrow> string \<Rightarrow> bool" where
  "reached_as pk g k al \<longleftrightarrow>
     (if al = [] then pk k = FullPackageName g else (al, pk k) \<in> set (used_imports g))"

lemma keeps_qualified: "keeps g g' \<Longrightarrow> reached_as pk g k al \<Longrightarrow> reached_as pk g' k al"
  by (auto simp: keeps_def reached_as_def)

lemma find_named:
  assumes "map (\<lambda>x. (f x, h x)) xs = map (\<lambda>j. ((k, j), nm j)) [0..<n]"
  shows "j < n \<Longrightarrow> \<exists>x. List.find (\<lambda>x. Some (f x) = Some (k, j)) xs = Some x"
    and "List.find (\<lambda>x. Some (f x) = Some (k', j)) xs = Some x \<Longrightarrow> k' = k \<and> h x = nm j"
proof -
  assume "j < n"
  then have "((k, j), nm j) \<in> set (map (\<lambda>x. (f x, h x)) xs)" unfolding assms by simp
  then have "List.find (\<lambda>x. Some (f x) = Some (k, j)) xs \<noteq> None" by (auto simp: find_None_iff)
  then show "\<exists>x. List.find (\<lambda>x. Some (f x) = Some (k, j)) xs = Some x" by auto
next
  assume "List.find (\<lambda>x. Some (f x) = Some (k', j)) xs = Some x"
  then have x: "f x = (k', j)" "x \<in> set xs" by (auto simp: find_Some_iff)
  have "(f x, h x) \<in> set (map (\<lambda>x. (f x, h x)) xs)" using x(2) by simp
  then show "k' = k \<and> h x = nm j" unfolding assms using x(1) by auto
qed

lemma shape_finds:
  assumes "shape pk parsed k g"
  shows "j < length (pr_enums (parsed ! k)) \<Longrightarrow> \<exists>e. FindEnum g (Some (k, j)) = Some e"
    and "j < length (pr_messages (parsed ! k)) \<Longrightarrow> \<exists>s. FindStruct g (Some (k, j)) = Some s"
    and "FindEnum g (Some (k', j)) = Some e \<Longrightarrow> k' = k \<and> EnumName e = enumTypeName (pr_enums (parsed ! k) ! j)"
    and "FindStruct g (Some (k', j)) = Some s \<Longrightarrow> k' = k \<and> StructName s = structTypeName (pr_messages (parsed ! k) ! j)"
proof -
  have e: "map (\<lambda>e. (enumProto e, EnumName e)) (enums g)
       = map (\<lambda>j. ((k, j), enumTypeName (pr_enums (parsed ! k) ! j))) [0..<length (pr_enums (parsed ! k))]"
    and m: "map (\<lambda>s. (structProto s, StructName s)) (structs g)
       = map (\<lambda>j. ((k, j), structTypeName (pr_messages (parsed ! k) ! j))) [0..<length (pr_messages (parsed ! k))]"
    using assms by (simp_all only: shape_def)
  show "j < length (pr_enums (parsed ! k)) \<Longrightarrow> \<exists>e. FindEnum g (Some (k, j)) = Some e"
    unfolding FindEnum_def by (rule find_named(1) [OF e])
  show "j < length (pr_messages (parsed ! k)) \<Longrightarrow> \<exists>s. FindStruct g (Some (k, j)) = Some s"
    unfolding FindStruct_def by (rule find_named(1) [OF m])
  show "FindEnum g (Some (k', j)) = Some e \<Longrightarrow> k' = k \<and> EnumName e = enumTypeName (pr_enums (parsed ! k) ! j)"
    unfolding FindEnum_def by (rule find_named(2) [OF e])
  show "FindStruct g (Some (k', j)) = Some s \<Longrightarrow> k' = k \<and> StructName s = structTypeName (pr_messages (parsed ! k) ! j)"
    unfolding FindStruct_def by (rule find_named(2) [OF m])
qed

text \<open>Both lookups through the imports are one search; \<open>look\<close> is \<open>FindEnum\<close> or \<open>FindStruct\<close>.\<close>

definition findThrough :: "(GoGeneratedFile \<Rightarrow> defPtr option \<Rightarrow> 'a option) \<Rightarrow> GoGeneratedFile list \<Rightarrow> nat \<Rightarrow> defPtr option
    \<Rightarrow> GoGeneratedFile \<Rightarrow> string \<times> 'a option" where
  "findThrough look goFiles t ptr g =
     (case findSame goFiles t g of
        Some k \<Rightarrow> ([], look (goFiles ! k) ptr)
      | None \<Rightarrow> (case findImport goFiles t g of
             Some i \<Rightarrow> (Alias (goImports g ! i), first_some (\<lambda>k. look (goFiles ! k) ptr) (GoFiles (goImports g ! i)))
           | None \<Rightarrow> ([], None)))"

definition markImport :: "GoGeneratedFile list \<Rightarrow> nat \<Rightarrow> GoGeneratedFile \<Rightarrow> GoGeneratedFile" where
  "markImport goFiles t g =
     (if findSame goFiles t g = None then (case findImport goFiles t g of Some i \<Rightarrow> markUsed i g | None \<Rightarrow> g) else g)"

lemma findThrough_lookups:
  "FindEnumInImports goFiles t ptr g = (markImport goFiles t g, findThrough FindEnum goFiles t ptr g)"
  "FindStructInImports goFiles t ptr g = (markImport goFiles t g, findThrough FindStruct goFiles t ptr g)"
  by (simp_all add: FindEnumInImports_def FindStructInImports_def findThrough_def markImport_def ImportFindEnum_def
      ImportFindStruct_def split: option.split)

lemma findThrough_finds:
  assumes "shapes pk parsed goFiles" and "sees_only (length parsed) g" and "imports_right pk g" and "sees g t"
    and found: "\<exists>x. look (goFiles ! t) ptr = Some x"
  shows "\<exists>al x k. findThrough look goFiles t ptr g = (al, Some x) \<and> k < length parsed \<and> look (goFiles ! k) ptr = Some x
    \<and> reached_as pk (markImport goFiles t g) t al"
proof -
  have own: "k < length parsed \<Longrightarrow> protoFile (goFiles ! k) = k" for k using assms(1) by (simp add: shapes_def shape_def)
  have less: "sees g k \<Longrightarrow> k < length parsed" for k using assms(2) by (simp add: sees_only_def)
  show ?thesis
  proof (cases "findSame goFiles t g")
    case (Some k)
    then have k: "k \<in> set (samePackageImports g)" "protoFile (goFiles ! k) = t"
      by (auto simp: findSame_def find_Some_iff)
    then have "k = t" using own less by (auto simp: sees_def)
    moreover have "reached_as pk g t []" using k(1) \<open>k = t\<close> assms(3) by (simp add: reached_as_def imports_right_def list_all_iff)
    ultimately show ?thesis using Some found less [OF assms(4)] by (auto simp: findThrough_def markImport_def)
  next
    case None
    have "t \<notin> set (samePackageImports g)"
      using None own [OF less [OF assms(4)]] by (auto simp: findSame_def find_None_iff)
    then obtain imp where imp: "imp \<in> set (goImports g)" "t \<in> set (GoFiles imp)"
      using assms(4) by (auto simp: sees_def import_files_def import_info_def)
    have "list_ex (\<lambda>k. protoFile (goFiles ! k) = t) (GoFiles imp)"
      using imp(2) own [OF less [OF assms(4)]] by (auto simp: list_ex_iff)
    then obtain i where i: "findImport goFiles t g = Some i"
      using imp(1) unfolding findImport_def by (metis findIndex_None option.exhaust)
    then have il: "i < length (goImports g)" and "list_ex (\<lambda>k. protoFile (goFiles ! k) = t) (GoFiles (goImports g ! i))"
      unfolding findImport_def by (auto dest: findIndex_Some)
    then obtain k where k: "k \<in> set (GoFiles (goImports g ! i))" "protoFile (goFiles ! k) = t" by (auto simp: list_ex_iff)
    have seen: "sees g k" if "k \<in> set (GoFiles (goImports g ! i))" for k
      using that il by (auto simp: sees_def import_files_def import_info_def)
    have info: "(Alias (goImports g ! i), ImportPath (goImports g ! i), GoFiles (goImports g ! i)) \<in> set (import_info g)"
      using il by (simp add: import_info_def)
    have "k = t" using own less [OF seen [OF k(1)]] k(2) by auto
    then have right: "Alias (goImports g ! i) \<noteq> []" "pk t = ImportPath (goImports g ! i)"
      using assms(3) info k(1) by (force simp: imports_right_def list_all_iff)+
    then have q: "reached_as pk (markImport goFiles t g) t (Alias (goImports g ! i))"
      using None i il by (simp add: reached_as_def markImport_def markUsed_used)
    have "first_some (\<lambda>k. look (goFiles ! k) ptr) (GoFiles (goImports g ! i)) \<noteq> None"
      using k(1) found \<open>k = t\<close> by (auto simp: first_some_None)
    then obtain x where x: "first_some (\<lambda>k. look (goFiles ! k) ptr) (GoFiles (goImports g ! i)) = Some x" by auto
    from first_some_SomeD [OF x] obtain l where "l \<in> set (GoFiles (goImports g ! i))" "look (goFiles ! l) ptr = Some x" by blast
    then show ?thesis using None i x q less [OF seen] by (auto simp: findThrough_def)
  qed
qed

subsection \<open>Every linked field has a type\<close>

text \<open>The definition a field refers to, by its file and position, and the name it has in a file.\<close>

definition enum_ref :: "nat \<Rightarrow> MessageFieldDefinition \<Rightarrow> nat \<times> nat option" where
  "enum_ref i fd = (case fd_external_file fd of Some t \<Rightarrow> (t, fd_external_enum fd) | None \<Rightarrow> (i, fd_local_enum fd))"

definition msg_ref :: "nat \<Rightarrow> MessageFieldDefinition \<Rightarrow> nat \<times> nat option" where
  "msg_ref i fd = (case fd_external_file fd of Some t \<Rightarrow> (t, fd_external_msg fd) | None \<Rightarrow> (i, fd_local_msg fd))"

definition with_package :: "string \<Rightarrow> string \<Rightarrow> string" where
  "with_package al n = (if al \<noteq> [] then al @ dot else []) @ n"

fun value_right :: "(nat \<Rightarrow> string) \<Rightarrow> ProtoFile list \<Rightarrow> nat \<Rightarrow> GoGeneratedFile \<Rightarrow> MessageFieldDefinition \<Rightarrow> goValueType \<Rightarrow> bool" where
  "value_right pk parsed i g fd (goBasicValueType n p d r) = (p = fd_scalar fd)"
| "value_right pk parsed i g fd (goEnumValueType n d r) = (\<exists>k j al. enum_ref i fd = (k, Some j) \<and> k < length parsed
     \<and> j < length (pr_enums (parsed ! k)) \<and> n = with_package al (enumTypeName (pr_enums (parsed ! k) ! j)) \<and> reached_as pk g k al)"
| "value_right pk parsed i g fd (goStructValueType al n r) = (\<exists>k j. msg_ref i fd = (k, Some j) \<and> k < length parsed
     \<and> j < length (pr_messages (parsed ! k)) \<and> n = structTypeName (pr_messages (parsed ! k) ! j) \<and> reached_as pk g k al)"

fun element_of :: "GoFieldType \<Rightarrow> goValueType" where
  "element_of (goSingle v) = v"
| "element_of (goRepeatedValueType v r) = v"
| "element_of (goRepeatedPackedValueType v r) = v"
| "element_of (goMapValueType k v) = v"

definition type_right :: "(nat \<Rightarrow> string) \<Rightarrow> ProtoFile list \<Rightarrow> nat \<Rightarrow> GoGeneratedFile \<Rightarrow> MessageFieldDefinition \<Rightarrow> GoFieldType \<Rightarrow> bool" where
  "type_right pk parsed i g fd t \<longleftrightarrow> go_type_ok t \<and> value_right pk parsed i g fd (element_of t)"

lemma value_right_keeps: "keeps g g' \<Longrightarrow> value_right pk parsed i g fd v \<Longrightarrow> value_right pk parsed i g' fd v"
  by (cases v) (auto intro: keeps_qualified)

lemma type_right_keeps: "keeps g g' \<Longrightarrow> type_right pk parsed i g fd t \<Longrightarrow> type_right pk parsed i g' fd t"
  by (simp add: type_right_def value_right_keeps)

lemma resolveScalarType_ok:
  assumes "isScalar (fd_scalar fd)" and "fd_map fd \<longrightarrow> isScalar (fd_map_key fd)"
  shows "\<exists>g' t. resolveScalarType fd g = (g', Inr t) \<and> keeps g g' \<and> type_right pk parsed i g' fd t"
proof -
  obtain g' d where d: "parseDefaultValue (goTypeName (fd_scalar fd)) fd g = (g', d)" by force
  then have "keeps g g'" using parseDefaultValue_keeps [of g "goTypeName (fd_scalar fd)" fd] by simp
  with d assms show ?thesis
    by (simp add: resolveScalarType_def Let_def resolveMapKeyType_ok scalar_type_known type_right_def)
qed

text \<open>The lookup of an enum or a message; \<open>al\<close> is the qualifier of its package.\<close>

definition enum_lookup :: "GoGeneratedFile list \<Rightarrow> nat \<Rightarrow> MessageFieldDefinition \<Rightarrow> GoGeneratedFile \<Rightarrow> GoGeneratedFile \<times> string \<times> GoEnumType option" where
  "enum_lookup goFiles i fd g = (case fd_external_file fd of
     Some t \<Rightarrow> FindEnumInImports goFiles t (map_option (Pair t) (fd_external_enum fd)) g
   | None \<Rightarrow> (g, [], FindEnum g (map_option (Pair i) (fd_local_enum fd))))"

definition msg_lookup :: "GoGeneratedFile list \<Rightarrow> nat \<Rightarrow> MessageFieldDefinition \<Rightarrow> GoGeneratedFile \<Rightarrow> GoGeneratedFile \<times> string \<times> GoStructType option" where
  "msg_lookup goFiles i fd g = (case fd_external_file fd of
     Some t \<Rightarrow> FindStructInImports goFiles t (map_option (Pair t) (fd_external_msg fd)) g
   | None \<Rightarrow> (g, [], FindStruct g (map_option (Pair i) (fd_local_msg fd))))"

lemma lookup_keeps: "keeps g (fst (enum_lookup goFiles i fd g))" "keeps g (fst (msg_lookup goFiles i fd g))"
  by (simp_all add: enum_lookup_def msg_lookup_def Find_keeps split: option.split)

lemma resolveEnumType_ok:
  assumes "enum_lookup goFiles i fd g = (g1, al, Some e)" and "fd_map fd \<longrightarrow> isScalar (fd_map_key fd)"
  shows "\<exists>t d. resolveEnumType parsed goFiles i fd g = (g1, Inr t) \<and> go_type_ok t
    \<and> element_of t = goEnumValueType (with_package al (EnumName e)) d (fd_required fd)"
  using assms
  by (auto simp: resolveEnumType_def enum_lookup_def Let_def resolveMapKeyType_ok scalar_type_known with_package_def
      split: option.splits prod.splits)

lemma resolveMsgType_ok:
  assumes "msg_lookup goFiles i fd g = (g1, al, Some s)" and "fd_map fd \<longrightarrow> isScalar (fd_map_key fd)"
  shows "\<exists>t. resolveMsgType goFiles i fd g = (g1, Inr t) \<and> go_type_ok t
    \<and> element_of t = goStructValueType al (StructName s) (fd_required fd)"
  using assms
  by (auto simp: resolveMsgType_def msg_lookup_def Let_def resolveMapKeyType_ok scalar_type_known
      split: option.splits prod.splits)

text \<open>A file on which fields are mapped, among files with their definitions.\<close>

definition placed :: "(nat \<Rightarrow> string) \<Rightarrow> ProtoFile list \<Rightarrow> nat \<Rightarrow> GoGeneratedFile \<Rightarrow> bool" where
  "placed pk parsed i g \<longleftrightarrow> i < length parsed \<and> shape pk parsed i g \<and> sees_only (length parsed) g \<and> imports_right pk g
     \<and> (\<forall>t \<in> set (import_targets (parsed ! i)). sees g t)"

lemma placed_finds:
  assumes files: "shapes pk parsed goFiles" and g: "placed pk parsed i g" and t: "t \<in> set (import_targets (parsed ! i))"
    and found: "\<exists>x. look (goFiles ! t) ptr = Some x"
  shows "\<exists>al x. findThrough look goFiles t ptr g = (al, Some x)
    \<and> (\<exists>k. shape pk parsed k (goFiles ! k) \<and> look (goFiles ! k) ptr = Some x)
    \<and> reached_as pk (markImport goFiles t g) t al"
proof -
  have "sees_only (length parsed) g" "imports_right pk g" "sees g t" using g t by (simp_all add: placed_def)
  from findThrough_finds [where look = look and ptr = ptr, OF files this found] files show ?thesis
    by (simp add: shapes_def) blast
qed

lemma lookup_ok:
  assumes files: "shapes pk parsed goFiles" and g: "placed pk parsed i g"
    and fd: "linked_field parsed (parsed ! i) fd" "fd_scalar fd = []"
  shows "snd (enum_ref i fd) \<noteq> None \<Longrightarrow> \<exists>g1 al e. enum_lookup goFiles i fd g = (g1, al, Some e)
      \<and> value_right pk parsed i g1 fd (goEnumValueType (with_package al (EnumName e)) d r)"
    and "snd (enum_ref i fd) = None \<Longrightarrow> \<exists>g1 al s. msg_lookup goFiles i fd g = (g1, al, Some s)
      \<and> value_right pk parsed i g1 fd (goStructValueType al (StructName s) r)"
proof -
  have own: "shape pk parsed i g" and here: "reached_as pk g i []" "i < length parsed"
    using g by (simp_all add: placed_def shape_def reached_as_def)
  note local = shape_finds [OF own]
  have less: "t < length parsed" if "t \<in> set (import_targets (parsed ! i))" for t
    using that g by (simp add: placed_def sees_only_def)
  then have shape_t: "shape pk parsed t (goFiles ! t)" if "t \<in> set (import_targets (parsed ! i))" for t
    using that files by (simp add: shapes_def)
  show "\<exists>g1 al e. enum_lookup goFiles i fd g = (g1, al, Some e)
      \<and> value_right pk parsed i g1 fd (goEnumValueType (with_package al (EnumName e)) d r)" if "snd (enum_ref i fd) \<noteq> None"
  proof (cases "fd_external_file fd")
    case None
    with that fd obtain j where j: "fd_local_enum fd = Some j" "j < length (pr_enums (parsed ! i))"
      by (auto simp: enum_ref_def linked_field_def)
    then obtain e where e: "FindEnum g (Some (i, j)) = Some e" using local(1) by blast
    with None j local(3) [OF e] here show ?thesis by (auto simp: enum_lookup_def enum_ref_def)
  next
    case (Some t)
    with that fd obtain j where j: "fd_external_enum fd = Some j" "j < length (pr_enums (parsed ! t))"
      and t: "t \<in> set (import_targets (parsed ! i))" by (auto simp: enum_ref_def linked_field_def)
    from placed_finds [where look = FindEnum, OF files g t shape_finds(1) [OF shape_t [OF t] j(2)]] obtain al e k where
      e: "findThrough FindEnum goFiles t (Some (t, j)) g = (al, Some e)" "shape pk parsed k (goFiles ! k)"
        "FindEnum (goFiles ! k) (Some (t, j)) = Some e" "reached_as pk (markImport goFiles t g) t al" by blast
    then have "EnumName e = enumTypeName (pr_enums (parsed ! t) ! j)" using shape_finds(3) by blast
    then show ?thesis using Some j e(1,4) less [OF t] by (auto simp: enum_lookup_def enum_ref_def findThrough_lookups)
  qed
  show "\<exists>g1 al s. msg_lookup goFiles i fd g = (g1, al, Some s)
      \<and> value_right pk parsed i g1 fd (goStructValueType al (StructName s) r)" if "snd (enum_ref i fd) = None"
  proof (cases "fd_external_file fd")
    case None
    with that fd obtain j where j: "fd_local_msg fd = Some j" "j < length (pr_messages (parsed ! i))"
      by (cases "fd_local_msg fd") (auto simp: enum_ref_def linked_field_def)
    then obtain s where s: "FindStruct g (Some (i, j)) = Some s" using local(2) by blast
    with None j local(4) [OF s] here show ?thesis by (auto simp: msg_lookup_def msg_ref_def)
  next
    case (Some t)
    with that fd obtain j where j: "fd_external_msg fd = Some j" "j < length (pr_messages (parsed ! t))"
      and t: "t \<in> set (import_targets (parsed ! i))" by (cases "fd_external_msg fd") (auto simp: enum_ref_def linked_field_def)
    from placed_finds [where look = FindStruct, OF files g t shape_finds(2) [OF shape_t [OF t] j(2)]] obtain al s k where
      s: "findThrough FindStruct goFiles t (Some (t, j)) g = (al, Some s)" "shape pk parsed k (goFiles ! k)"
        "FindStruct (goFiles ! k) (Some (t, j)) = Some s" "reached_as pk (markImport goFiles t g) t al" by blast
    then have "StructName s = structTypeName (pr_messages (parsed ! t) ! j)" using shape_finds(4) by blast
    then show ?thesis using Some j s(1,4) less [OF t] by (auto simp: msg_lookup_def msg_ref_def findThrough_lookups)
  qed
qed

lemma ResolveType_ok:
  assumes files: "shapes pk parsed goFiles" and g: "placed pk parsed i g" and fd: "linked_field parsed (parsed ! i) fd"
  shows "\<exists>g' t. ResolveType parsed goFiles i fd g = (g', Inr t) \<and> keeps g g' \<and> type_right pk parsed i g' fd t"
proof (cases "fd_scalar fd = []")
  case False
  with fd show ?thesis using resolveScalarType_ok [of fd g] by (simp add: ResolveType_def linked_field_def)
next
  case True
  have key: "fd_map fd \<longrightarrow> isScalar (fd_map_key fd)" using fd by (simp add: linked_field_def)
  note found = lookup_ok [OF files g fd True]
  show ?thesis
  proof (cases "snd (enum_ref i fd)")
    case (Some j)
    then obtain g1 al e where e: "enum_lookup goFiles i fd g = (g1, al, Some e)"
      "\<And>d. value_right pk parsed i g1 fd (goEnumValueType (with_package al (EnumName e)) d (fd_required fd))"
      using found(1) by fastforce
    have k: "keeps g g1" using lookup_keeps(1) [of g goFiles i fd] e(1) by simp
    have "fd_local_enum fd \<noteq> None \<or> fd_external_enum fd \<noteq> None" using Some by (auto simp: enum_ref_def split: option.splits)
    then have "ResolveType parsed goFiles i fd g = resolveEnumType parsed goFiles i fd g" using True by (simp add: ResolveType_def)
    with resolveEnumType_ok [OF e(1) key, of parsed] k e(2) show ?thesis
      by (simp only: type_right_def) metis
  next
    case None
    then obtain g1 al s where s: "msg_lookup goFiles i fd g = (g1, al, Some s)"
      "value_right pk parsed i g1 fd (goStructValueType al (StructName s) (fd_required fd))"
      using found(2) by blast
    have k: "keeps g g1" using lookup_keeps(2) [of g goFiles i fd] s(1) by simp
    have "fd_local_enum fd = None \<and> fd_external_enum fd = None" "fd_local_msg fd \<noteq> None \<or> fd_external_msg fd \<noteq> None"
      using None fd True s(2) by (auto simp: enum_ref_def msg_ref_def linked_field_def split: option.splits)
    then have "ResolveType parsed goFiles i fd g = resolveMsgType goFiles i fd g" using True by (simp add: ResolveType_def)
    with resolveMsgType_ok [OF s(1) key] k s(2) show ?thesis
      by (simp only: type_right_def) metis
  qed
qed

end
