(* ===== verification/Go_Mapping.thy ===== *)
theory Go_Mapping
  imports Go_Mapper_Properties
begin

section \<open>The mapper on linked files\<close>

text \<open>
  The mapper keeps, of every file, that its definitions are in place, that imports are found and that the
  fields mapped so far have types that name what the fields refer to (\<open>mapping\<close>); so on linked files it
  neither panics nor reports an error, and every field is mapped (\<open>MapProtoFiles_result\<close>).
\<close>

subsection \<open>All fields of a file\<close>

definition field_table :: "GoGeneratedFile \<Rightarrow> MessageFieldDefinition list list" where
  "field_table g = map (\<lambda>s. map gf_proto (structFields s)) (structs g)"

definition typed_fields :: "(nat \<Rightarrow> string) \<Rightarrow> ProtoFile list \<Rightarrow> nat \<Rightarrow> GoGeneratedFile \<Rightarrow> bool" where
  "typed_fields pk parsed i g \<longleftrightarrow>
     list_all (\<lambda>s. list_all (\<lambda>f. type_right pk parsed i g (gf_proto f) (gf_type f)) (structFields s)) (structs g)"

definition mapping :: "(nat \<Rightarrow> string) \<Rightarrow> (nat \<Rightarrow> string) \<Rightarrow> ProtoFile list \<Rightarrow> nat \<Rightarrow> GoGeneratedFile \<Rightarrow> bool" where
  "mapping pk op parsed i g \<longleftrightarrow> placed pk parsed i g \<and> typed_fields pk parsed i g \<and> FullOutputPath g = op i"

lemma shape_length: "shape pk parsed i g \<Longrightarrow> length (structs g) = length (pr_messages (parsed ! i))"
proof -
  assume "shape pk parsed i g"
  then have "length (map (\<lambda>s. (structProto s, StructName s)) (structs g))
      = length (map (\<lambda>j. ((i, j), structTypeName (pr_messages (parsed ! i) ! j))) [0..<length (pr_messages (parsed ! i))])"
    by (simp only: shape_def)
  then show ?thesis by simp
qed

lemma mapping_length: "mapping pk op parsed i g \<Longrightarrow> length (structs g) = length (pr_messages (parsed ! i))"
  using shape_length [of pk parsed i g] by (simp add: mapping_def placed_def)

lemma type_right_structs: "type_right pk parsed i (g\<lparr>structs := ss\<rparr>) fd t = type_right pk parsed i g fd t"
  by (cases "element_of t") (simp_all add: type_right_def reached_as_def used_imports_def)

lemma sees_structs: "sees (g\<lparr>structs := ss\<rparr>) t = sees g t" "imports_right pk (g\<lparr>structs := ss\<rparr>) = imports_right pk g"
  by (simp_all add: sees_def import_files_def imports_right_def import_info_def)

lemma add_field_mapping:
  fixes fd :: MessageFieldDefinition
  assumes "mapping pk op parsed i g" and k: "keeps g g1" and r: "type_right pk parsed i g1 fd t" and j: "j < length (pr_messages (parsed ! i))"
  defines "g' \<equiv> g1\<lparr>structs := (structs g1)[j := AddField fd t (structs g1 ! j)]\<rparr>"
  shows "mapping pk op parsed i g'" and "field_table g' = (field_table g)[j := field_table g ! j @ [fd]]"
proof -
  have p: "placed pk parsed i g" and f: "typed_fields pk parsed i g" using assms(1) by (simp_all add: mapping_def)
  have j': "j < length (structs g)" using j mapping_length [OF assms(1)] by simp
  have s: "structs g' = (structs g)[j := AddField fd t (structs g ! j)]" using k by (simp add: g'_def keeps_def)
  show "field_table g' = (field_table g)[j := field_table g ! j @ [fd]]"
    using j' by (simp add: field_table_def s map_update AddField_def)
  have names: "map (\<lambda>s. (structProto s, StructName s)) (structs g') = map (\<lambda>s. (structProto s, StructName s)) (structs g)"
    using j' by (auto simp: s AddField_def nth_list_update intro!: nth_equalityI)
  have "shape pk parsed i g'"
    using p k unfolding placed_def shape_def names by (simp add: g'_def keeps_def)
  moreover have "sees g' u \<longleftrightarrow> sees g u" for u using keeps_sees [OF k, of u] by (simp add: sees_structs g'_def)
  moreover have "imports_right pk g'" using keeps_right [OF k] p by (simp add: sees_structs g'_def placed_def)
  ultimately have "placed pk parsed i g'" using p by (simp add: placed_def sees_only_def)
  moreover have "typed_fields pk parsed i g'"
  proof -
    have at: "type_right pk parsed i g' fd' t' = type_right pk parsed i g1 fd' t'" for fd' t' by (simp add: g'_def type_right_structs)
    have "type_right pk parsed i g' (gf_proto x) (gf_type x)" if "x \<in> set (structFields s)" "s \<in> set (structs g)" for x s
      using f that type_right_keeps [OF k] by (auto simp: at typed_fields_def list_all_iff)
    moreover have "structs g ! j \<in> set (structs g)" using j' by simp
    ultimately show ?thesis using r
      unfolding typed_fields_def s list_all_iff
      by (auto dest!: set_update_subset_insert [THEN subsetD] simp: AddField_def at)
  qed
  moreover have "FullOutputPath g' = op i" using assms(1) k by (simp add: mapping_def g'_def keeps_def)
  ultimately show "mapping pk op parsed i g'" by (simp add: mapping_def)
qed

lemma mapField_ok:
  assumes "shapes pk parsed goFiles" and "mapping pk op parsed i g"
    and "linked_field parsed (parsed ! i) fd" and "j < length (pr_messages (parsed ! i))"
  shows "\<exists>g'. mapField parsed goFiles i j fd (g, errors) = (g', errors) \<and> mapping pk op parsed i g'
    \<and> field_table g' = (field_table g)[j := field_table g ! j @ [fd]]"
proof -
  have "placed pk parsed i g" using assms(2) by (simp add: mapping_def)
  from ResolveType_ok [OF assms(1) this assms(3)] obtain g1 t where
    r: "ResolveType parsed goFiles i fd g = (g1, Inr t)" "keeps g g1" "type_right pk parsed i g1 fd t" by blast
  show ?thesis using add_field_mapping [OF assms(2) r(2,3) assms(4)] r(1) by (simp add: mapField_def)
qed

lemma mapField_fold:
  assumes "shapes pk parsed goFiles" and "j < length (pr_messages (parsed ! i))"
  shows "list_all (linked_field parsed (parsed ! i)) fds \<Longrightarrow> mapping pk op parsed i g \<Longrightarrow>
    \<exists>g'. fold (mapField parsed goFiles i j) fds (g, errors) = (g', errors) \<and> mapping pk op parsed i g'
    \<and> field_table g' = (field_table g)[j := field_table g ! j @ fds]"
proof (induction fds arbitrary: g)
  case (Cons fd fds)
  have len: "j < length (field_table g)" using mapping_length [OF Cons.prems(2)] assms(2) by (simp add: field_table_def)
  obtain g1 where g1: "mapField parsed goFiles i j fd (g, errors) = (g1, errors)" "mapping pk op parsed i g1"
    "field_table g1 = (field_table g)[j := field_table g ! j @ [fd]]"
    using mapField_ok [OF assms(1) Cons.prems(2) _ assms(2)] Cons.prems(1) by force
  obtain g2 where g2: "fold (mapField parsed goFiles i j) fds (g1, errors) = (g2, errors)" "mapping pk op parsed i g2"
    "field_table g2 = (field_table g1)[j := field_table g1 ! j @ fds]"
    using Cons.IH [OF _ g1(2)] Cons.prems(1) by auto
  then show ?case using g1 len by simp
qed simp

lemma mapMessage_fold:
  assumes "shapes pk parsed goFiles" and "linked_file parsed (parsed ! i)"
    and "mapping pk op parsed i g" and "field_table g = replicate (length (pr_messages (parsed ! i))) []"
    and "m \<le> length (pr_messages (parsed ! i))"
  shows "\<exists>g'. fold (mapMessage parsed goFiles i) [0..<m] (g, errors) = (g', errors) \<and> mapping pk op parsed i g'
    \<and> field_table g' = map (\<lambda>j. if j < m then md_fields (pr_messages (parsed ! i) ! j) else []) [0..<length (pr_messages (parsed ! i))]"
  using assms(5)
proof (induction m)
  case 0
  have "field_table g = map (\<lambda>j. []) [0..<length (pr_messages (parsed ! i))]" by (simp add: assms(4) map_replicate_const)
  then show ?case using assms(3) by auto
next
  case (Suc m)
  let ?n = "length (pr_messages (parsed ! i))"
  obtain g1 where g1: "fold (mapMessage parsed goFiles i) [0..<m] (g, errors) = (g1, errors)" "mapping pk op parsed i g1"
    "field_table g1 = map (\<lambda>j. if j < m then md_fields (pr_messages (parsed ! i) ! j) else []) [0..<?n]"
    using Suc by auto
  have m: "m < ?n" using Suc.prems by simp
  have "list_all (linked_field parsed (parsed ! i)) (md_fields (pr_messages (parsed ! i) ! m))"
    using assms(2) m by (simp add: linked_file_def list_all_length)
  from mapField_fold [where errors = errors, OF assms(1) m this g1(2)] obtain g2 where
    g2: "mapMessage parsed goFiles i m (g1, errors) = (g2, errors)" "mapping pk op parsed i g2"
      "field_table g2 = (field_table g1)[m := field_table g1 ! m @ md_fields (pr_messages (parsed ! i) ! m)]"
    by (auto simp: mapMessage_def)
  have "field_table g2 = map (\<lambda>j. if j < Suc m then md_fields (pr_messages (parsed ! i) ! j) else []) [0..<?n]"
    using m by (auto simp: g2(3) g1(3) nth_list_update less_Suc_eq intro!: nth_equalityI)
  then show ?case using g1(1) g2(1,2) by auto
qed

text \<open>The Go file of a proto file when all its fields are mapped.\<close>

definition mapped :: "(nat \<Rightarrow> string) \<Rightarrow> (nat \<Rightarrow> string) \<Rightarrow> ProtoFile list \<Rightarrow> nat \<Rightarrow> GoGeneratedFile \<Rightarrow> bool" where
  "mapped pk op parsed i g \<longleftrightarrow> mapping pk op parsed i g \<and> field_table g = map md_fields (pr_messages (parsed ! i))"

lemma mapFields_ok:
  assumes "shapes pk parsed goFiles" and "linked_file parsed (parsed ! i)"
    and "mapping pk op parsed i (goFiles ! i)" and "field_table (goFiles ! i) = replicate (length (pr_messages (parsed ! i))) []"
  shows "\<exists>g'. mapFields parsed i (goFiles, errors) = (goFiles[i := g'], errors) \<and> mapped pk op parsed i g'"
proof -
  let ?n = "length (pr_messages (parsed ! i))"
  from mapMessage_fold [where errors = errors, OF assms order_refl] obtain g' where
    g': "fold (mapMessage parsed goFiles i) [0..<?n] (goFiles ! i, errors) = (g', errors)" "mapping pk op parsed i g'"
      "field_table g' = map (\<lambda>j. if j < ?n then md_fields (pr_messages (parsed ! i) ! j) else []) [0..<?n]"
    by auto
  then have "field_table g' = map md_fields (pr_messages (parsed ! i))" by (auto intro!: nth_equalityI)
  with g' show ?thesis by (intro exI [of _ g']) (simp add: mapFields_def mapped_def)
qed

lemma mapFields_all:
  assumes "linked parsed" and "shapes pk parsed goFiles"
    and "\<And>k. k < length parsed \<Longrightarrow> mapping pk op parsed k (goFiles ! k)
      \<and> field_table (goFiles ! k) = replicate (length (pr_messages (parsed ! k))) []"
    and "m \<le> length parsed"
  shows "\<exists>goFiles'. fold (mapFields parsed) [0..<m] (goFiles, errors) = (goFiles', errors) \<and> shapes pk parsed goFiles'
    \<and> (\<forall>k < m. mapped pk op parsed k (goFiles' ! k)) \<and> (\<forall>k. m \<le> k \<longrightarrow> goFiles' ! k = goFiles ! k)"
  using assms(4)
proof (induction m)
  case (Suc m)
  then have m: "m < length parsed" by simp
  from Suc obtain gs where gs: "fold (mapFields parsed) [0..<m] (goFiles, errors) = (gs, errors)" "shapes pk parsed gs"
    "\<forall>k < m. mapped pk op parsed k (gs ! k)" "\<forall>k. m \<le> k \<longrightarrow> gs ! k = goFiles ! k" by auto
  have len: "length gs = length parsed" using gs(2) by (simp add: shapes_def)
  have "linked_file parsed (parsed ! m)" using assms(1) m by (simp add: linked_def list_all_length)
  from mapFields_ok [where errors = errors, OF gs(2) this] obtain g' where
    g': "mapFields parsed m (gs, errors) = (gs[m := g'], errors)" "mapped pk op parsed m g'"
    using gs(4) assms(3) [OF m] by auto
  have "shapes pk parsed (gs[m := g'])"
    using gs(2) g'(2) m by (simp add: shapes_def nth_list_update mapped_def mapping_def placed_def)
  moreover have "\<forall>k < Suc m. mapped pk op parsed k (gs[m := g'] ! k)" using gs(3) g'(2) m len by (auto simp: nth_list_update less_Suc_eq)
  ultimately show ?case using gs(1,4) g'(1) by (auto simp: nth_list_update)
qed (use assms(2) in simp)

subsection \<open>Files, imports and definitions before the fields\<close>

lemma Clean_nonempty [simp]: "Clean p \<noteq> []"
  by (simp add: Clean_def Let_def)

lemma Base_nonempty [simp]: "Base p \<noteq> []"
proof -
  have "last (split_on slash q) \<noteq> []" if "q = dropLastSlashes p" "q \<noteq> []" for q
  proof
    assume e: "last (split_on slash q) = []"
    have ends: "dropLastSlashes p = [] \<or> last (dropLastSlashes p) \<noteq> slash"
      by (induction p rule: dropLastSlashes.induct) (subst (1 2) dropLastSlashes.simps, auto)
    have "join [slash] (split_on slash q) = q" by (rule join_split_on)
    moreover have "split_on slash q \<noteq> []" by simp
    ultimately have "q = join [slash] (butlast (split_on slash q)) @ [slash] \<or> q = []"
      using e join_snoc [of "butlast (split_on slash q)" "[slash]" "[]"]
      by (cases "butlast (split_on slash q)") (metis append_butlast_last_id append_Nil join.simps(2) append_Nil2 list.distinct(1))+
    with that ends show False by (metis last_snoc)
  qed
  then show ?thesis by (auto simp: Base_def Let_def)
qed

lemma Join_nonempty [simp]: "e \<noteq> [] \<Longrightarrow> Join (e # es) \<noteq> []"
  by simp

lemma getGoPackage_nonempty: "fst (getGoPackage root modulePath f) \<noteq> [] \<and> snd (getGoPackage root modulePath f) \<noteq> []"
  by (auto simp: getGoPackage_def Let_def cleanupPackageName_def replaceChar_def split: option.split if_splits)

lemma newGoFile_Some: "\<exists>g. newGoFile root modulePath i f = Some g \<and> protoFile g = i \<and> goImports g = [] \<and> samePackageImports g = []
    \<and> enums g = [] \<and> structs g = [] \<and> ShortPackageName g = fst (getGoPackage root modulePath f)
    \<and> FullPackageName g = snd (getGoPackage root modulePath f)"
  using getGoPackage_nonempty [of root modulePath f] by (auto simp: newGoFile_def Let_def split: prod.split)

text \<open>A file in which only imports have been recorded, up to the targets \<open>ts\<close>.\<close>

definition bare :: "(nat \<Rightarrow> string) \<Rightarrow> nat \<Rightarrow> nat set \<Rightarrow> GoGeneratedFile \<Rightarrow> bool" where
  "bare pk i ts g \<longleftrightarrow> protoFile g = i \<and> FullPackageName g = pk i \<and> ShortPackageName g \<noteq> [] \<and> enums g = [] \<and> structs g = []
     \<and> (\<forall>t. sees g t \<longleftrightarrow> t \<in> ts) \<and> imports_right pk g \<and> list_all (\<lambda>i. Alias i \<noteq> []) (goImports g)"

lemma import_files_alt: "import_files g = concat (map GoFiles (goImports g))"
  by (simp add: import_files_def import_info_def o_def)

lemma imports_right_alt: "imports_right pk g \<longleftrightarrow> list_all (\<lambda>k. pk k = FullPackageName g) (samePackageImports g)
    \<and> list_all (\<lambda>i. GoFiles i \<noteq> [] \<longrightarrow> Alias i \<noteq> [] \<and> list_all (\<lambda>k. pk k = ImportPath i) (GoFiles i)) (goImports g)"
  by (simp add: imports_right_def import_info_def list.pred_map o_def)

lemma AddProtoImport_right:
  assumes "imports_right pk g" and "list_all (\<lambda>i. Alias i \<noteq> []) (goImports g)" and "FullPackageName f = pk t" and "ShortPackageName f \<noteq> []"
  shows "imports_right pk (AddProtoImport t f g) \<and> list_all (\<lambda>i. Alias i \<noteq> []) (goImports (AddProtoImport t f g))"
proof (cases "findIndex (\<lambda>goImport. ImportPath goImport = FullPackageName f) (goImports g)")
  case (Some n)
  then have n: "n < length (goImports g)" "ImportPath (goImports g ! n) = FullPackageName f" by (auto dest: findIndex_Some)
  then have "goImports g ! n \<in> set (goImports g)" by simp
  then have old: "Alias (goImports g ! n) \<noteq> []" "list_all (\<lambda>k. pk k = ImportPath (goImports g ! n)) (GoFiles (goImports g ! n))"
    using assms(1,2) by (auto simp: imports_right_alt list_all_iff)
  show ?thesis
    using assms Some n(2) old
    by (auto simp: AddProtoImport_def imports_right_alt intro!: list_all_update)
qed (use assms in \<open>auto simp: AddProtoImport_def imports_right_alt freeAlias_def Let_def list_all_iff\<close>)

lemma AddProtoImport_sees: "sees (AddProtoImport t f g) u \<longleftrightarrow> u = t \<or> sees g u"
proof (cases "findIndex (\<lambda>goImport. ImportPath goImport = FullPackageName f) (goImports g)")
  case (Some n)
  then have n: "n < length (goImports g)" by (auto dest: findIndex_Some)
  let ?new = "(goImports g ! n)\<lparr>GoFiles := GoFiles (goImports g ! n) @ [t]\<rparr>"
  have split: "goImports g = take n (goImports g) @ goImports g ! n # drop (Suc n) (goImports g)"
    using n by (rule id_take_nth_drop)
  have "set (concat (map GoFiles ((goImports g)[n := ?new])))
      = set (concat (map GoFiles (take n (goImports g) @ ?new # drop (Suc n) (goImports g))))"
    using n by (simp only: upd_conv_take_nth_drop)
  also have "\<dots> = insert t (set (concat (map GoFiles (take n (goImports g) @ goImports g ! n # drop (Suc n) (goImports g)))))"
    by auto
  also have "\<dots> = insert t (set (concat (map GoFiles (goImports g))))" using split by simp
  finally show ?thesis using Some
    by (simp add: AddProtoImport_def sees_def import_files_alt del: set_concat) blast
qed (auto simp: AddProtoImport_def sees_def import_files_alt)

lemma AddProtoImport_rest:
  "protoFile (AddProtoImport t f g) = protoFile g" "FullPackageName (AddProtoImport t f g) = FullPackageName g"
  "ShortPackageName (AddProtoImport t f g) = ShortPackageName g" "enums (AddProtoImport t f g) = enums g"
  "structs (AddProtoImport t f g) = structs g"
  by (simp_all add: AddProtoImport_def split: option.split)

lemma AddProtoImport_bare:
  assumes "bare pk i ts g" and "FullPackageName f = pk t" and "ShortPackageName f \<noteq> []"
  shows "bare pk i (insert t ts) (AddProtoImport t f g)"
  using assms AddProtoImport_right [of pk g f t]
  by (auto simp: bare_def AddProtoImport_rest AddProtoImport_sees)

lemma findIndex_own:
  assumes "\<And>k. k < length gs \<Longrightarrow> protoFile (gs ! k) = k" and "t < length gs"
  shows "findIndex (\<lambda>go. protoFile go = t) gs = Some t"
proof -
  have "findIndex (\<lambda>go. protoFile go = t) gs \<noteq> None"
    using assms(1) [OF assms(2)] assms(2) by (auto simp: findIndex_None)
  then obtain k where k: "findIndex (\<lambda>go. protoFile go = t) gs = Some k" by auto
  have "k = t" using findIndex_Some [OF k] assms(1) [of k] by simp
  with k show ?thesis by simp
qed

lemma addImports_bare:
  assumes "\<And>k. k < length gs \<Longrightarrow> protoFile (gs ! k) = k \<and> FullPackageName (gs ! k) = pk k \<and> ShortPackageName (gs ! k) \<noteq> []"
    and "length gs = length parsed"
  shows "list_all (\<lambda>imp. case im_target imp of None \<Rightarrow> False | Some t \<Rightarrow> t < length parsed) is \<Longrightarrow> bare pk i ts g \<Longrightarrow>
    \<exists>g'. addImports gs parsed f is (g, errors) = Inr (g', errors) \<and> bare pk i (ts \<union> set (List.map_filter im_target is)) g'"
proof (induction "is" arbitrary: g ts)
  case Nil
  then show ?case by (simp add: map_filter_def)
next
  case (Cons imp "is")
  then obtain t where t: "im_target imp = Some t" "t < length parsed" by (auto split: option.splits)
  obtain g' where "addImports gs parsed f is (AddProtoImport t (gs ! t) g, errors) = Inr (g', errors)"
    "bare pk i (insert t ts \<union> set (List.map_filter im_target is)) g'"
    using Cons.IH [OF _ AddProtoImport_bare [OF Cons.prems(2), of "gs ! t" t]] Cons.prems(1) assms t(2) by auto
  moreover have "set (List.map_filter im_target (imp # is)) = insert t (set (List.map_filter im_target is))"
    using t(1) by (simp add: map_filter_simps)
  ultimately show ?case using t findIndex_own [of gs t] assms by simp
qed

lemma mapImports_bare:
  assumes "linked parsed" and "length gs = length parsed"
    and "\<And>k. k < length parsed \<Longrightarrow> \<exists>ts. bare pk k ts (gs ! k)"
    and "\<And>k. k \<in> set is \<Longrightarrow> bare pk k {} (gs ! k) \<and> k < length parsed" and "distinct is"
  shows "\<exists>gs'. mapImports parsed is (gs, errors) = Inr (gs', errors) \<and> length gs' = length parsed
    \<and> (\<forall>k < length parsed. k \<notin> set is \<longrightarrow> gs' ! k = gs ! k)
    \<and> (\<forall>k \<in> set is. bare pk k (set (import_targets (parsed ! k))) (gs' ! k))"
  using assms(2-5)
proof (induction "is" arbitrary: gs)
  case (Cons i "is")
  have i: "i < length parsed" "bare pk i {} (gs ! i)" using Cons.prems(3) by simp_all
  then have own: "protoFile (gs ! i) = i" by (simp add: bare_def)
  have all_own: "k < length gs \<Longrightarrow> protoFile (gs ! k) = k \<and> FullPackageName (gs ! k) = pk k \<and> ShortPackageName (gs ! k) \<noteq> []" for k
    using Cons.prems(1,2) by (auto simp: bare_def)
  have "imports_linked parsed (parsed ! i)" using assms(1) i(1) by (simp add: linked_def linked_file_def list_all_length)
  then obtain g' where g': "addImports gs parsed (parsed ! i) (pr_imports (parsed ! i)) (gs ! i, errors) = Inr (g', errors)"
    "bare pk i (set (import_targets (parsed ! i))) g'"
    using addImports_bare [OF all_own Cons.prems(1) _ i(2), of "pr_imports (parsed ! i)" "parsed ! i" errors]
    by (auto simp: imports_linked_def import_targets_def)
  have "\<exists>gs'. mapImports parsed is (gs[i := g'], errors) = Inr (gs', errors) \<and> length gs' = length parsed
    \<and> (\<forall>k < length parsed. k \<notin> set is \<longrightarrow> gs' ! k = gs[i := g'] ! k)
    \<and> (\<forall>k \<in> set is. bare pk k (set (import_targets (parsed ! k))) (gs' ! k))"
  proof (rule Cons.IH)
    show "\<exists>ts. bare pk k ts (gs[i := g'] ! k)" if "k < length parsed" for k
      using that Cons.prems(1,2) g'(2) by (cases "k = i") auto
    show "bare pk k {} (gs[i := g'] ! k) \<and> k < length parsed" if "k \<in> set is" for k
      using that Cons.prems(3,4) by (cases "k = i") auto
  qed (use Cons.prems in auto)
  then obtain gs' where gs': "mapImports parsed is (gs[i := g'], errors) = Inr (gs', errors)" "length gs' = length parsed"
    "\<forall>k < length parsed. k \<notin> set is \<longrightarrow> gs' ! k = gs[i := g'] ! k"
    "\<forall>k \<in> set is. bare pk k (set (import_targets (parsed ! k))) (gs' ! k)" by blast
  have "gs' ! i = g'" using gs'(3) i(1) Cons.prems(1,4) by simp
  with gs' g' own show ?case using i(1) Cons.prems(1) by (intro exI [of _ gs']) auto
qed simp

text \<open>The definitions are added in order.\<close>

lemma addEnums: "foldl (\<lambda>g j. AddEnum (f j) g) g js = g\<lparr>enums := enums g @ map f js\<rparr>"
  by (induction js arbitrary: g) (simp_all add: AddEnum_def)

lemma addStructs: "foldl (\<lambda>g j. AddStruct (f j) g) g js = g\<lparr>structs := structs g @ map f js\<rparr>"
  by (induction js arbitrary: g) (simp_all add: AddStruct_def)

lemma addDefinitions_mapping:
  assumes "bare pk k (set (import_targets (parsed ! k))) g" and "imports_linked parsed (parsed ! k)" and "k < length parsed"
    and "FullOutputPath g = op k"
  shows "mapping pk op parsed k (addDefinitions parsed g) \<and>
    field_table (addDefinitions parsed g) = replicate (length (pr_messages (parsed ! k))) []"
proof -
  let ?es = "map (\<lambda>j. NewEnumType (k, j) (pr_enums (parsed ! k) ! j)) [0..<length (pr_enums (parsed ! k))]"
  let ?ss = "map (\<lambda>j. NewStructType (k, j) (pr_messages (parsed ! k) ! j)) [0..<length (pr_messages (parsed ! k))]"
  have g: "addDefinitions parsed g = g\<lparr>enums := ?es, structs := ?ss\<rparr>"
    using assms(1) by (simp add: bare_def addDefinitions_def Let_def addEnums addStructs)
  have "sees (addDefinitions parsed g) t \<longleftrightarrow> t \<in> set (import_targets (parsed ! k))" for t
    using assms(1) by (simp add: g bare_def sees_def import_files_alt)
  moreover have "imports_right pk (addDefinitions parsed g)"
  proof -
    have "imports_right pk g" using assms(1) by (simp only: bare_def)
    then show ?thesis by (simp add: g imports_right_alt)
  qed
  moreover have "shape pk parsed k (addDefinitions parsed g)"
    using assms(1) by (simp add: g bare_def shape_def o_def NewEnumType_def NewStructType_def)
  ultimately have "placed pk parsed k (addDefinitions parsed g)"
    using import_targets_less [OF assms(2)] assms(3) by (simp add: placed_def sees_only_def)
  moreover have "typed_fields pk parsed k (addDefinitions parsed g)"
    by (simp add: g typed_fields_def NewStructType_def list_all_iff)
  ultimately show ?thesis using assms(4) by (simp add: mapping_def g field_table_def o_def NewStructType_def map_replicate_const)
qed

lemma list_ex_is_none: "list_ex Option.is_none (map f xs) \<longleftrightarrow> (\<exists>x \<in> set xs. f x = None)"
  by (induction xs) (auto simp: Option.is_none_def)

lemma bare_path: "bare pk i ts (g\<lparr>FullOutputPath := p\<rparr>) = bare pk i ts g"
  by (simp add: bare_def sees_def import_files_alt imports_right_def import_info_def)

text \<open>The import path of the package of each file.\<close>

definition package_paths :: "string \<Rightarrow> string \<Rightarrow> ProtoFile list \<Rightarrow> nat \<Rightarrow> string" where
  "package_paths root modulePath parsed k = snd (getGoPackage root modulePath (parsed ! k))"

definition output_paths :: "string \<Rightarrow> ProtoFile list \<Rightarrow> nat \<Rightarrow> string" where
  "output_paths root parsed k = buildOutputPath root (parsed ! k)"

lemma MapProtoFiles_result:
  fixes root :: string and modulePath :: string
  assumes "linked parsed"
  defines "pk \<equiv> package_paths root modulePath parsed" and "op \<equiv> output_paths root parsed"
  shows "\<exists>goFiles. MapProtoFiles root modulePath parsed = Inr (goFiles, []) \<and> length goFiles = length parsed
    \<and> (\<forall>k < length parsed. mapped pk op parsed k (goFiles ! k))"
proof -
  let ?is = "[0..<length parsed]" and ?new = "\<lambda>i. newGoFile root modulePath i (parsed ! i)"
  let ?gs = "map the (map ?new ?is)"
  have "?new i \<noteq> None" for i using newGoFile_Some [of root modulePath i "parsed ! i"] by (metis option.distinct(1))
  then have no_None: "\<not> list_ex Option.is_none (map ?new ?is)" by (simp add: list_ex_is_none)
  have bare0: "bare pk k {} (?gs ! k)" if "k < length parsed" for k
    using that newGoFile_Some [of root modulePath k "parsed ! k"] getGoPackage_nonempty [of root modulePath "parsed ! k"]
    by (auto simp: bare_def sees_def import_files_alt imports_right_alt pk_def package_paths_def)
  have "\<exists>gs'. mapImports parsed ?is (?gs, []) = Inr (gs', []) \<and> length gs' = length parsed
    \<and> (\<forall>k < length parsed. k \<notin> set ?is \<longrightarrow> gs' ! k = ?gs ! k)
    \<and> (\<forall>k \<in> set ?is. bare pk k (set (import_targets (parsed ! k))) (gs' ! k))"
    by (rule mapImports_bare [OF assms(1)]) (use bare0 in \<open>auto intro: exI [of _ "{}"]\<close>)
  then obtain gs where gs: "mapImports parsed ?is (?gs, []) = Inr (gs, [])" "length gs = length parsed"
    "\<forall>k < length parsed. bare pk k (set (import_targets (parsed ! k))) (gs ! k)" by auto
  let ?out = "\<lambda>g. g\<lparr>FullOutputPath := buildOutputPath root (parsed ! protoFile g)\<rparr>"
  let ?defs = "map (addDefinitions parsed) (map ?out gs)"
  have start: "mapping pk op parsed k (?defs ! k) \<and> field_table (?defs ! k) = replicate (length (pr_messages (parsed ! k))) []"
    if "k < length parsed" for k
  proof -
    have "bare pk k (set (import_targets (parsed ! k))) (?out (gs ! k))" using gs(3) that by (simp add: bare_path)
    moreover have "imports_linked parsed (parsed ! k)" using assms(1) that by (simp add: linked_def linked_file_def list_all_length)
    moreover have "FullOutputPath (?out (gs ! k)) = op k"
      using gs(3) that by (simp add: bare_def op_def output_paths_def)
    ultimately show ?thesis using addDefinitions_mapping [of pk k parsed "?out (gs ! k)" op] that gs(2) by simp
  qed
  then have "shapes pk parsed ?defs" using gs(2) by (simp add: shapes_def mapping_def placed_def)
  from mapFields_all [where errors = "[]", OF assms(1) this start order_refl] obtain gs' where
    "fold (mapFields parsed) ?is (?defs, []) = (gs', [])" "shapes pk parsed gs'" "\<forall>k < length parsed. mapped pk op parsed k (gs' ! k)"
    by auto
  then show ?thesis
    using no_None gs(1) by (simp add: MapProtoFiles_def Let_def shapes_def del: map_map list.map_comp)
qed

end
