(* ===== verification/Go_Names.thy ===== *)
theory Go_Names
  imports Go_Mapping
begin

section \<open>Names, packages and output paths\<close>

text \<open>
  What holds of the names the generator chooses: the import path of a package and the directory its
  file is written to agree, every package is imported once, and the emitted \<open>String\<close> of an enum
  gives the first name of a number. And inputs on which chosen names collide, so that the emitted
  code does not compile.
\<close>

subsection \<open>Packages and output paths\<close>

text \<open>The directories of a file, with the proto package as the last one.\<close>

definition package_dirs :: "string list \<Rightarrow> ProtoFile \<Rightarrow> string list" where
  "package_dirs dirs f = dirs @ (if packageName f = [] then [] else [packageName f])"

lemma trim_none: "list_all part_ok ds \<Longrightarrow> ds \<noteq> [] \<Longrightarrow> hd (hd ds) \<noteq> CHR ''.'' \<Longrightarrow>
    trimPrefix (trimPrefix (path ds) ''.'') [slash] = path ds"
proof -
  assume ds: "list_all part_ok ds" "ds \<noteq> []" "hd (hd ds) \<noteq> CHR ''.''"
  then obtain d rest where d: "ds = d # rest" by (cases ds) auto
  then have "d \<noteq> []" using ds(1) by (simp add: part_ok_def)
  then have "path ds \<noteq> [] \<and> hd (path ds) = hd (hd ds)"
    by (cases rest) (auto simp: d)
  then show ?thesis using ds path_nonempty [OF ds(1,2)] by (cases "path ds") (auto simp: trimPrefix_def)
qed

lemma trim_dot: "trimPrefix (trimPrefix ''.'' ''.'') [slash] = []"
  by (simp add: trimPrefix_def)

lemma Join_dot: "part_ok p \<Longrightarrow> Join [''.'', p] = p"
proof -
  assume p: "part_ok p"
  have "split_on slash (join [slash] [''.'', p]) = [''.'', p]"
    using p by (intro split_on_join) (simp_all add: part_ok_def slash_def)
  then show ?thesis using p by (simp add: Clean_def Let_def cleanStep_def part_ok_def slash_def)
qed

text \<open>The directory of the package, before the leading dot is removed.\<close>

definition packageDir :: "ProtoFile \<Rightarrow> string" where
  "packageDir f = (let d = Dir (RelativePath f) in if packageName f \<noteq> [] then Join [d, packageName f] else d)"

lemma packageDir_dirs:
  assumes "pr_relative f = dirs @ [fname]" and "list_all part_ok (dirs @ [fname])"
    and "packageName f = [] \<or> part_ok (packageName f)"
  shows "packageDir f = (if package_dirs dirs f = [] then ''.'' else path (package_dirs dirs f))"
proof -
  have d: "Dir (RelativePath f) = (if dirs = [] then ''.'' else path dirs)"
    using assms(1,2) by (simp add: RelativePath_def Dir_path)
  show ?thesis
  proof (cases "packageName f = []")
    case True
    then show ?thesis by (simp add: packageDir_def d package_dirs_def)
  next
    case False
    then have p: "part_ok (packageName f)" using assms(3) by simp
    have "Join [path dirs, path [packageName f]] = path (dirs @ [packageName f])" if "dirs \<noteq> []"
      using that assms(2) p by (intro Join_path) simp_all
    then show ?thesis using False Join_dot [OF p] by (simp add: packageDir_def d package_dirs_def del: Join.simps)
  qed
qed

lemma Join_trimmed:
  assumes "list_all part_ok ps" and "ps \<noteq> []" and "list_all part_ok ds" and "ds \<noteq> [] \<longrightarrow> hd (hd ds) \<noteq> CHR ''.''"
  shows "Join [path ps, trimPrefix (trimPrefix (if ds = [] then ''.'' else path ds) ''.'') [slash]] = path (ps @ ds)"
proof (cases "ds = []")
  case True
  then show ?thesis using assms(1,2) path_nonempty [OF assms(1,2)] Clean_path_slash [OF assms(1,2)] by (simp add: trim_dot)
next
  case False
  then show ?thesis using assms trim_none [of ds] Join_path [of ps ds] by (simp del: Join.simps)
qed

lemma Join3: "Join [a, b, c] = (if a = [] then Join [b, c] else if b = [] then Clean (a @ [slash, slash] @ c) else Join [a @ slash # b, c])"
  by simp

lemma Clean_double_slash:
  assumes "list_all part_ok ps" and "ps \<noteq> []" and "part_ok c"
  shows "Clean (path ps @ [slash, slash] @ c) = path (ps @ [c])"
proof -
  have "path ps @ [slash, slash] @ c = path (ps @ [[], c])" using assms(2) by (simp add: join_snoc join_snoc [of "ps @ [[]]", simplified])
  then have "split_on slash (path ps @ [slash, slash] @ c) = ps @ [[], c]"
    using assms by (simp add: split_on_join plain_parts part_ok_def)
  moreover have "foldl (cleanStep False) [] (ps @ [[], c]) = ps @ [c]"
    using clean_parts [OF assms(1), of False "[]"] clean_parts [of "[c]" False ps] assms(3)
    by (simp add: cleanStep_def)
  ultimately show ?thesis using path_nonempty [OF assms(1,2)] path_nonempty [of "ps @ [c]"] assms
    by (simp add: Clean_def Let_def)
qed

lemma Join_output:
  assumes "list_all part_ok ps" and "ps \<noteq> []" and "list_all part_ok ds" and "ds \<noteq> [] \<longrightarrow> hd (hd ds) \<noteq> CHR ''.''" and "part_ok c"
  shows "Join [path ps, trimPrefix (trimPrefix (if ds = [] then ''.'' else path ds) ''.'') [slash], c] = path (ps @ ds @ [c])"
proof (cases "ds = []")
  case True
  then show ?thesis using assms path_nonempty [OF assms(1,2)] Clean_double_slash [OF assms(1,2,5)]
    by (simp add: trim_dot)
next
  case False
  have "Clean (path (ps @ ds @ [c])) = path (ps @ ds @ [c])" using assms by (intro Clean_path) simp_all
  moreover have "path (ps @ ds @ [c]) = path ps @ slash # path ds @ slash # c"
    using False assms(2) by (simp add: path_append)
  ultimately show ?thesis using False assms(1-4) trim_none [of ds] path_nonempty [of ps] path_nonempty [of ds] by simp
qed

lemma getGoPackage_alt:
  assumes "(case pr_package f of None \<Rightarrow> [] | Some p \<Rightarrow> PlatformName p TargetPlatform_Go) = []" and "modulePath \<noteq> []"
  shows "snd (getGoPackage root modulePath f) = Join [modulePath, trimPrefix (trimPrefix (packageDir f) ''.'') [slash]]"
  using assms by (simp add: getGoPackage_def Let_def packageDir_def del: Join.simps)

lemma buildOutputPath_alt:
  "buildOutputPath root f = Join [root, trimPrefix (trimPrefix (packageDir f) ''.'') [slash],
     trimSuffix (Base (RelativePath f)) ''.proto'' @ ''.pb2.go'']"
  by (simp add: buildOutputPath_def Let_def packageDir_def del: Join.simps)

lemma trimSuffix_append: "trimSuffix (s @ t) t = s"
  by (simp add: trimSuffix_def)



text \<open>With the option the file is still written to its directories, not to those of the package it names;
  a file at the root without a package gets the package name \<open>_\<close>, which Go does not allow; and two
  files are written to one path when a directory is called like the package of the files above it.\<close>

lemma go_package_elsewhere:
  "snd (getGoPackage ''gen'' ''mod'' ((new_file [] [''a'', ''x.proto''])\<lparr>pr_package :=
      Some (WithPlatformName emptyName TargetPlatform_Go ''github.com/o/other'')\<rparr>)) = ''github.com/o/other''"
  "buildOutputPath ''gen'' ((new_file [] [''a'', ''x.proto''])\<lparr>pr_package :=
      Some (WithPlatformName emptyName TargetPlatform_Go ''github.com/o/other'')\<rparr>) = ''gen/a/x.pb2.go''"
  by code_simp+

lemma root_package_name: "fst (getGoPackage ''gen'' ''mod'' (new_file [] [''x.proto''])) = ''_''"
  by code_simp

lemma output_paths_collide:
  "buildOutputPath ''gen'' (new_file [] [''a'', ''x.proto''])
   = buildOutputPath ''gen'' ((new_file [] [''x.proto''])\<lparr>pr_package := Some (ParseName ''a'')\<rparr>)"
  by code_simp

subsection \<open>Imports\<close>

definition import_paths :: "GoGeneratedFile \<Rightarrow> string list" where
  "import_paths g = map ImportPath (goImports g)"

lemma AddImport_paths: "distinct (import_paths g) \<Longrightarrow> distinct (import_paths (AddImport p al g))"
  by (auto simp: import_paths_def AddImport_def list_ex_iff)

lemma AddProtoImport_paths: "distinct (import_paths g) \<Longrightarrow> distinct (import_paths (AddProtoImport t f g))"
  by (auto simp: import_paths_def AddProtoImport_def map_update list_update_id findIndex_None
      split: option.split dest!: findIndex_Some)
    (metis list_update_id nth_map)

lemma addImports_paths:
  "addImports gs parsed f is s = Inr s' \<Longrightarrow> distinct (import_paths (fst s)) \<Longrightarrow> distinct (import_paths (fst s'))"
proof (induction "is" arbitrary: s)
  case (Cons imp "is")
  obtain g errors where s: "s = (g, errors)" by force
  from Cons show ?case
    by (auto simp: s AddProtoImport_paths split: option.splits)
qed simp

text \<open>An alias is free of those without a suffix, but suffixed aliases are not looked at: the third
  package with the same short name gets the alias of the second.\<close>

definition demo_package :: "string \<Rightarrow> GoGeneratedFile" where
  "demo_package p = \<lparr>goImports = [], samePackageImports = [], enums = [], structs = [], protoFile = 0,
     FullPackageName = p @ ''/types'', ShortPackageName = ''types'', FullOutputPath = []\<rparr>"

lemma third_alias_collides:
  "map Alias (goImports (fold (\<lambda>p. AddProtoImport 0 (demo_package p)) [''a'', ''b'', ''c''] (demo_package ''m'')))
     = [''types'', ''types_1'', ''types_1'']"
  by code_simp

text \<open>The text of a default value names the package it needs, whatever alias its import got.\<close>

lemma default_ignores_alias:
  "let g = AddProtoImport 0 ((demo_package ''p'')\<lparr>ShortPackageName := ''math''\<rparr>) (demo_package ''m'');
       fd = (blank_field (ParseName ''x'') \<lparr>pf_name = ''x'', pf_type = ''double'', pf_sequence = 1, pf_options = []\<rparr>)
         \<lparr>fd_default := Some \<lparr>po_name = ''default'', po_source = ''inf'', po_is_string = False\<rparr>\<rparr>;
       (g, d) = parseDefaultValue ''float64'' fd g
   in map (\<lambda>i. (Alias i, ImportPath i)) (goImports g) = [(''math'', ''p/types''), (''math_1'', ''math'')] \<and> d = ''math.Inf(1)''"
  by code_simp

subsection \<open>Enums\<close>

lemma casesOf_find:
  "List.find (\<lambda>v. variantValue v = e) (casesOf used vs)
   = (if e \<in> set used then None else List.find (\<lambda>v. variantValue v = e) vs)"
  by (induction used vs rule: casesOf.induct) auto

lemma find_map: "List.find P (map f xs) = map_option f (List.find (\<lambda>x. P (f x)) xs)"
  by (induction xs) auto

lemma casesOf_distinct: "distinct (map variantValue (casesOf used vs)) \<and> set (map variantValue (casesOf used vs)) \<inter> set used = {}"
  by (induction used vs rule: casesOf.induct) auto

text \<open>C32: the emitted \<open>String\<close> method has one case per number, so it compiles for enums with aliases,
  and gives the name of the first value with the number, as declared, or the empty string.\<close>

theorem EnumString_first:
  "distinct (map variantValue (casesOf [] (variants (NewEnumType ptr enum))))
   \<and> EnumString (NewEnumType ptr enum) e
     = (case List.find (\<lambda>v. ev_value v = e) (en_values enum) of None \<Rightarrow> [] | Some v \<Rightarrow> ProtoName (ev_name v))"
  using casesOf_distinct [of "[]"]
  by (simp add: EnumString_def casesOf_find NewEnumType_def find_map split: option.split)

text \<open>The default of an imported enum, when no value has the name, is the bare qualifier of the package.\<close>

lemma unknown_enum_default:
  "let e = \<lparr>en_name = ParseName ''E'', en_values = [], en_proto = \<lparr>pe_name = ''E'', pe_parents = [], pe_elements = []\<rparr>\<rparr>;
       p = (demo_package ''p'')\<lparr>enums := [NewEnumType (0, 0) e]\<rparr>;
       fd = (blank_field (ParseName ''x'') \<lparr>pf_name = ''x'', pf_type = ''E'', pf_sequence = 1, pf_options = []\<rparr>)
         \<lparr>fd_external_file := Some 0, fd_external_enum := Some 0,
          fd_default := Some \<lparr>po_name = ''default'', po_source = ''B'', po_is_string = False\<rparr>\<rparr>
   in (case snd (ResolveType [new_file [] []] [p] 1 fd (AddProtoImport 0 p (demo_package ''m''))) of
        Inr t \<Rightarrow> t = goSingle (goEnumValueType ''types.E'' ''types.'' False) | Inl _ \<Rightarrow> False)"
  by code_simp

subsection \<open>Names of types and fields\<close>

text \<open>A message nested in another one gets the name of a message called like both with an underscore; and
  fields that differ in underscores only get one name.\<close>

lemma struct_names_collide:
  "structTypeName \<lparr>md_name = LocalChild (ParseName ''A'') ''B'', md_fields = [], md_proto = m\<rparr>
   = structTypeName \<lparr>md_name = ParseName ''A_B'', md_fields = [], md_proto = m'\<rparr>"
  by (simp add: structTypeName_def Let_def LocalChild_def Child_def ParseName_def emptyName_def ProtoName_def LocalPath_def
      underscore_def replaceChar_def)

lemma field_names_collide: "fieldNameFrom True ''foo_bar'' = fieldNameFrom True ''fooBar''"
  by code_simp

end
