(* ===== verification/Go_Templates.thy ===== *)
theory Go_Templates
  imports Go_Mapper
begin

section \<open>The text of generated structs\<close>

text \<open>
  The templates of \<^verbatim>\<open>gremlinc/internal/generators/golang/fields\<close> and of \<^verbatim>\<open>types/structs.go\<close> and
  \<^verbatim>\<open>types/fields.go\<close>: the Go source of a struct and its reader, method by method, as the list of its lines.
  What this code does is the subject of \<open>Message_Writer\<close> and \<open>Message_Reader\<close>; here it is text. The
  methods of a type that must not be called end in \<^verbatim>\<open>log.Panicf\<close>. A definition has the name of the type and
  of its method; the interface \<^verbatim>\<open>GoFieldType\<close> is the \<open>value\<close> functions, which choose among the types of single
  values, and the \<open>field\<close> functions, which choose among all. Short methods with one result for most types are not
  split.
\<close>

definition dquote :: string where "dquote = [CHR 0x22]"

definition lines :: "string list \<Rightarrow> string" where
  "lines ls = join nl ls"

definition tabs :: "nat \<Rightarrow> string" where
  "tabs n = concat (replicate n tab)"

text \<open>\<^verbatim>\<open>formatting/tabs.go\<close>\<close>

definition AddTabs :: "string \<Rightarrow> string \<Rightarrow> string" where
  "AddTabs s indent =
     (let ls = split_on (CHR 0x0A) s in
      foldl (\<lambda>res (i, line). let res = res @ indent @ line in if i \<noteq> length ls - 1 then res @ nl else res)
        [] (zip [0..<length ls] ls))"


lemma AddTabs_lines: "AddTabs s indent = join nl (map ((@) indent) (split_on (CHR 0x0A) s))"
proof -
  have loop: "foldl (\<lambda>res (i, line). let res = res @ indent @ line in if i \<noteq> n - 1 then res @ nl else res) acc (zip [k..<n] ls)
      = acc @ join nl (map ((@) indent) ls)"
    if "n = k + length ls" for acc k n ls
    using that
  proof (induction ls arbitrary: acc k)
    case (Cons l ls)
    then have "[k..<n] = k # [Suc k..<n]" by (simp add: upt_conv_Cons del: upt_Suc)
    then have "zip [k..<n] (l # ls) = (k, l) # zip [Suc k..<n] ls" by simp
    then show ?case using Cons.prems Cons.IH [of "Suc k"] by (cases ls) simp_all
  qed simp
  show ?thesis unfolding AddTabs_def Let_def [of "split_on (CHR 0x0A) s"] by (subst loop) simp_all
qed

text \<open>The lines of the result are the lines of the text, each behind the indentation.\<close>

lemma AddTabs_split:
  assumes "CHR 0x0A \<notin> set indent"
  shows "split_on (CHR 0x0A) (AddTabs s indent) = map ((@) indent) (split_on (CHR 0x0A) s)"
proof -
  have "plain (CHR 0x0A) (map ((@) indent) (split_on (CHR 0x0A) s))"
    using assms plain_split_on [of "CHR 0x0A" s] by (auto simp: plain_def list_all_iff)
  then show ?thesis by (simp add: AddTabs_lines split_on_join nl_def)
qed

subsection \<open>Tables\<close>

definition bufBasicTypesReaders :: "string \<Rightarrow> string" where
  "bufBasicTypesReaders p = (case map_of
    [(''string'', ''ReadString''), (''bytes'', ''ReadBytes''), (''bool'', ''ReadBool''),
     (''double'', ''ReadFloat64''), (''float'', ''ReadFloat32''), (''int32'', ''ReadInt32''),
     (''int64'', ''ReadInt64''), (''uint32'', ''ReadUint32''), (''uint64'', ''ReadUint64''),
     (''sint32'', ''ReadSInt32''), (''sint64'', ''ReadSInt64''), (''fixed32'', ''ReadFixed32''),
     (''fixed64'', ''ReadFixed64''), (''sfixed32'', ''ReadSFixed32''), (''sfixed64'', ''ReadSFixed64'')] p of
    None \<Rightarrow> [] | Some x \<Rightarrow> x)"

definition bufBasicTypesWriters :: "string \<Rightarrow> string" where
  "bufBasicTypesWriters p = (case map_of
    [(''string'', ''AppendString''), (''bytes'', ''AppendBytes''), (''bool'', ''AppendBool''),
     (''double'', ''AppendFloat64''), (''float'', ''AppendFloat32''), (''int32'', ''AppendInt32''),
     (''int64'', ''AppendInt64''), (''uint32'', ''AppendUint32''), (''uint64'', ''AppendUint64''),
     (''sint32'', ''AppendSInt32''), (''sint64'', ''AppendSInt64''), (''fixed32'', ''AppendFixed32''),
     (''fixed64'', ''AppendFixed64''), (''sfixed32'', ''AppendSFixed32''), (''sfixed64'', ''AppendSFixed64'')] p of
    None \<Rightarrow> [] | Some x \<Rightarrow> x)"

definition bufBasicTypesSizers :: "string \<Rightarrow> string" where
  "bufBasicTypesSizers p = (case map_of
    [(''string'', ''SizeString''), (''bytes'', ''SizeBytes''), (''bool'', ''SizeBool''),
     (''double'', ''SizeFloat64''), (''float'', ''SizeFloat32''), (''int32'', ''SizeInt32''),
     (''int64'', ''SizeInt64''), (''uint32'', ''SizeUint32''), (''uint64'', ''SizeUint64''),
     (''sint32'', ''SizeSInt32''), (''sint64'', ''SizeSInt64''), (''fixed32'', ''SizeFixed32''),
     (''fixed64'', ''SizeFixed64''), (''sfixed32'', ''SizeSFixed32''), (''sfixed64'', ''SizeSFixed64'')] p of
    None \<Rightarrow> [] | Some x \<Rightarrow> x)"

subsection \<open>Values\<close>

definition goBasicValueType_ReaderTypeName :: "string \<Rightarrow> string" where
  [simp]: "goBasicValueType_ReaderTypeName n = n"

definition goEnumValueType_ReaderTypeName :: "string \<Rightarrow> string" where
  [simp]: "goEnumValueType_ReaderTypeName n = n"

definition goStructValueType_ReaderTypeName :: "string \<Rightarrow> string \<Rightarrow> string" where
  [simp]: "goStructValueType_ReaderTypeName pk n =
     (if pk \<noteq> [] then ''*'' @ pk @ ''.'' @ n @ ''Reader'' else ''*'' @ n @ ''Reader'')"

fun valueReaderTypeName :: "goValueType \<Rightarrow> string" where
  "valueReaderTypeName (goBasicValueType n p d r) = goBasicValueType_ReaderTypeName n"
| "valueReaderTypeName (goEnumValueType n d r) = goEnumValueType_ReaderTypeName n"
| "valueReaderTypeName (goStructValueType pk n r) = goStructValueType_ReaderTypeName pk n"

definition goBasicValueType_WriterTypeName :: "string \<Rightarrow> string" where
  [simp]: "goBasicValueType_WriterTypeName n = n"

definition goEnumValueType_WriterTypeName :: "string \<Rightarrow> string" where
  [simp]: "goEnumValueType_WriterTypeName n = n"

definition goStructValueType_WriterTypeName :: "string \<Rightarrow> string \<Rightarrow> string" where
  [simp]: "goStructValueType_WriterTypeName pk n = (if pk = [] then ''*'' @ n else ''*'' @ pk @ ''.'' @ n)"

fun valueWriterTypeName :: "goValueType \<Rightarrow> string" where
  "valueWriterTypeName (goBasicValueType n p d r) = goBasicValueType_WriterTypeName n"
| "valueWriterTypeName (goEnumValueType n d r) = goEnumValueType_WriterTypeName n"
| "valueWriterTypeName (goStructValueType pk n r) = goStructValueType_WriterTypeName pk n"

definition goBasicValueType_CanBePacked :: "string \<Rightarrow> bool" where
  [simp]: "goBasicValueType_CanBePacked p = canBePacked p"

definition goEnumValueType_CanBePacked :: "bool" where
  [simp]: "goEnumValueType_CanBePacked = True"

definition goStructValueType_CanBePacked :: "bool" where
  [simp]: "goStructValueType_CanBePacked = False"

fun valueCanBePacked :: "goValueType \<Rightarrow> bool" where
  "valueCanBePacked (goBasicValueType n p d r) = goBasicValueType_CanBePacked p"
| "valueCanBePacked (goEnumValueType n d r) = goEnumValueType_CanBePacked"
| "valueCanBePacked (goStructValueType pk n r) = goStructValueType_CanBePacked"

definition goBasicValueType_EntryReader :: "string \<Rightarrow> string \<Rightarrow> string \<Rightarrow> string \<Rightarrow> string \<Rightarrow> string" where
  [simp]: "goBasicValueType_EntryReader n p d indent v =
     (if d = []
      then AddTabs (lines [[], ''var '' @ v @ '' '' @ n, ''if wOffset > 0 {'',
       tabs 1 @ v @ '' = m.buf.'' @ bufBasicTypesReaders p @ ''(wOffset)'', ''}'', []]) indent
      else AddTabs (lines [[], ''var '' @ v @ '' '' @ n, ''if wOffset > 0 {'',
       tabs 1 @ v @ '' = m.buf.'' @ bufBasicTypesReaders p @ ''(wOffset)'', ''} else {'',
       tabs 1 @ v @ '' = '' @ d, ''}'', []]) indent)"

definition goEnumValueType_EntryReader :: "string \<Rightarrow> string \<Rightarrow> string \<Rightarrow> string \<Rightarrow> string" where
  [simp]: "goEnumValueType_EntryReader n d indent v =
     (if d = []
      then AddTabs (lines [[], ''var '' @ v @ '' '' @ n, ''if wOffset > 0 {'', tabs 1 @ ''rawEntry := m.buf.ReadInt32(wOffset)'',
       tabs 1 @ v @ '' = '' @ n @ ''(rawEntry)'', ''}'', []]) indent
      else AddTabs (lines [[], ''var '' @ v @ '' '' @ n, ''if wOffset > 0 {'', tabs 1 @ ''rawEntry := m.buf.ReadInt32(wOffset)'',
       tabs 1 @ v @ '' = '' @ n @ ''(rawEntry)'', ''} else {'', tabs 1 @ v @ '' = '' @ d, ''}'', []]) indent)"

definition goStructValueType_EntryReader :: "string \<Rightarrow> string \<Rightarrow> string \<Rightarrow> string \<Rightarrow> string" where
  [simp]: "goStructValueType_EntryReader pk n indent v =
     (if pk = []
      then AddTabs (lines [[], ''var '' @ v @ '' *'' @ n @ ''Reader'', ''if wOffset > 0 {'',
       tabs 1 @ ''var '' @ v @ ''Data = m.buf.ReadBytes(wOffset)'', tabs 1 @ ''if len('' @ v @ ''Data) > 0 {'',
       tabs 2 @ v @ '' = New'' @ n @ ''Reader()'', tabs 2 @ v @ ''.Unmarshal('' @ v @ ''Data)'',
       tabs 1 @ ''}'', ''}'', []]) indent
      else AddTabs (lines [[], ''var '' @ v @ '' *'' @ pk @ ''.'' @ n @ ''Reader'', ''if wOffset > 0 {'',
       tabs 1 @ ''var '' @ v @ ''Data = m.buf.ReadBytes(wOffset)'', tabs 1 @ ''if len('' @ v @ ''Data) > 0 {'',
       tabs 2 @ v @ '' = '' @ pk @ ''.New'' @ n @ ''Reader()'', tabs 2 @ v @ ''.Unmarshal('' @ v @ ''Data)'',
       tabs 1 @ ''}'', ''}'', []]) indent)"

fun valueEntryReader :: "goValueType \<Rightarrow> string \<Rightarrow> string \<Rightarrow> string" where
  "valueEntryReader (goBasicValueType n p d r) indent v = goBasicValueType_EntryReader n p d indent v"
| "valueEntryReader (goEnumValueType n d r) indent v = goEnumValueType_EntryReader n d indent v"
| "valueEntryReader (goStructValueType pk n r) indent v = goStructValueType_EntryReader pk n indent v"

definition goBasicValueType_EntrySizedReader :: "string \<Rightarrow> string \<Rightarrow> string \<Rightarrow> string \<Rightarrow> string \<Rightarrow> string" where
  [simp]: "goBasicValueType_EntrySizedReader n p d indent v =
     (if d = []
      then AddTabs (lines [[], ''var '' @ v @ '' '' @ n, ''var '' @ v @ ''Size int'', ''if wOffset > 0 {'',
       tabs 1 @ v @ '', '' @ v @ ''Size = m.buf.Sized'' @ bufBasicTypesReaders p @ ''(wOffset)'', ''}'', []]) indent
      else AddTabs (lines [[], ''var '' @ v @ '' '' @ n, ''var '' @ v @ ''Size int'', ''if wOffset > 0 {'',
       tabs 1 @ v @ '', '' @ v @ ''Size = m.buf.Sized'' @ bufBasicTypesReaders p @ ''(wOffset)'', ''} else {'',
       tabs 1 @ v @ '' = '' @ d, ''}'', []]) indent)"

definition goEnumValueType_EntrySizedReader :: "string \<Rightarrow> string \<Rightarrow> string \<Rightarrow> string \<Rightarrow> string" where
  [simp]: "goEnumValueType_EntrySizedReader n d indent v =
     (if d = []
      then AddTabs (lines [[], ''var '' @ v @ '' '' @ n, ''var '' @ v @ ''Size int'', ''if wOffset > 0 {'',
       tabs 1 @ ''rawEntry, size := m.buf.SizedReadInt32(wOffset)'', tabs 1 @ v @ '' = '' @ n @ ''(rawEntry)'',
       tabs 1 @ v @ ''Size = size'', ''}'', []]) indent
      else AddTabs (lines [[], ''var '' @ v @ '' '' @ n, ''var '' @ v @ ''Size int'', ''if wOffset > 0 {'',
       tabs 1 @ ''rawEntry, size := m.buf.SizedReadInt32(wOffset)'', tabs 1 @ v @ '' = '' @ n @ ''(rawEntry)'',
       tabs 1 @ v @ ''Size = size'', ''} else {'', tabs 1 @ v @ '' = '' @ d, ''}'', []]) indent)"

definition goStructValueType_EntrySizedReader :: "string \<Rightarrow> string \<Rightarrow> string \<Rightarrow> string \<Rightarrow> string" where
  [simp]: "goStructValueType_EntrySizedReader pk n indent v =
     (if pk = []
      then AddTabs (lines [[], ''var '' @ v @ '' *'' @ n @ ''Reader'', ''var '' @ v @ ''Size int'', ''if wOffset > 0 {'',
       tabs 1 @ ''var '' @ v @ ''Data, '' @ v @ ''DataSize = m.buf.SizedReadBytes(wOffset)'',
       tabs 1 @ ''if len('' @ v @ ''Data) > 0 {'', tabs 2 @ v @ '' = New'' @ n @ ''Reader()'',
       tabs 2 @ v @ ''.Unmarshal('' @ v @ ''Data)'', tabs 1 @ ''}'',
       tabs 1 @ v @ ''Size = '' @ v @ ''DataSize'', ''}'', []]) indent
      else AddTabs (lines [[], ''var '' @ v @ '' *'' @ pk @ ''.'' @ n @ ''Reader'', ''var '' @ v @ ''Size int'',
       ''if wOffset > 0 {'',
       tabs 1 @ ''var '' @ v @ ''Data, '' @ v @ ''DataSize = m.buf.SizedReadBytes(wOffset)'',
       tabs 1 @ ''if len('' @ v @ ''Data) > 0 {'', tabs 2 @ v @ '' = '' @ pk @ ''.New'' @ n @ ''Reader()'',
       tabs 2 @ v @ ''.Unmarshal('' @ v @ ''Data)'', tabs 1 @ ''}'',
       tabs 1 @ v @ ''Size = '' @ v @ ''DataSize'', ''}'', []]) indent)"

fun valueEntrySizedReader :: "goValueType \<Rightarrow> string \<Rightarrow> string \<Rightarrow> string" where
  "valueEntrySizedReader (goBasicValueType n p d r) indent v = goBasicValueType_EntrySizedReader n p d indent v"
| "valueEntrySizedReader (goEnumValueType n d r) indent v = goEnumValueType_EntrySizedReader n d indent v"
| "valueEntrySizedReader (goStructValueType pk n r) indent v = goStructValueType_EntrySizedReader pk n indent v"

definition goBasicValueType_ToStruct :: "string \<Rightarrow> string \<Rightarrow> string \<Rightarrow> string" where
  [simp]: "goBasicValueType_ToStruct indent target from = AddTabs (target @ '' = '' @ from) indent"

definition goEnumValueType_ToStruct :: "string \<Rightarrow> string \<Rightarrow> string \<Rightarrow> string" where
  [simp]: "goEnumValueType_ToStruct indent target from = AddTabs (target @ '' = '' @ from) indent"

definition goStructValueType_ToStruct :: "string \<Rightarrow> string \<Rightarrow> string \<Rightarrow> string" where
  [simp]: "goStructValueType_ToStruct indent target from =
     AddTabs (lines [''if '' @ from @ '' != nil {'', tabs 1 @ target @ '' = '' @ from @ ''.ToStruct()'', ''}'']) indent"

fun valueToStruct :: "goValueType \<Rightarrow> string \<Rightarrow> string \<Rightarrow> string \<Rightarrow> string" where
  "valueToStruct (goBasicValueType n p d r) indent target from = goBasicValueType_ToStruct indent target from"
| "valueToStruct (goEnumValueType n d r) indent target from = goEnumValueType_ToStruct indent target from"
| "valueToStruct (goStructValueType pk n r) indent target from = goStructValueType_ToStruct indent target from"

definition goBasicValueType_EntryIsNotEmpty :: "string \<Rightarrow> string \<Rightarrow> bool \<Rightarrow> string \<Rightarrow> string" where
  [simp]: "goBasicValueType_EntryIsNotEmpty n d r v =
     (if r then ''true''
      else if n = ''[]byte'' then (if d = [] then ''len('' @ v @ '') != 0'' else ''!bytes.Equal('' @ v @ '', '' @ d @ '')'')
      else if n = ''string'' then (if d = [] then v @ '' != '' @ dquote @ dquote else v @ '' != '' @ d)
      else if n = ''bool'' then (if d = [] then v else v @ '' != '' @ d)
      else if d = [] then v @ '' != 0'' else v @ '' != '' @ d)"

definition goEnumValueType_EntryIsNotEmpty :: "string \<Rightarrow> bool \<Rightarrow> string \<Rightarrow> string" where
  [simp]: "goEnumValueType_EntryIsNotEmpty d r v =
     (if r then ''true'' else v @ '' != '' @ (if d = [] then ''0'' else d))"

definition goStructValueType_EntryIsNotEmpty :: "bool \<Rightarrow> string \<Rightarrow> string" where
  [simp]: "goStructValueType_EntryIsNotEmpty r v = (if r then ''true'' else v @ '' != nil'')"

fun valueIsNotEmpty :: "goValueType \<Rightarrow> string \<Rightarrow> string" where
  "valueIsNotEmpty (goBasicValueType n p d r) v = goBasicValueType_EntryIsNotEmpty n d r v"
| "valueIsNotEmpty (goEnumValueType n d r) v = goEnumValueType_EntryIsNotEmpty d r v"
| "valueIsNotEmpty (goStructValueType pk n r) v = goStructValueType_EntryIsNotEmpty r v"

definition goBasicValueType_DefaultReturn :: "string \<Rightarrow> string \<Rightarrow> string" where
  [simp]: "goBasicValueType_DefaultReturn n d =
     (if d \<noteq> [] then d
      else if n = ''[]byte'' then ''nil'' else if n = ''string'' then dquote @ dquote
      else if n = ''bool'' then ''false'' else ''0'')"

definition goEnumValueType_DefaultReturn :: "string \<Rightarrow> string" where
  [simp]: "goEnumValueType_DefaultReturn d = (if d = [] then ''0'' else d)"

definition goStructValueType_DefaultReturn :: "string" where
  [simp]: "goStructValueType_DefaultReturn = ''nil''"

fun valueDefaultReturn :: "goValueType \<Rightarrow> string" where
  "valueDefaultReturn (goBasicValueType n p d r) = goBasicValueType_DefaultReturn n d"
| "valueDefaultReturn (goEnumValueType n d r) = goEnumValueType_DefaultReturn d"
| "valueDefaultReturn (goStructValueType pk n r) = goStructValueType_DefaultReturn"

definition goBasicValueType_EntryWriter :: "string \<Rightarrow> string \<Rightarrow> string \<Rightarrow> string \<Rightarrow> string \<Rightarrow> string" where
  [simp]: "goBasicValueType_EntryWriter p indent buf tag v =
     AddTabs (buf @ ''.'' @ bufBasicTypesWriters p @ ''('' @ tag @ '', '' @ v @ '')'') indent"

definition goEnumValueType_EntryWriter :: "string \<Rightarrow> string \<Rightarrow> string \<Rightarrow> string \<Rightarrow> string" where
  [simp]: "goEnumValueType_EntryWriter indent buf tag v =
     AddTabs (buf @ ''.AppendInt32('' @ tag @ '', int32('' @ v @ ''))'') indent"

definition goStructValueType_EntryWriter :: "string \<Rightarrow> string \<Rightarrow> string \<Rightarrow> string \<Rightarrow> string" where
  [simp]: "goStructValueType_EntryWriter indent buf tag v =
     AddTabs (lines [''structSize := '' @ v @ ''.XXX_PbContentSize()'', buf @ ''.AppendBytesTag('' @ tag @ '', structSize)'',
       v @ ''.MarshalTo('' @ buf @ '')'']) indent"

fun valueEntryWriter :: "goValueType \<Rightarrow> string \<Rightarrow> string \<Rightarrow> string \<Rightarrow> string \<Rightarrow> string" where
  "valueEntryWriter (goBasicValueType n p d r) indent buf tag v = goBasicValueType_EntryWriter p indent buf tag v"
| "valueEntryWriter (goEnumValueType n d r) indent buf tag v = goEnumValueType_EntryWriter indent buf tag v"
| "valueEntryWriter (goStructValueType pk n r) indent buf tag v = goStructValueType_EntryWriter indent buf tag v"

definition goBasicValueType_PackedEntryWriter :: "string \<Rightarrow> string \<Rightarrow> string \<Rightarrow> string \<Rightarrow> unit fault + string" where
  [simp]: "goBasicValueType_PackedEntryWriter p indent buf v =
     Inr (AddTabs (buf @ ''.'' @ bufBasicTypesWriters p @ ''WithoutTag('' @ v @ '')'') indent)"

definition goEnumValueType_PackedEntryWriter :: "string \<Rightarrow> string \<Rightarrow> string \<Rightarrow> unit fault + string" where
  [simp]: "goEnumValueType_PackedEntryWriter indent buf v =
     Inr (AddTabs (buf @ ''.AppendInt32WithoutTag(int32('' @ v @ ''))'') indent)"

definition goStructValueType_PackedEntryWriter :: "string \<Rightarrow> string \<Rightarrow> string \<Rightarrow> unit fault + string" where
  [simp]: "goStructValueType_PackedEntryWriter indent buf v = Inl Panic"

fun valuePackedEntryWriter :: "goValueType \<Rightarrow> string \<Rightarrow> string \<Rightarrow> string \<Rightarrow> unit fault + string" where
  "valuePackedEntryWriter (goBasicValueType n p d r) indent buf v = goBasicValueType_PackedEntryWriter p indent buf v"
| "valuePackedEntryWriter (goEnumValueType n d r) indent buf v = goEnumValueType_PackedEntryWriter indent buf v"
| "valuePackedEntryWriter (goStructValueType pk n r) indent buf v = goStructValueType_PackedEntryWriter indent buf v"

definition goBasicValueType_EntryFullSizeWithTag :: "string \<Rightarrow> string \<Rightarrow> string \<Rightarrow> string \<Rightarrow> string \<Rightarrow> string" where
  [simp]: "goBasicValueType_EntryFullSizeWithTag p indent sz v tag =
     (if p = ''bytes'' \<or> p = ''string''
      then AddTabs (lines [sz @ '' = gremlin.'' @ bufBasicTypesSizers p @ ''('' @ v @ '')'',
       sz @ '' += gremlin.SizeUint64(uint64('' @ sz @ '')) + gremlin.SizeTag('' @ tag @ '')'']) indent
      else AddTabs (sz @ '' = gremlin.SizeTag('' @ tag @ '') + gremlin.'' @ bufBasicTypesSizers p @ ''('' @ v @ '')'') indent)"

definition goEnumValueType_EntryFullSizeWithTag :: "string \<Rightarrow> string \<Rightarrow> string \<Rightarrow> string \<Rightarrow> string" where
  [simp]: "goEnumValueType_EntryFullSizeWithTag indent sz v tag =
     AddTabs (sz @ '' = gremlin.SizeTag('' @ tag @ '') + gremlin.SizeInt32(int32('' @ v @ ''))'') indent"

definition goStructValueType_EntryFullSizeWithTag :: "string \<Rightarrow> string \<Rightarrow> string \<Rightarrow> string \<Rightarrow> string" where
  [simp]: "goStructValueType_EntryFullSizeWithTag indent sz v tag =
     AddTabs (lines [sz @ '' = '' @ v @ ''.XXX_PbContentSize()'',
       sz @ '' += gremlin.SizeUint64(uint64('' @ sz @ '')) + gremlin.SizeTag('' @ tag @ '')'', []]) indent"

fun valueSizeWithTag :: "goValueType \<Rightarrow> string \<Rightarrow> string \<Rightarrow> string \<Rightarrow> string \<Rightarrow> string" where
  "valueSizeWithTag (goBasicValueType n p d r) indent sz v tag = goBasicValueType_EntryFullSizeWithTag p indent sz v tag"
| "valueSizeWithTag (goEnumValueType n d r) indent sz v tag = goEnumValueType_EntryFullSizeWithTag indent sz v tag"
| "valueSizeWithTag (goStructValueType pk n r) indent sz v tag = goStructValueType_EntryFullSizeWithTag indent sz v tag"

definition goBasicValueType_EntryFullSizeWithoutTag :: "string \<Rightarrow> string \<Rightarrow> string \<Rightarrow> string \<Rightarrow> string" where
  [simp]: "goBasicValueType_EntryFullSizeWithoutTag p indent sz v =
     (if p = ''bytes'' \<or> p = ''string''
      then AddTabs (lines [sz @ '' = gremlin.'' @ bufBasicTypesSizers p @ ''('' @ v @ '')'',
       sz @ '' += gremlin.SizeUint64(uint64('' @ sz @ ''))'']) indent
      else AddTabs (sz @ '' = gremlin.'' @ bufBasicTypesSizers p @ ''('' @ v @ '')'') indent)"

definition goEnumValueType_EntryFullSizeWithoutTag :: "string \<Rightarrow> string \<Rightarrow> string \<Rightarrow> string" where
  [simp]: "goEnumValueType_EntryFullSizeWithoutTag indent sz v =
     AddTabs (sz @ '' = gremlin.SizeInt32(int32('' @ v @ ''))'') indent"

definition goStructValueType_EntryFullSizeWithoutTag :: "string \<Rightarrow> string \<Rightarrow> string \<Rightarrow> string" where
  [simp]: "goStructValueType_EntryFullSizeWithoutTag indent sz v =
     AddTabs (lines [sz @ '' = '' @ v @ ''.XXX_PbContentSize()'', sz @ '' += gremlin.SizeUint64(uint64('' @ sz @ ''))'', []]) indent"

fun valueSizeWithoutTag :: "goValueType \<Rightarrow> string \<Rightarrow> string \<Rightarrow> string \<Rightarrow> string" where
  "valueSizeWithoutTag (goBasicValueType n p d r) indent sz v = goBasicValueType_EntryFullSizeWithoutTag p indent sz v"
| "valueSizeWithoutTag (goEnumValueType n d r) indent sz v = goEnumValueType_EntryFullSizeWithoutTag indent sz v"
| "valueSizeWithoutTag (goStructValueType pk n r) indent sz v = goStructValueType_EntryFullSizeWithoutTag indent sz v"

fun valueUsedDirectly :: "goValueType \<Rightarrow> bool" where
  "valueUsedDirectly (goStructValueType pk n r) = False"
| "valueUsedDirectly v = True"

definition goBasicValueType_EntryCopy :: "string \<Rightarrow> string \<Rightarrow> string \<Rightarrow> string" where
  [simp]: "goBasicValueType_EntryCopy indent target from = AddTabs (target @ '' = '' @ from) indent"

definition goEnumValueType_EntryCopy :: "string \<Rightarrow> string \<Rightarrow> string \<Rightarrow> string" where
  [simp]: "goEnumValueType_EntryCopy indent target from = AddTabs (target @ '' = '' @ from) indent"

definition goStructValueType_EntryCopy :: "string \<Rightarrow> string \<Rightarrow> string \<Rightarrow> string" where
  [simp]: "goStructValueType_EntryCopy indent target from =
     AddTabs (lines [''if '' @ from @ '' != nil {'', tabs 1 @ target @ '' = '' @ from @ ''.Copy()'', ''}'']) indent"

fun valueEntryCopy :: "goValueType \<Rightarrow> string \<Rightarrow> string \<Rightarrow> string \<Rightarrow> string" where
  "valueEntryCopy (goBasicValueType n p d r) indent target from = goBasicValueType_EntryCopy indent target from"
| "valueEntryCopy (goEnumValueType n d r) indent target from = goEnumValueType_EntryCopy indent target from"
| "valueEntryCopy (goStructValueType pk n r) indent target from = goStructValueType_EntryCopy indent target from"

subsection \<open>Fields\<close>

definition goRepeatedValueType_ReaderTypeName :: "goValueType \<Rightarrow> string" where
  [simp]: "goRepeatedValueType_ReaderTypeName t = ''[]'' @ valueReaderTypeName t"

definition goRepeatedPackedValueType_ReaderTypeName :: "goValueType \<Rightarrow> string" where
  [simp]: "goRepeatedPackedValueType_ReaderTypeName t = ''[]'' @ valueReaderTypeName t"

definition goMapValueType_ReaderTypeName :: "goValueType \<Rightarrow> goValueType \<Rightarrow> string" where
  [simp]: "goMapValueType_ReaderTypeName k t = ''map['' @ valueReaderTypeName k @ '']'' @ valueReaderTypeName t"

fun fieldReaderTypeName :: "GoFieldType \<Rightarrow> string" where
  "fieldReaderTypeName (goSingle t) = valueReaderTypeName t"
| "fieldReaderTypeName (goRepeatedValueType t r) = goRepeatedValueType_ReaderTypeName t"
| "fieldReaderTypeName (goRepeatedPackedValueType t r) = goRepeatedPackedValueType_ReaderTypeName t"
| "fieldReaderTypeName (goMapValueType k t) = goMapValueType_ReaderTypeName k t"

definition goRepeatedValueType_WriterTypeName :: "goValueType \<Rightarrow> string" where
  [simp]: "goRepeatedValueType_WriterTypeName t = ''[]'' @ valueWriterTypeName t"

definition goRepeatedPackedValueType_WriterTypeName :: "goValueType \<Rightarrow> string" where
  [simp]: "goRepeatedPackedValueType_WriterTypeName t = ''[]'' @ valueWriterTypeName t"

definition goMapValueType_WriterTypeName :: "goValueType \<Rightarrow> goValueType \<Rightarrow> string" where
  [simp]: "goMapValueType_WriterTypeName k t = ''map['' @ valueWriterTypeName k @ '']'' @ valueWriterTypeName t"

fun fieldWriterTypeName :: "GoFieldType \<Rightarrow> string" where
  "fieldWriterTypeName (goSingle t) = valueWriterTypeName t"
| "fieldWriterTypeName (goRepeatedValueType t r) = goRepeatedValueType_WriterTypeName t"
| "fieldWriterTypeName (goRepeatedPackedValueType t r) = goRepeatedPackedValueType_WriterTypeName t"
| "fieldWriterTypeName (goMapValueType k t) = goMapValueType_WriterTypeName k t"

fun OffsetsType :: "GoFieldType \<Rightarrow> string" where
  "OffsetsType (goSingle t) = ''int''"
| "OffsetsType t = ''[]int''"

fun WireTypeType :: "GoFieldType \<Rightarrow> string" where
  "WireTypeType (goRepeatedValueType t r) = (if valueCanBePacked t then ''[]gremlin.ProtoWireType'' else [])"
| "WireTypeType (goRepeatedPackedValueType t r) = (if valueCanBePacked t then ''[]gremlin.ProtoWireType'' else [])"
| "WireTypeType t = []"

definition goRepeatedValueType_EntryUnmarshalSaveOffsets :: "string \<Rightarrow> string \<Rightarrow> string" where
  [simp]: "goRepeatedValueType_EntryUnmarshalSaveOffsets indent fname =
     AddTabs (''m.offset'' @ fname @ '' = append(m.offset'' @ fname @ '', offset)'') indent"

definition goRepeatedPackedValueType_EntryUnmarshalSaveOffsets :: "string \<Rightarrow> string \<Rightarrow> string" where
  [simp]: "goRepeatedPackedValueType_EntryUnmarshalSaveOffsets indent fname =
     AddTabs (lines [''m.offset'' @ fname @ '' = append(m.offset'' @ fname @ '', offset)'',
       ''m.wireType'' @ fname @ '' = append(m.wireType'' @ fname @ '', wire)'']) indent"

definition goMapValueType_EntryUnmarshalSaveOffsets :: "string \<Rightarrow> string \<Rightarrow> string" where
  [simp]: "goMapValueType_EntryUnmarshalSaveOffsets indent fname =
     AddTabs (''m.offset'' @ fname @ '' = append(m.offset'' @ fname @ '', offset)'') indent"

fun fieldSaveOffsets :: "GoFieldType \<Rightarrow> string \<Rightarrow> string \<Rightarrow> string" where
  "fieldSaveOffsets (goSingle t) indent fname = AddTabs (''m.offset'' @ fname @ '' = offset'') indent"
| "fieldSaveOffsets (goRepeatedValueType t r) indent fname = goRepeatedValueType_EntryUnmarshalSaveOffsets indent fname"
| "fieldSaveOffsets (goRepeatedPackedValueType t r) indent fname = goRepeatedPackedValueType_EntryUnmarshalSaveOffsets indent fname"
| "fieldSaveOffsets (goMapValueType k t) indent fname = goMapValueType_EntryUnmarshalSaveOffsets indent fname"

definition goRepeatedValueType_EntryReader :: "goValueType \<Rightarrow> string \<Rightarrow> string \<Rightarrow> string" where
  [simp]: "goRepeatedValueType_EntryReader t indent v =
     AddTabs (lines [[], ''var '' @ v @ '' '' @ ''[]'' @ valueReaderTypeName t, ''for i := 0; i < len(wOffset); i++ {'',
       tabs 1 @ ''wOffset := wOffset[i]'', valueEntryReader t (tabs 1) ''listEntry'',
       tabs 1 @ v @ '' = append('' @ v @ '', listEntry)'', ''}'', []]) indent"

definition goRepeatedPackedValueType_EntryReader :: "goValueType \<Rightarrow> string \<Rightarrow> string \<Rightarrow> string" where
  [simp]: "goRepeatedPackedValueType_EntryReader t indent v =
     AddTabs (lines [[], ''var '' @ v @ '' '' @ ''[]'' @ valueReaderTypeName t, ''for i := 0; i < len(wOffset); i++ {'',
       tabs 1 @ ''wOffset := wOffset[i]'', tabs 1 @ ''wType := wType[i]'',
       tabs 1 @ ''if wType == gremlin.BytesType {'',
       tabs 2 @ ''size, sizeSize := m.buf.SizedReadVarInt(wOffset)'', tabs 2 @ ''offset := 0'',
       tabs 2 @ ''for offset < int(size) {'', tabs 3 @ ''wOffset := wOffset + sizeSize + offset'',
       valueEntrySizedReader t (tabs 3) ''listEntry'', tabs 3 @ v @ '' = append('' @ v @ '', listEntry)'',
       tabs 3 @ ''offset += listEntrySize'', tabs 2 @ ''}'', tabs 1 @ ''} else {'',
       valueEntryReader t (tabs 2) ''listEntry'', tabs 2 @ v @ '' = append('' @ v @ '', listEntry)'',
       tabs 1 @ ''}'', ''}'', []]) indent"

definition goMapValueType_EntryReader :: "goValueType \<Rightarrow> goValueType \<Rightarrow> string \<Rightarrow> string \<Rightarrow> string" where
  [simp]: "goMapValueType_EntryReader k t indent v =
     AddTabs (lines [[], ''var '' @ v @ '' = map['' @ valueReaderTypeName k @ '']'' @ valueReaderTypeName t @ ''{}'',
       ''for i := range wOffset {'', tabs 1 @ ''wOffset := wOffset[i]'', [],
       tabs 1 @ ''entrySize, entrySizeSize := m.buf.SizedReadVarInt(wOffset)'',
       tabs 1 @ ''endOffset := wOffset + entrySizeSize + int(entrySize)'',
       tabs 1 @ ''wOffset += entrySizeSize'', tabs 1, tabs 1 @ ''var keyData '' @ valueReaderTypeName k,
       tabs 1 @ ''var valueData '' @ valueReaderTypeName t, tabs 1 @ ''for wOffset < endOffset {'',
       tabs 2 @ ''tag, wireType, tagSize, _ := m.buf.ReadTagAt(wOffset)'', tabs 2 @ ''wOffset += tagSize'',
       tabs 2 @ ''if tag == 1 {'', valueEntrySizedReader k (tabs 3) ''keyEntry'',
       tabs 3 @ ''wOffset += keyEntrySize'', tabs 3 @ ''keyData = keyEntry'',
       tabs 2 @ ''} else if tag == 2 {'', valueEntrySizedReader t (tabs 3) ''valueEntry'',
       tabs 3 @ ''wOffset += valueEntrySize'', tabs 3 @ ''valueData = valueEntry'', tabs 2 @ ''} else {'',
       tabs 3 @ ''wOffset, _ = m.buf.SkipData(wOffset, wireType)'', tabs 2 @ ''}'', tabs 1 @ ''}'',
       tabs 1 @ v @ ''[keyData] = valueData'', ''}'', []]) indent"

fun fieldEntryReader :: "GoFieldType \<Rightarrow> string \<Rightarrow> string \<Rightarrow> string" where
  "fieldEntryReader (goSingle t) indent v = valueEntryReader t indent v"
| "fieldEntryReader (goRepeatedValueType t r) indent v = goRepeatedValueType_EntryReader t indent v"
| "fieldEntryReader (goRepeatedPackedValueType t r) indent v = goRepeatedPackedValueType_EntryReader t indent v"
| "fieldEntryReader (goMapValueType k t) indent v = goMapValueType_EntryReader k t indent v"

definition goRepeatedValueType_ToStruct :: "goValueType \<Rightarrow> string \<Rightarrow> string \<Rightarrow> string \<Rightarrow> string" where
  [simp]: "goRepeatedValueType_ToStruct t indent target from =
     AddTabs (lines [''if len('' @ from @ '') > 0 {'',
       tabs 1 @ target @ '' = make('' @ ''[]'' @ valueWriterTypeName t @ '', len('' @ from @ ''))'',
       tabs 1 @ ''for i := range '' @ from @ '' {'',
       valueToStruct t (tabs 2) (target @ ''[i]'') (from @ ''[i]''), tabs 1 @ ''}'', ''}'']) indent"

definition goRepeatedPackedValueType_ToStruct :: "goValueType \<Rightarrow> string \<Rightarrow> string \<Rightarrow> string \<Rightarrow> string" where
  [simp]: "goRepeatedPackedValueType_ToStruct t indent target from =
     AddTabs (lines [''if len('' @ from @ '') > 0 {'',
       tabs 1 @ target @ '' = make('' @ ''[]'' @ valueWriterTypeName t @ '', len('' @ from @ ''))'',
       tabs 1 @ ''for i := range '' @ from @ '' {'',
       valueToStruct t (tabs 2) (target @ ''[i]'') (from @ ''[i]''), tabs 1 @ ''}'', ''}'']) indent"

definition goMapValueType_ToStruct :: "goValueType \<Rightarrow> goValueType \<Rightarrow> string \<Rightarrow> string \<Rightarrow> string \<Rightarrow> string" where
  [simp]: "goMapValueType_ToStruct k t indent target from =
     AddTabs (lines [''if len('' @ from @ '') > 0 {'',
       tabs 1 @ target @ '' = make('' @ ''map['' @ valueWriterTypeName k @ '']'' @ valueWriterTypeName t @ '', len('' @ from @ ''))'',
       tabs 1 @ ''for k,v := range '' @ from @ '' {'', valueToStruct t (tabs 2) (target @ ''[k]'') ''v'',
       tabs 1 @ ''}'', ''}'']) indent"

fun fieldToStruct :: "GoFieldType \<Rightarrow> string \<Rightarrow> string \<Rightarrow> string \<Rightarrow> string" where
  "fieldToStruct (goSingle t) indent target from = valueToStruct t indent target from"
| "fieldToStruct (goRepeatedValueType t r) indent target from = goRepeatedValueType_ToStruct t indent target from"
| "fieldToStruct (goRepeatedPackedValueType t r) indent target from = goRepeatedPackedValueType_ToStruct t indent target from"
| "fieldToStruct (goMapValueType k t) indent target from = goMapValueType_ToStruct k t indent target from"

definition goRepeatedValueType_EntryIsNotEmpty :: "bool \<Rightarrow> string \<Rightarrow> string" where
  [simp]: "goRepeatedValueType_EntryIsNotEmpty r v = (if r then ''true'' else ''len('' @ v @ '') > 0'')"

definition goRepeatedPackedValueType_EntryIsNotEmpty :: "bool \<Rightarrow> string \<Rightarrow> string" where
  [simp]: "goRepeatedPackedValueType_EntryIsNotEmpty r v = (if r then ''true'' else ''len('' @ v @ '') > 0'')"

definition goMapValueType_EntryIsNotEmpty :: "string \<Rightarrow> string" where
  [simp]: "goMapValueType_EntryIsNotEmpty v = ''len('' @ v @ '') > 0''"

fun fieldIsNotEmpty :: "GoFieldType \<Rightarrow> string \<Rightarrow> string" where
  "fieldIsNotEmpty (goSingle t) v = valueIsNotEmpty t v"
| "fieldIsNotEmpty (goRepeatedValueType t r) v = goRepeatedValueType_EntryIsNotEmpty r v"
| "fieldIsNotEmpty (goRepeatedPackedValueType t r) v = goRepeatedPackedValueType_EntryIsNotEmpty r v"
| "fieldIsNotEmpty (goMapValueType k t) v = goMapValueType_EntryIsNotEmpty v"

fun fieldDefaultReturn :: "GoFieldType \<Rightarrow> string" where
  "fieldDefaultReturn (goSingle t) = valueDefaultReturn t"
| "fieldDefaultReturn t = ''nil''"

definition goRepeatedValueType_JsonStructCanBeUsedDirectly :: "goValueType \<Rightarrow> bool" where
  [simp]: "goRepeatedValueType_JsonStructCanBeUsedDirectly t = valueUsedDirectly t"

definition goRepeatedPackedValueType_JsonStructCanBeUsedDirectly :: "goValueType \<Rightarrow> bool" where
  [simp]: "goRepeatedPackedValueType_JsonStructCanBeUsedDirectly t = valueUsedDirectly t"

definition goMapValueType_JsonStructCanBeUsedDirectly :: "goValueType \<Rightarrow> goValueType \<Rightarrow> bool" where
  [simp]: "goMapValueType_JsonStructCanBeUsedDirectly k t = (valueUsedDirectly k \<and> valueUsedDirectly t)"

fun fieldUsedDirectly :: "GoFieldType \<Rightarrow> bool" where
  "fieldUsedDirectly (goSingle t) = valueUsedDirectly t"
| "fieldUsedDirectly (goRepeatedValueType t r) = goRepeatedValueType_JsonStructCanBeUsedDirectly t"
| "fieldUsedDirectly (goRepeatedPackedValueType t r) = goRepeatedPackedValueType_JsonStructCanBeUsedDirectly t"
| "fieldUsedDirectly (goMapValueType k t) = goMapValueType_JsonStructCanBeUsedDirectly k t"

definition goRepeatedValueType_EntryFullSizeWithTag :: "goValueType \<Rightarrow> string \<Rightarrow> string \<Rightarrow> string \<Rightarrow> string \<Rightarrow> string" where
  [simp]: "goRepeatedValueType_EntryFullSizeWithTag t indent sz v tag =
     AddTabs (lines [sz @ '' = 0'', ''for _, val := range '' @ v @ '' {'', tabs 1 @ ''var listEntrySize int'',
       valueSizeWithTag t (tabs 1) ''listEntrySize'' ''val'' tag, tabs 1 @ sz @ '' += listEntrySize'', ''}'']) indent"

definition goRepeatedPackedValueType_EntryFullSizeWithTag :: "goValueType \<Rightarrow> string \<Rightarrow> string \<Rightarrow> string \<Rightarrow> string \<Rightarrow> string" where
  [simp]: "goRepeatedPackedValueType_EntryFullSizeWithTag t indent sz v tag =
     AddTabs (lines [sz @ '' = 0'', ''if len('' @ v @ '') > 1 {'', tabs 1 @ ''var listBytesSize = 0'',
       tabs 1 @ ''for _, entry := range '' @ v @ '' {'', tabs 2 @ ''var listEntrySize = 0'',
       valueSizeWithoutTag t (tabs 2) ''listEntrySize'' ''entry'', tabs 2 @ ''listBytesSize += listEntrySize'',
       tabs 1 @ ''}'',
       tabs 1 @ sz @ '' += gremlin.SizeUint64(uint64(listBytesSize)) + gremlin.SizeTag('' @ tag @ '') + listBytesSize'',
       ''} else if len('' @ v @ '') == 1 {'', tabs 1 @ ''var listEntrySize = 0'',
       valueSizeWithTag t (tabs 1) ''listEntrySize'' (v @ ''[0]'') tag, tabs 1 @ sz @ '' += listEntrySize'',
       ''}'']) indent"

definition goMapValueType_EntryFullSizeWithTag :: "goValueType \<Rightarrow> goValueType \<Rightarrow> string \<Rightarrow> string \<Rightarrow> string \<Rightarrow> string \<Rightarrow> string" where
  [simp]: "goMapValueType_EntryFullSizeWithTag k t indent sz v tag =
     AddTabs (lines [sz @ '' = 0'', ''for k, v := range '' @ v @ '' {'', tabs 1 @ ''var keySize, valueSize int'',
       valueSizeWithTag k (tabs 1) ''keySize'' ''k'' (dec 1),
       valueSizeWithTag t (tabs 1) ''valueSize'' ''v'' (dec 2),
       tabs 1 @ ''var mapEntrySize = keySize + valueSize'',
       tabs 1 @ sz @ '' += mapEntrySize + gremlin.SizeTag('' @ tag @ '') + gremlin.SizeUint64(uint64(mapEntrySize))'',
       ''}'', []]) indent"

fun fieldSizeWithTag :: "GoFieldType \<Rightarrow> string \<Rightarrow> string \<Rightarrow> string \<Rightarrow> string \<Rightarrow> string" where
  "fieldSizeWithTag (goSingle t) indent sz v tag = valueSizeWithTag t indent sz v tag"
| "fieldSizeWithTag (goRepeatedValueType t r) indent sz v tag = goRepeatedValueType_EntryFullSizeWithTag t indent sz v tag"
| "fieldSizeWithTag (goRepeatedPackedValueType t r) indent sz v tag = goRepeatedPackedValueType_EntryFullSizeWithTag t indent sz v tag"
| "fieldSizeWithTag (goMapValueType k t) indent sz v tag = goMapValueType_EntryFullSizeWithTag k t indent sz v tag"

definition goRepeatedValueType_EntryWriter :: "goValueType \<Rightarrow> string \<Rightarrow> string \<Rightarrow> string \<Rightarrow> string \<Rightarrow> unit fault + string" where
  [simp]: "goRepeatedValueType_EntryWriter t indent buf tag v =
     Inr (AddTabs (lines [''for _, entry := range '' @ v @ '' {'', valueEntryWriter t (tabs 1) buf tag ''entry'', ''}'']) indent)"

definition goRepeatedPackedValueType_EntryWriter :: "goValueType \<Rightarrow> string \<Rightarrow> string \<Rightarrow> string \<Rightarrow> string \<Rightarrow> unit fault + string" where
  [simp]: "goRepeatedPackedValueType_EntryWriter t indent buf tag v =
     andThen (valuePackedEntryWriter t (tabs 2) buf ''entry'') (\<lambda>packed. Inr (AddTabs (lines [''if len('' @ v @ '') > 1 {'', tabs 1 @ ''var listBytesSize = 0'',
       tabs 1 @ ''for _, entry := range '' @ v @ '' {'', tabs 2 @ ''var entrySize = 0'',
       valueSizeWithoutTag t (tabs 2) ''entrySize'' ''entry'', tabs 2 @ ''listBytesSize += entrySize'',
       tabs 1 @ ''}'', tabs 1 @ buf @ ''.AppendBytesTag('' @ tag @ '', listBytesSize)'',
       tabs 1 @ ''for _, entry := range '' @ v @ '' {'', packed, tabs 1 @ ''}'',
       ''} else if len('' @ v @ '') == 1 {'', valueEntryWriter t (tabs 1) buf tag (v @ ''[0]''), ''}'']) indent))"

definition goMapValueType_EntryWriter :: "goValueType \<Rightarrow> goValueType \<Rightarrow> string \<Rightarrow> string \<Rightarrow> string \<Rightarrow> string \<Rightarrow> unit fault + string" where
  [simp]: "goMapValueType_EntryWriter k t indent buf tag v =
     Inr (AddTabs (lines [''for k, v := range '' @ v @ '' {'', tabs 1 @ ''var keySize, valueSize int'',
       valueSizeWithTag k (tabs 1) ''keySize'' ''k'' (dec 1),
       valueSizeWithTag t (tabs 1) ''valueSize'' ''v'' (dec 2),
       tabs 1 @ ''mapEntrySize := keySize + valueSize'',
       tabs 1 @ buf @ ''.AppendBytesTag('' @ tag @ '', mapEntrySize)'',
       valueEntryWriter k (tabs 1) buf (dec 1) ''k'', valueEntryWriter t (tabs 1) buf (dec 2) ''v'', ''}'']) indent)"

fun fieldEntryWriter :: "GoFieldType \<Rightarrow> string \<Rightarrow> string \<Rightarrow> string \<Rightarrow> string \<Rightarrow> unit fault + string" where
  "fieldEntryWriter (goSingle t) indent buf tag v = Inr (valueEntryWriter t indent buf tag v)"
| "fieldEntryWriter (goRepeatedValueType t r) indent buf tag v = goRepeatedValueType_EntryWriter t indent buf tag v"
| "fieldEntryWriter (goRepeatedPackedValueType t r) indent buf tag v = goRepeatedPackedValueType_EntryWriter t indent buf tag v"
| "fieldEntryWriter (goMapValueType k t) indent buf tag v = goMapValueType_EntryWriter k t indent buf tag v"

definition goRepeatedValueType_EntryCopy :: "goValueType \<Rightarrow> string \<Rightarrow> string \<Rightarrow> string \<Rightarrow> string" where
  [simp]: "goRepeatedValueType_EntryCopy t indent target from =
     (if valueUsedDirectly t
      then AddTabs (target @ '' = '' @ from) indent
      else AddTabs (lines [target @ '' = make('' @ ''[]'' @ valueWriterTypeName t @ '', len('' @ from @ ''))'',
       ''for i := range '' @ from @ '' {'', valueEntryCopy t (tabs 1) (target @ ''[i]'') (from @ ''[i]''),
       ''}'']) indent)"

definition goRepeatedPackedValueType_EntryCopy :: "goValueType \<Rightarrow> string \<Rightarrow> string \<Rightarrow> string \<Rightarrow> string" where
  [simp]: "goRepeatedPackedValueType_EntryCopy t indent target from =
     (if valueUsedDirectly t
      then AddTabs (target @ '' = '' @ from) indent
      else AddTabs (lines [target @ '' = make('' @ ''[]'' @ valueWriterTypeName t @ '', len('' @ from @ ''))'',
       ''for i := range '' @ from @ '' {'', valueEntryCopy t (tabs 1) (target @ ''[i]'') (from @ ''[i]''),
       ''}'']) indent)"

definition goMapValueType_EntryCopy :: "goValueType \<Rightarrow> goValueType \<Rightarrow> string \<Rightarrow> string \<Rightarrow> string \<Rightarrow> string" where
  [simp]: "goMapValueType_EntryCopy k t indent target from =
     AddTabs (lines [
       target @ '' = make(map['' @ valueWriterTypeName k @ '']'' @ valueWriterTypeName t @ '', len('' @ from @ ''))'',
       ''for k, v := range '' @ from @ '' {'', valueEntryCopy t (tabs 1) (target @ ''[k]'') ''v'', ''}'']) indent"

fun fieldEntryCopy :: "GoFieldType \<Rightarrow> string \<Rightarrow> string \<Rightarrow> string \<Rightarrow> string" where
  "fieldEntryCopy (goSingle t) indent target from = valueEntryCopy t indent target from"
| "fieldEntryCopy (goRepeatedValueType t r) indent target from = goRepeatedValueType_EntryCopy t indent target from"
| "fieldEntryCopy (goRepeatedPackedValueType t r) indent target from = goRepeatedPackedValueType_EntryCopy t indent target from"
| "fieldEntryCopy (goMapValueType k t) indent target from = goMapValueType_EntryCopy k t indent target from"

subsection \<open>Structs\<close>

text \<open>\<open>s\<close> is the name of the struct.\<close>

definition wireTypeConstName :: "string \<Rightarrow> GoStructField \<Rightarrow> string" where
  "wireTypeConstName s f = ''wire'' @ s @ ''_'' @ gf_name f"

definition writeWireTypeConst :: "string \<Rightarrow> GoStructField \<Rightarrow> string" where
  "writeWireTypeConst s f =
     tab @ wireTypeConstName s f @ '' gremlin.ProtoWireNumber = '' @ decInt (pf_sequence (fd_proto (gf_proto f))) @ nl"

definition writeProtoStructData :: "GoStructField \<Rightarrow> string" where
  "writeProtoStructData f = tab @ ''data'' @ gf_name f @ ''     '' @ fieldReaderTypeName (gf_type f) @ nl"

definition writeProtoStructOffset :: "GoStructField \<Rightarrow> string" where
  "writeProtoStructOffset f =
     (let wType = WireTypeType (gf_type f);
          wTypeCode = (if wType \<noteq> [] then nl @ tab @ ''wireType'' @ gf_name f @ '' '' @ wType else [])
      in tab @ ''offset'' @ gf_name f @ ''   '' @ OffsetsType (gf_type f) @ wTypeCode @ nl)"

definition writeProtoStructParsedFlag :: "GoStructField \<Rightarrow> string" where
  "writeProtoStructParsedFlag f = tab @ ''parsed'' @ gf_name f @ ''   bool'' @ nl"

definition writeGetter :: "string \<Rightarrow> GoStructField \<Rightarrow> string" where
  "writeGetter s f =
     lines [[],
       ''func (m *'' @ s @ ''Reader) Get'' @ gf_name f @ ''() '' @ fieldReaderTypeName (gf_type f) @ '' {'',
       tabs 1 @ ''if m == nil {'', tabs 2 @ ''return '' @ fieldDefaultReturn (gf_type f), tabs 1 @ ''}'',
       tabs 1 @ ''return m.read'' @ gf_name f @ ''()'', ''}'', []]"

definition writeReader :: "string \<Rightarrow> GoStructField \<Rightarrow> string" where
  "writeReader s f =
     (let wireTypeCode = (if WireTypeType (gf_type f) \<noteq> [] then tab @ ''var wType = m.wireType'' @ gf_name f @ nl else [])
      in lines [[],
       ''func (m *'' @ s @ ''Reader) read'' @ gf_name f @ ''() '' @ fieldReaderTypeName (gf_type f) @ '' {'',
       tabs 1 @ ''if m.parsed'' @ gf_name f @ '' {'', tabs 2 @ ''return m.data'' @ gf_name f, tabs 1 @ ''}'',
       tabs 1 @ ''wOffset := m.offset'' @ gf_name f,
       wireTypeCode @ fieldEntryReader (gf_type f) (tabs 1) ''entry'',
       tabs 1 @ ''m.data'' @ gf_name f @ '' = entry'', tabs 1 @ ''m.parsed'' @ gf_name f @ '' = true'',
       tabs 1 @ ''return entry'', ''}'', []])"

definition writeAccessors :: "string \<Rightarrow> GoStructField \<Rightarrow> string" where
  "writeAccessors s f =
     writeGetter s f @ writeReader s f"

definition writeFieldUnmarshal :: "string \<Rightarrow> GoStructField \<Rightarrow> string" where
  "writeFieldUnmarshal s f =
     lines [[], tabs 2 @ ''case '' @ wireTypeConstName s f @ '':'',
       fieldSaveOffsets (gf_type f) (tabs 3) (gf_name f)]"

definition writeStructField :: "GoStructField \<Rightarrow> string" where
  "writeStructField f =
     tab @ gf_name f @ tab @ fieldWriterTypeName (gf_type f) @ tab @ ''`json:'' @ dquote
     @ ProtoName (fd_name (gf_proto f)) @ '',omitempty'' @ dquote @ ''`'' @ nl"

definition writeFieldToStruct :: "GoStructField \<Rightarrow> string" where
  "writeFieldToStruct f =
     (if fieldUsedDirectly (gf_type f) then tab @ ''res.'' @ gf_name f @ '' = m.Get'' @ gf_name f @ ''()'' @ nl
      else lines [[], tabs 1 @ ''{'', tabs 2 @ ''var data = m.Get'' @ gf_name f @ ''()'',
       tabs 2 @ ''var structData '' @ fieldWriterTypeName (gf_type f),
       fieldToStruct (gf_type f) (tabs 2) ''structData'' ''data'',
       tabs 2 @ ''res.'' @ gf_name f @ '' = structData'', tabs 1 @ ''}'', []])"

definition writeSizeCalc :: "string \<Rightarrow> GoStructField \<Rightarrow> string" where
  "writeSizeCalc s f =
     lines [[], tabs 1 @ ''if '' @ fieldIsNotEmpty (gf_type f) (''s.'' @ gf_name f) @ '' {'',
       tabs 2 @ ''var entrySize = 0'',
       fieldSizeWithTag (gf_type f) (tabs 2) ''entrySize'' (''s.'' @ gf_name f) (wireTypeConstName s f),
       tabs 2 @ ''size += entrySize'', tabs 1 @ ''}'', []]"

definition writeFieldMarshal :: "string \<Rightarrow> GoStructField \<Rightarrow> unit fault + string" where
  "writeFieldMarshal s f =
     andThen (fieldEntryWriter (gf_type f) (tabs 2) ''res'' (wireTypeConstName s f) (''s.'' @ gf_name f)) (\<lambda>code. Inr
       (lines [[], tabs 1 @ ''if '' @ fieldIsNotEmpty (gf_type f) (''s.'' @ gf_name f) @ '' {'', code, tabs 1 @ ''}'']))"

definition writeFieldCopy :: "GoStructField \<Rightarrow> string" where
  "writeFieldCopy f = fieldEntryCopy (gf_type f) (tabs 1) (''res.'' @ gf_name f) (''s.'' @ gf_name f) @ nl"

definition writeWireTypes :: "GoStructType \<Rightarrow> string" where
  "writeWireTypes g = nl @ ''const ('' @ nl @ concat (map (writeWireTypeConst (StructName g)) (structFields g)) @ '')'' @ nl"

definition writeReaderConstructor :: "GoStructType \<Rightarrow> string" where
  "writeReaderConstructor g =
     lines [[], ''func New'' @ StructName g @ ''Reader() *'' @ StructName g @ ''Reader {'',
       tabs 1 @ ''return &'' @ StructName g @ ''Reader{}'', ''}'', []]"

definition writeReaderStruct :: "GoStructType \<Rightarrow> string" where
  "writeReaderStruct g =
     lines [[], ''type '' @ StructName g @ ''Reader struct {'', tabs 1 @ ''buf *gremlin.Reader'', [], []]
     @ concat (map (writeProtoStructData) (structFields g)) @ nl
     @ concat (map (writeProtoStructOffset) (structFields g)) @ nl
     @ concat (map (writeProtoStructParsedFlag) (structFields g)) @ ''}'' @ nl"

definition writeStruct :: "GoStructType \<Rightarrow> string" where
  "writeStruct g =
     lines [[], ''type '' @ StructName g @ '' struct {'', []]
     @ concat (map (writeStructField) (structFields g)) @ ''}'' @ nl"

definition writeFieldsAccessors :: "GoStructType \<Rightarrow> string" where
  "writeFieldsAccessors g =
     concat (map (writeAccessors (StructName g)) (structFields g))"

definition writeUnmarshal :: "GoStructType \<Rightarrow> string" where
  "writeUnmarshal g =
     lines [[], ''func (m *'' @ StructName g @ ''Reader) Unmarshal(data []byte) error {'',
       tabs 1 @ ''m.buf = gremlin.NewReader(data)'', tabs 1 @ ''offset := 0'',
       tabs 1 @ ''for m.buf.HasNext(offset, 0) {'',
       tabs 2 @ ''tag, wire, tagSize, err := m.buf.ReadTagAt(offset)'', tabs 2 @ ''if err != nil {'',
       tabs 3 @ ''return err'', tabs 2 @ ''}'', [], tabs 2 @ ''offset += tagSize'', tabs 2 @ ''switch tag {'']
     @ concat (map (writeFieldUnmarshal (StructName g)) (structFields g))
     @ lines [[], tabs 2 @ ''}'', [], tabs 2 @ ''offset, err = m.buf.SkipData(offset, wire)'',
       tabs 2 @ ''if err != nil {'', tabs 3 @ ''return err'', tabs 2 @ ''}'', tabs 1 @ ''}'',
       tabs 1 @ ''return nil'', ''}'', []]"

definition writeToStruct :: "GoStructType \<Rightarrow> string" where
  "writeToStruct g =
     lines [[], ''func (m *'' @ StructName g @ ''Reader) ToStruct() *'' @ StructName g @ '' {'',
       tabs 1 @ ''if m == nil {'', tabs 2 @ ''return nil'', tabs 1 @ ''}'',
       tabs 1 @ ''res := &'' @ StructName g @ ''{}'', []]
     @ concat (map (writeFieldToStruct) (structFields g))
     @ lines [[], tabs 1 @ ''return res'', ''}'', []]"

definition writeGetBytes :: "GoStructType \<Rightarrow> string" where
  "writeGetBytes g =
     lines [[], ''func (s *'' @ StructName g @ ''Reader) SourceBytes() []byte {'', tabs 1 @ ''if s == nil {'',
       tabs 2 @ ''return nil'', tabs 1 @ ''}'', tabs 1 @ ''return s.buf.Bytes()'', ''}'', []]"

definition writeMarshal :: "GoStructType \<Rightarrow> unit fault + string" where
  "writeMarshal g =
     andThen (foldE (\<lambda>f sb. andThen (writeFieldMarshal (StructName g) f) (\<lambda>code. Inr (sb @ code))) (structFields g)
       (lines [[], ''func (s *'' @ StructName g @ '') Marshal() []byte {'', tabs 1 @ ''if s == nil {'',
       tabs 2 @ ''return nil'', tabs 1 @ ''}'', tabs 1 @ ''size := s.XXX_PbContentSize()'',
       tabs 1 @ ''if size == 0 {'', tabs 2 @ ''return nil'', tabs 1 @ ''}'',
       tabs 1 @ ''res := gremlin.NewWriter(size)'', tabs 1 @ ''s.MarshalTo(res)'',
       tabs 1 @ ''return res.Bytes()'', ''}'', [],
       ''func (s *'' @ StructName g @ '') MarshalTo(res *gremlin.Writer) {'', tabs 1 @ ''if s == nil {'',
       tabs 2 @ ''return'', tabs 1 @ ''}'', []]))
       (\<lambda>sb. Inr (sb @ lines [[], ''}'', []]))"

definition writeSize :: "GoStructType \<Rightarrow> string" where
  "writeSize g =
     lines [[], ''func (s *'' @ StructName g @ '') XXX_PbContentSize() int {'', tabs 1 @ ''if s == nil {'',
       tabs 2 @ ''return 0'', tabs 1 @ ''}'', tabs 1 @ ''var size = 0'', []]
     @ concat (map (writeSizeCalc (StructName g)) (structFields g))
     @ lines [[], tabs 1 @ ''return size'', ''}'', []]"

definition writeCopy :: "GoStructType \<Rightarrow> string" where
  "writeCopy g =
     lines [[], ''func (s *'' @ StructName g @ '') Copy() *'' @ StructName g @ '' {'', tabs 1 @ ''if s == nil {'',
       tabs 2 @ ''return nil'', tabs 1 @ ''}'', tabs 1 @ ''res := &'' @ StructName g @ ''{}'', []]
     @ concat (map (writeFieldCopy) (structFields g))
     @ lines [[], tabs 1 @ ''return res'', ''}'', []]"

definition GenerateStruct :: "GoStructType \<Rightarrow> unit fault + string" where
  "GenerateStruct g =
     andThen (writeMarshal g) (\<lambda>marshal. Inr
       (writeWireTypes g @ writeReaderStruct g @ writeReaderConstructor g @ writeFieldsAccessors g @ writeUnmarshal g
        @ writeToStruct g @ writeGetBytes g @ writeStruct g @ marshal @ writeCopy g @ writeSize g))"


subsection \<open>Files\<close>

definition GenerateCode :: "string \<Rightarrow> GoGeneratedFile \<Rightarrow> unit fault + string" where
  "GenerateCode relativePath g =
     (let g = withRuntime g in
      foldE (\<lambda>t sb. andThen (GenerateStruct t) (\<lambda>code. Inr (sb @ code))) (structs g)
        (''// Code generated by gremlin. DO NOT EDIT.'' @ nl @ ''// source: '' @ relativePath @ nl @ nl
         @ ''package '' @ ShortPackageName g @ nl @ nl
         @ importLines (List.filter Used (goImports g))
         @ concat (map GenerateEnum (enums g))))"

text \<open>The files to write, with their content; it is generated when the turn of the file comes.\<close>

definition Generate :: "string \<Rightarrow> string \<Rightarrow> ProtoFile list \<Rightarrow>
    unit fault + (string \<times> (unit fault + string)) list \<times> map_error list" where
  "Generate root modulePath targets =
     andThen (MapProtoFiles root modulePath targets) (\<lambda>(mapped, errors).
       if length errors > 0 then Inr ([], errors)
       else Inr (map (\<lambda>g. (FullOutputPath g, GenerateCode (RelativePath (targets ! protoFile g)) g)) mapped, []))"

end
