(* ===== verification/Go_Linking.thy ===== *)
theory Go_Linking
  imports Go_Mapping
begin

section \<open>The front end links what the mapper needs\<close>

text \<open>
  The passes of \<open>ResolveImportsAndReferences\<close>, one invariant per pass: files from the parser have
  fields without references; without an import error every import has a target; public imports
  and extensions keep that; and without a reference error every field is linked. So a run of
  the generator without errors in the front end maps every file.
\<close>

subsection \<open>Fields before resolution\<close>

definition fresh_def :: "MessageFieldDefinition \<Rightarrow> bool" where
  "fresh_def fd \<longleftrightarrow> fd_local_enum fd = None \<and> fd_local_msg fd = None \<and> fd_external_file fd = None
     \<and> fd_external_enum fd = None \<and> fd_external_msg fd = None
     \<and> (fd_scalar fd \<noteq> [] \<longrightarrow> isScalar (fd_scalar fd)) \<and> (fd_map fd \<longrightarrow> isScalar (fd_map_key fd))"

definition fresh_message :: "MessageDefinition \<Rightarrow> bool" where
  "fresh_message m \<longleftrightarrow> list_all fresh_def (md_fields m)"

definition fresh_file :: "ProtoFile \<Rightarrow> bool" where
  "fresh_file f \<longleftrightarrow> list_all fresh_message (pr_messages f)"

subsection \<open>Passes over all files\<close>

lemma passFiles_from:
  assumes "\<And>m parsed f. a \<le> m \<Longrightarrow> m < n \<Longrightarrow> P m parsed \<Longrightarrow> pass parsed (parsed ! m) = (f, []) \<Longrightarrow> P (Suc m) (parsed[m := f])"
    and "P a parsed" and "snd (passFiles pass [a..<n] parsed) = []" and "a \<le> n"
  shows "P n (fst (passFiles pass [a..<n] parsed))"
  using assms
proof (induction "n - a" arbitrary: a parsed)
  case (Suc d)
  then have less: "a < n" by simp
  then have upt: "[a..<n] = a # [Suc a..<n]" by (rule upt_conv_Cons)
  obtain f es where f: "pass parsed (parsed ! a) = (f, es)" by force
  have es: "es = []" and rest: "snd (passFiles pass [Suc a..<n] (parsed[a := f])) = []"
    using Suc.prems(3) by (simp_all add: upt f split: prod.splits)
  have "P n (fst (passFiles pass [Suc a..<n] (parsed[a := f])))"
  proof (rule Suc.hyps(1))
    show "P (Suc a) (parsed[a := f])" by (rule Suc.prems(1)) (use less Suc.prems(2) f es in auto)
  qed (use Suc.hyps(2) Suc.prems(1) rest less in auto)
  then show ?case by (simp add: upt f case_prod_unfold Let_def)
qed simp

lemmas passFiles_upto = passFiles_from [of 0, OF _ _ _ zero_le, simplified]

subsection \<open>Imports\<close>

definition import_linked :: "nat \<Rightarrow> ProtoImport \<Rightarrow> bool" where
  "import_linked n imp \<longleftrightarrow> (case im_target imp of None \<Rightarrow> False | Some t \<Rightarrow> t < n)"

lemma imports_linked_alt: "imports_linked parsed f \<longleftrightarrow> list_all (import_linked (length parsed)) (pr_imports f)"
  by (simp add: imports_linked_def import_linked_def [abs_def])

lemma findFile_less: "findFile parsed p = Some t \<Longrightarrow> t < length parsed"
  by (auto simp: findFile_def find_Some_iff rev_nth)

lemma resolveImportList_linked:
  "snd (resolveImportList parsed f is) = [] \<Longrightarrow> list_all (import_linked (length parsed)) (fst (resolveImportList parsed f is))"
  by (induction "is") (auto simp: Let_def import_linked_def findFile_less split: prod.splits option.splits)

lemma resolveImports_linked:
  assumes "resolveImports parsed f = (f', [])"
  shows "imports_linked parsed f' \<and> pr_messages f' = pr_messages f"
  using assms resolveImportList_linked [of parsed f "pr_imports f"]
  by (auto simp: resolveImports_def imports_linked_alt split: if_splits prod.splits)

text \<open>Files in progress: their number, imports and messages.\<close>

definition in_progress :: "nat \<Rightarrow> ProtoFile list \<Rightarrow> bool" where
  "in_progress n parsed \<longleftrightarrow> length parsed = n \<and> list_all fresh_file parsed"

definition imports_done :: "nat \<Rightarrow> ProtoFile list \<Rightarrow> bool" where
  "imports_done n parsed \<longleftrightarrow> in_progress n parsed \<and> list_all (imports_linked parsed) parsed"

lemma resolveImports_pass:
  assumes "in_progress n parsed" and "snd (passFiles resolveImports [0..<n] parsed) = []"
  shows "imports_done n (fst (passFiles resolveImports [0..<n] parsed))"
proof -
  let ?P = "\<lambda>m parsed. in_progress n parsed \<and> (\<forall>i < m. imports_linked parsed (parsed ! i))"
  have "?P n (fst (passFiles resolveImports [0..<n] parsed))"
  proof (rule passFiles_upto [where P = ?P])
    fix m parsed f
    assume m: "m < n" and P: "?P m parsed" and f: "resolveImports parsed (parsed ! m) = (f, [])"
    from P m have fresh: "fresh_file (parsed ! m)" "length parsed = n" by (auto simp: in_progress_def list_all_length)
    have "in_progress n (parsed[m := f])"
      using P m fresh resolveImports_linked [OF f] by (auto simp: in_progress_def fresh_file_def list_all_length nth_list_update)
    moreover have "imports_linked (parsed[m := f]) (parsed[m := f] ! i)" if "i < Suc m" for i
      using that P m fresh(2) resolveImports_linked [OF f] by (auto simp: imports_linked_alt nth_list_update less_Suc_eq)
    ultimately show "?P (Suc m) (parsed[m := f])" by blast
  qed (use assms in auto)
  then show ?thesis by (auto simp: imports_done_def list_all_length in_progress_def)
qed

lemma addPublic_done:
  assumes "imports_done n parsed" and "import_linked n imp"
  shows "imports_done n (addPublic i parsed imp)"
proof (cases "i < length parsed")
  case True
  from assms(2) obtain t where t: "im_target imp = Some t" "t < n" by (auto simp: import_linked_def split: option.splits)
  have "list_all (import_linked n) (pr_imports (parsed ! k))" if "k < n" for k
    using that assms(1) by (auto simp: imports_done_def in_progress_def list_all_length [of "imports_linked parsed"] imports_linked_alt)
  then have "list_all (import_linked n) (pr_imports (parsed ! i) @ publicImports (parsed ! t))"
    using True t(2) assms(1) by (auto simp: imports_done_def in_progress_def publicImports_def list_all_iff)
  then show ?thesis using assms(1) True t
    by (auto simp: addPublic_def imports_done_def in_progress_def fresh_file_def list_all_length imports_linked_alt nth_list_update)
next
  case False
  then show ?thesis using assms by (auto simp: addPublic_def list_update_beyond split: option.split)
qed

lemma foldl_keeps: "(\<And>s x. x \<in> set xs \<Longrightarrow> P s \<Longrightarrow> P (f s x)) \<Longrightarrow> P s \<Longrightarrow> P (foldl f s xs)"
  by (induction xs arbitrary: s) auto

lemma addAllPublicImports_done:
  assumes "imports_done n parsed"
  shows "imports_done n (addAllPublicImports parsed)"
  unfolding addAllPublicImports_def
proof (rule foldl_keeps [where P = "imports_done n"])
  fix s i
  assume i: "i \<in> set [0..<length parsed]" and s: "imports_done n s"
  have n: "length parsed = n" "length s = n" using assms s by (simp_all add: imports_done_def in_progress_def)
  have linked: "list_all (import_linked n) (pr_imports (s ! i))"
    using s i n by (auto simp: imports_done_def list_all_length [of "imports_linked s"] imports_linked_alt)
  show "imports_done n (addPublicImports i s)"
    unfolding addPublicImports_def
    by (rule foldl_keeps [where P = "imports_done n"]) (use s linked addPublic_done in \<open>auto simp: list_all_iff\<close>)
qed (rule assms)

subsection \<open>Extensions\<close>

lemma addExtended_fresh: "fresh_message src \<Longrightarrow> fresh_message m \<Longrightarrow> fresh_message (addExtended src m)"
  by (auto simp: fresh_message_def addExtended_def list_all_iff fresh_def_def Let_def CopyField_def)

lemma walk_someD: "walkScopes g s = Some y \<Longrightarrow> \<exists>t. g t = Some y"
proof (induction g s rule: walkScopes.induct)
  case (1 g s)
  then show ?case by (subst (asm) walkScopes.simps) (auto split: option.splits if_splits)
qed

lemma resolveExtension_fresh:
  assumes "imports_linked parsed f" and "list_all fresh_file parsed" and "fresh_file f" and "fresh_message m"
  shows "fresh_message (fst (resolveExtension parsed f m))"
proof -
  have own: "fresh_message (pr_messages f ! k)" if "resolveLocalExtendSource f m = Some k" for k
    using that assms(3) by (auto simp: resolveLocalExtendSource_def fresh_file_def list_all_length dest!: walk_someD findIndex_Some)
  have other: "fresh_message (pr_messages (parsed ! t) ! k)" if tk: "resolveImportedExtendSource parsed f m = Some (t, k)" for t k
  proof -
    from first_some_SomeD [OF tk [unfolded resolveImportedExtendSource_def Let_def]] obtain imp where
      imp: "imp \<in> set (pr_imports f)" "im_target imp = Some t"
      and k: "k < length (pr_messages (parsed ! t))"
      by (auto split: option.splits dest!: walk_someD findIndex_Some)
    then have "t < length parsed" using imports_linkedD [OF assms(1)] by fastforce
    then show ?thesis using k assms(2) by (simp add: list_all_length fresh_file_def)
  qed
  show ?thesis
    using assms(4) own other addExtended_fresh
    by (auto simp: resolveExtension_def Let_def split: option.split)
qed

lemma resolveExtensions_fresh:
  assumes "imports_linked parsed f" and "list_all fresh_file parsed" and "fresh_file f"
  shows "fresh_file (fst (resolveExtensions parsed f))" and "pr_imports (fst (resolveExtensions parsed f)) = pr_imports f"
proof -
  have "list_all fresh_message (map fst (map (resolveExtension parsed f) (pr_messages f)))"
    using resolveExtension_fresh [OF assms] assms(3) by (auto simp: fresh_file_def list_all_iff)
  then show "fresh_file (fst (resolveExtensions parsed f))"
    by (auto simp: resolveExtensions_def Let_def fresh_file_def list_all_iff)
  show "pr_imports (fst (resolveExtensions parsed f)) = pr_imports f" by (simp add: resolveExtensions_def Let_def)
qed

lemma update_done:
  assumes "imports_done n parsed" and "fresh_file f" and "pr_imports f = pr_imports (parsed ! m)" and "m < n"
  shows "imports_done n (parsed[m := f])"
  using assms by (auto simp: imports_done_def in_progress_def list_all_length imports_linked_alt nth_list_update)

lemma resolveExtensions_pass:
  assumes "imports_done n parsed" and "snd (passFiles resolveExtensions [0..<n] parsed) = []"
  shows "imports_done n (fst (passFiles resolveExtensions [0..<n] parsed))"
proof (rule passFiles_upto [where P = "\<lambda>m. imports_done n"])
  fix m parsed f
  assume m: "m < n" and P: "imports_done n parsed" and f: "resolveExtensions parsed (parsed ! m) = (f, [])"
  have "imports_linked parsed (parsed ! m)" "fresh_file (parsed ! m)" "list_all fresh_file parsed"
    using m P by (auto simp: imports_done_def in_progress_def list_all_length)
  from resolveExtensions_fresh [OF this(1,3,2)] show "imports_done n (parsed[m := f])"
    using update_done [OF P _ _ m, of f] f by simp
qed (use assms in auto)

subsection \<open>References\<close>

lemma lookupName_ok: "lookupName f n = Some r \<Longrightarrow> ref_ok f r"
  by (auto simp: lookupName_def dest: findIndex_Some split: option.splits)

lemma resolveField_linked:
  assumes "imports_linked parsed f" and "fresh_def fd" and "resolveField parsed f m fd = (fd', [])"
  shows "linked_field parsed f fd'"
proof (cases "fd_scalar fd = []")
  case False
  with assms show ?thesis by (auto simp: resolveField_def linked_field_def fresh_def_def)
next
  case True
  show ?thesis
  proof (cases "findLocalReference f (md_name m) fd")
    case (Some r)
    from first_some_SomeD [OF Some [unfolded findLocalReference_def]] have "ref_ok f r"
      by (auto dest!: walk_someD lookupName_ok)
    with True Some assms(2,3) show ?thesis
      by (cases r) (auto simp: resolveField_def resolveLocalReference_def linked_field_def fresh_def_def)
  next
    case None
    with True assms(3) obtain t r where tr: "findImportedReference parsed f fd = Some (t, r)"
      by (cases "findImportedReference parsed f fd") (auto simp: resolveField_def resolveLocalReference_def resolveImportedReference_def)
    from first_some_SomeD [OF tr [unfolded findImportedReference_def]] obtain n where
      found: "first_some (\<lambda>imp. case im_target imp of None \<Rightarrow> None
        | Some t \<Rightarrow> map_option (\<lambda>r. (t, r)) (walkScopes (\<lambda>searchPath. lookupName (parsed ! t) (ToScope n searchPath))
            (packageScope (parsed ! t)))) (pr_imports f) = Some (t, r)"
      by blast
    from first_some_SomeD [OF found] obtain imp where imp: "imp \<in> set (pr_imports f)" "im_target imp = Some t"
      and r: "ref_ok (parsed ! t) r"
      by (auto split: option.splits dest!: walk_someD lookupName_ok)
    have "t \<in> set (import_targets f)" using imp by (auto simp: import_targets_def map_filter_def intro!: rev_image_eqI)
    with True None tr r assms(2,3) show ?thesis
      by (cases r) (auto simp: resolveField_def resolveLocalReference_def resolveImportedReference_def linked_field_def fresh_def_def)
  qed
qed

text \<open>Linking depends only on the imports and the number of definitions of the files.\<close>

definition same_shape :: "ProtoFile \<Rightarrow> ProtoFile \<Rightarrow> bool" where
  "same_shape f f' \<longleftrightarrow> pr_imports f' = pr_imports f \<and> length (pr_enums f') = length (pr_enums f)
     \<and> length (pr_messages f') = length (pr_messages f)"

lemma ref_in_shape: "same_shape f f' \<Longrightarrow> ref_in f' e m = ref_in f e m"
  by (cases e; cases m) (auto simp: same_shape_def)

lemma linked_field_shape:
  assumes "same_shape f f'" and "\<And>t. same_shape (parsed ! t) (parsed' ! t)"
  shows "linked_field parsed' f' fd = linked_field parsed f fd"
proof -
  have "import_targets f' = import_targets f" using assms(1) by (simp add: import_targets_def same_shape_def)
  then show ?thesis by (simp add: linked_field_def ref_in_shape [OF assms(1)] ref_in_shape [OF assms(2)] split: option.split)
qed

lemma same_shape_refl [simp]: "same_shape f f" by (simp add: same_shape_def)

lemma same_shape_update: "same_shape (parsed ! m) f \<Longrightarrow> same_shape (parsed ! t) (parsed[m := f] ! t)"
  by (cases "m < length parsed") (auto simp: nth_list_update list_update_beyond)

definition linked_messages :: "ProtoFile list \<Rightarrow> ProtoFile \<Rightarrow> bool" where
  "linked_messages parsed f \<longleftrightarrow> list_all (\<lambda>m. list_all (linked_field parsed f) (md_fields m)) (pr_messages f)"

lemma linked_messages_update:
  assumes "same_shape (parsed ! m) f"
  shows "linked_messages (parsed[m := f]) g = linked_messages parsed g"
proof -
  have "linked_field (parsed[m := f]) g = linked_field parsed g"
    by (rule ext) (rule linked_field_shape [OF same_shape_refl same_shape_update [OF assms]])
  then show ?thesis by (simp add: linked_messages_def)
qed

lemma resolveReferences_linked:
  assumes "imports_linked parsed f" and "fresh_file f" and "resolveReferences parsed f = (f', [])"
  shows "same_shape f f'" and "linked_messages parsed f'"
proof -
  have f': "f' = f\<lparr>pr_messages := map (fst \<circ> resolveMessage parsed f) (pr_messages f)\<rparr>"
    and errors: "\<And>m. m \<in> set (pr_messages f) \<Longrightarrow> snd (resolveMessage parsed f m) = []"
    using assms(3) by (auto simp: resolveReferences_def Let_def)
  show shape: "same_shape f f'" by (simp add: f' same_shape_def)
  have "linked_field parsed f' (fst (resolveField parsed f m fd))" if "m \<in> set (pr_messages f)" "fd \<in> set (md_fields m)" for m fd
  proof -
    have "snd (resolveField parsed f m fd) = []" using errors [OF that(1)] that(2) by (auto simp: resolveMessage_def Let_def)
    then have "resolveField parsed f m fd = (fst (resolveField parsed f m fd), [])" by (metis prod.collapse)
    moreover have "fresh_def fd" using that assms(2) by (auto simp: fresh_file_def fresh_message_def list_all_iff)
    ultimately have "linked_field parsed f (fst (resolveField parsed f m fd))" using resolveField_linked [OF assms(1)] by blast
    then show ?thesis using linked_field_shape [OF shape, of parsed parsed] by simp
  qed
  then show "linked_messages parsed f'"
    by (auto simp: linked_messages_def f' list_all_iff resolveMessage_def Let_def)
qed

lemma resolveReferences_pass:
  assumes "imports_done n parsed" and "snd (passFiles resolveReferences [0..<n] parsed) = []"
  shows "linked (fst (passFiles resolveReferences [0..<n] parsed)) \<and> length (fst (passFiles resolveReferences [0..<n] parsed)) = n"
proof -
  let ?P = "\<lambda>m parsed. length parsed = n \<and> list_all (imports_linked parsed) parsed
    \<and> (\<forall>i < m. linked_messages parsed (parsed ! i)) \<and> (\<forall>i < n. m \<le> i \<longrightarrow> fresh_file (parsed ! i))"
  have "?P n (fst (passFiles resolveReferences [0..<n] parsed))"
  proof (rule passFiles_upto [where P = ?P])
    fix m parsed f
    assume m: "m < n" and P: "?P m parsed" and f: "resolveReferences parsed (parsed ! m) = (f, [])"
    have at: "imports_linked parsed (parsed ! m)" "fresh_file (parsed ! m)" using m P by (auto simp: list_all_length)
    note r = resolveReferences_linked [OF at f]
    have "imports_linked (parsed[m := f]) (parsed[m := f] ! i)" if "i < n" for i
    proof (cases "i = m")
      case True
      then show ?thesis using that P r(1) at(1) by (simp add: imports_linked_alt same_shape_def)
    next
      case False
      have "imports_linked parsed (parsed ! i)" using that P by (simp add: list_all_length)
      then show ?thesis using False P by (simp add: imports_linked_alt)
    qed
    moreover have "linked_messages (parsed[m := f]) (parsed[m := f] ! i)" if "i < Suc m" for i
      using that P r(2) m by (auto simp: linked_messages_update [OF r(1)] nth_list_update less_Suc_eq)
    moreover have "fresh_file (parsed[m := f] ! i)" if "i < n" "Suc m \<le> i" for i using that P by simp
    ultimately show "?P (Suc m) (parsed[m := f])" using P by (simp add: list_all_length)
  qed (use assms in \<open>auto simp: imports_done_def in_progress_def list_all_length\<close>)
  then show ?thesis by (auto simp: linked_def linked_file_def linked_messages_def list_all_length)
qed

subsection \<open>Options\<close>

lemma resolveEnums_length: "resolveEnums opts es = Inr es' \<Longrightarrow> length es' = length es"
  by (induction es arbitrary: es') (auto simp: andThen_eq_Inr)

lemma linked_shape:
  assumes "linked parsed" and "length parsed' = length parsed"
    and "\<And>i. i < length parsed \<Longrightarrow> same_shape (parsed ! i) (parsed' ! i) \<and> pr_messages (parsed' ! i) = pr_messages (parsed ! i)"
  shows "linked parsed'"
proof -
  have "linked_field parsed' (parsed' ! i) fd" if i: "i < length parsed" and fd: "linked_field parsed (parsed ! i) fd" for i fd
  proof -
    have links: "imports_linked parsed (parsed ! i)" using assms(1) i by (simp add: linked_def linked_file_def list_all_length)
    have targets: "import_targets (parsed' ! i) = import_targets (parsed ! i)"
      using assms(3) [OF i] by (simp add: import_targets_def same_shape_def)
    have "ref_in (parsed' ! t) e m = ref_in (parsed ! t) e m" if "t < length parsed" for t e m
      using ref_in_shape assms(3) [OF that] by blast
    with fd i targets import_targets_less [OF links] show ?thesis
      by (auto simp: linked_field_def split: option.splits)
  qed
  moreover have "imports_linked parsed' (parsed' ! i)" if "i < length parsed" for i
  proof -
    have "imports_linked parsed (parsed ! i)" using assms(1) that by (simp add: linked_def linked_file_def list_all_length)
    then show ?thesis using assms(2) assms(3) [OF that] by (simp add: imports_linked_alt same_shape_def)
  qed
  ultimately show ?thesis using assms by (simp add: linked_def linked_file_def list_all_length)
qed

lemma optionPass_linked:
  "linked parsed \<Longrightarrow> optionPass is parsed = Inr parsed' \<Longrightarrow> linked parsed' \<and> length parsed' = length parsed"
proof (induction "is" arbitrary: parsed)
  case (Cons i "is")
  obtain f where f: "resolveOptions (parsed ! i) = Inr f" "optionPass is (parsed[i := f]) = Inr parsed'"
    using Cons.prems(2) by (auto simp: andThen_eq_Inr)
  have "same_shape (parsed ! i) f \<and> pr_messages f = pr_messages (parsed ! i)"
    using f(1) resolveEnums_length by (auto simp: resolveOptions_def andThen_eq_Inr same_shape_def)
  then have "linked (parsed[i := f])"
    by (intro linked_shape [OF Cons.prems(1)]) (auto simp: nth_update_if)
  from Cons.IH [OF this f(2)] show ?case by simp
qed simp

subsection \<open>The front end\<close>

lemma resolveBaseFolders_progress:
  "resolveBaseFolders parsed = Inr parsed' \<Longrightarrow> list_all fresh_file parsed \<Longrightarrow> in_progress (length parsed) parsed'"
proof -
  assume r: "resolveBaseFolders parsed = Inr parsed'" and fresh: "list_all fresh_file parsed"
  then obtain as where "parsed' = set_bases as parsed"
    by (auto simp: resolveBaseFolders_def Let_def split: if_splits)
  moreover have "length (set_bases as fs) = length fs \<and> (list_all fresh_file fs \<longrightarrow> list_all fresh_file (set_bases as fs))" for as fs
  proof -
    have base: "fresh_file (f\<lparr>pr_base := b\<rparr>) = fresh_file f" for f :: ProtoFile and b by (simp add: fresh_file_def)
    show ?thesis
      unfolding set_bases_def
      by (rule foldl_keeps [where P = "\<lambda>gs. length gs = length fs \<and> (list_all fresh_file fs \<longrightarrow> list_all fresh_file gs)"])
        (auto simp: base list_all_length [of fresh_file] nth_update_if)
  qed
  ultimately show ?thesis using fresh by (simp add: in_progress_def)
qed

lemma front_end_links:
  assumes "list_all fresh_file parsed" and "ResolveImportsAndReferences parsed = Inr (parsed', [])"
  shows "linked parsed' \<and> length parsed' = length parsed"
proof -
  let ?n = "length parsed"
  obtain p0 where p0: "resolveBaseFolders parsed = Inr p0"
    using assms(2) by (cases "resolveBaseFolders parsed") (auto simp: ResolveImportsAndReferences_def)
  have n: "in_progress ?n p0" by (rule resolveBaseFolders_progress [OF p0 assms(1)])
  define p1 where "p1 = fst (passFiles resolveImports [0..<?n] p0)"
  define p2 where "p2 = addAllPublicImports p1"
  define p3 where "p3 = fst (passFiles resolveExtensions [0..<?n] p2)"
  define p4 where "p4 = fst (passFiles resolveReferences [0..<?n] p3)"
  have "length p0 = ?n" using n by (simp add: in_progress_def)
  then have e: "snd (passFiles resolveImports [0..<?n] p0) = []" "snd (passFiles resolveExtensions [0..<?n] p2) = []"
    "snd (passFiles resolveReferences [0..<?n] p3) = []" and opt: "optionPass [0..<?n] p4 = Inr parsed'"
    using assms(2) p0 unfolding ResolveImportsAndReferences_def Let_def p1_def p2_def p3_def p4_def
    by (auto simp: case_prod_unfold split: sum.splits)
  have "imports_done ?n p1" unfolding p1_def by (rule resolveImports_pass [OF n e(1)])
  then have "imports_done ?n p2" unfolding p2_def by (rule addAllPublicImports_done)
  then have "imports_done ?n p3" unfolding p3_def by (rule resolveExtensions_pass) (rule e(2))
  then have "linked p4 \<and> length p4 = ?n" unfolding p4_def by (rule resolveReferences_pass) (rule e(3))
  then show ?thesis using optionPass_linked [OF _ opt] by simp
qed

subsection \<open>From the parser to the mapper\<close>

text \<open>The key types the language allows; the parser of the generator drops others.\<close>

fun keys_scalar :: "ProtoElement \<Rightarrow> bool" where
  "keys_scalar (MapElement f keyType) = isScalar keyType"
| "keys_scalar (OneofElement g es) = list_all keys_scalar es"
| "keys_scalar _ = True"

fun node_keys_scalar :: "Visitee \<Rightarrow> bool" where
  "node_keys_scalar (MessageNode m) = list_all keys_scalar (pm_elements m)"
| "node_keys_scalar _ = True"

lemma parseStructElement_fresh:
  "keys_scalar e \<Longrightarrow> list_all fresh_def (parseStructElement n e)"
  "list_all keys_scalar es \<Longrightarrow> list_all fresh_def (extractOneOf n g es)"
proof (induction n e and n g es rule: parseStructElement_extractOneOf.induct)
  case (8 n grp e es)
  have "fresh_def (f\<lparr>fd_oneof := grp\<rparr>) = fresh_def f" for f by (simp add: fresh_def_def)
  with 8 show ?case by (auto simp: list_all_iff)
qed (auto simp: with_scalar_def extractField_def extractMap_def extractBasicField_def fresh_def_def blank_field_def)

lemma extractElements_fresh: "list_all keys_scalar es \<Longrightarrow> list_all fresh_def (fst (extractElements pFile n es))"
proof (induction es)
  case (Cons e es)
  obtain fs errs where r: "extractElements pFile n es = (fs, errs)" by force
  with Cons parseStructElement_fresh(1) [of e n] show ?case by (cases e) simp_all
qed simp

lemma walkHandler_fresh:
  "node_keys_scalar v \<Longrightarrow> fresh_file (fst s) \<Longrightarrow> fresh_file (fst (walkHandler v s))"
proof (cases v)
  case (MessageNode m)
  assume "node_keys_scalar v" "fresh_file (fst s)"
  then show ?thesis
    using MessageNode extractElements_fresh [of "pm_elements m" "fst s"]
    by (cases s) (simp add: walkHandler_def extractMessage_def fresh_file_def fresh_message_def case_prod_unfold Let_def)
qed (auto simp: walkHandler_def fresh_file_def Let_def split: prod.splits)

lemma extractProtoStruct_fresh:
  "list_all node_keys_scalar vs \<Longrightarrow> fresh_file f \<Longrightarrow> fresh_file (fst (extractProtoStruct f vs))"
proof -
  have "list_all node_keys_scalar vs \<Longrightarrow> fresh_file (fst s) \<Longrightarrow> fresh_file (fst (fold walkHandler vs s))" for s
    by (induction vs arbitrary: s) (simp_all add: walkHandler_fresh)
  then show "list_all node_keys_scalar vs \<Longrightarrow> fresh_file f \<Longrightarrow> fresh_file (fst (extractProtoStruct f vs))"
    by (simp add: extractProtoStruct_def)
qed

text \<open>The files of a run: where they are and what the walk over them meets.\<close>

definition parsed_sources :: "(string list \<times> string list \<times> Visitee list) list \<Rightarrow> ProtoFile list" where
  "parsed_sources sources = fst (ParseStruct (map (\<lambda>(p, rel, vs). (new_file p rel, vs)) sources))"

lemma parsed_sources_fresh:
  assumes "list_all (\<lambda>(p, rel, vs). list_all node_keys_scalar vs) sources"
  shows "list_all fresh_file (parsed_sources sources)"
proof -
  have "fresh_file (new_file p rel)" for p rel by (simp add: fresh_file_def new_file_def)
  then show ?thesis using assms extractProtoStruct_fresh
    by (auto simp: parsed_sources_def ParseStruct_def Let_def list_all_iff)
qed

text \<open>The Go files of a run, in the order of the proto files, with all fields mapped.\<close>

definition files_mapped :: "string \<Rightarrow> string \<Rightarrow> ProtoFile list \<Rightarrow> GoGeneratedFile list \<Rightarrow> bool" where
  "files_mapped root modulePath parsed goFiles \<longleftrightarrow> length goFiles = length parsed
     \<and> (\<forall>k < length parsed. mapped (package_paths root modulePath parsed) (output_paths root parsed) parsed k (goFiles ! k))"

lemma generator_maps_result:
  assumes "list_all (\<lambda>(p, rel, vs). list_all node_keys_scalar vs) sources"
    and "ResolveImportsAndReferences (parsed_sources sources) = Inr (parsed, [])"
  shows "\<exists>goFiles. MapProtoFiles root modulePath parsed = Inr (goFiles, []) \<and> files_mapped root modulePath parsed goFiles"
proof -
  have "linked parsed" using front_end_links [OF parsed_sources_fresh [OF assms(1)] assms(2)] by blast
  from MapProtoFiles_result [OF this, of root modulePath] show ?thesis by (simp add: files_mapped_def)
qed

text \<open>Two files: a message with fields of all kinds, and one that refers to an imported enum.\<close>

definition demo_sources :: "(string list \<times> string list \<times> Visitee list) list" where
  "demo_sources =
     [([''p'', ''x.proto''], [''x.proto''],
       [PackageNode ''k'',
        EnumNode \<lparr>pe_name = ''E'', pe_parents = [], pe_elements = [Some \<lparr>pv_name = ''A'', pv_integer = 0, pv_options = []\<rparr>]\<rparr>,
        MessageNode \<lparr>pm_name = ''M'', pm_is_extend = False, pm_parents = [],
          pm_elements = [NormalElement \<lparr>pf_name = ''n'', pf_type = ''int32'', pf_sequence = 1, pf_options = []\<rparr> True False,
            MapElement \<lparr>pf_name = ''m'', pf_type = ''M'', pf_sequence = 2, pf_options = []\<rparr> ''string'']\<rparr>]),
      ([''p'', ''y.proto''], [''y.proto''],
       [ImportNode ''x.proto'' [],
        MessageNode \<lparr>pm_name = ''N'', pm_is_extend = False, pm_parents = [],
          pm_elements = [NormalElement \<lparr>pf_name = ''e'', pf_type = ''k.E'', pf_sequence = 3, pf_options = []\<rparr> False False]\<rparr>])]"

text \<open>C6: when the front end accepts files, and the keys of maps have the key types the language
  allows, the mapper does not panic and reports no error: every file gets its enums and structs
  in order, every field of every message a type, with packed encoding exactly for the element types
  that can be packed, and the type names the enum or message the field refers to, unqualified in the same
  package and else with the alias of an import of its package that is emitted.\<close>

theorem generator_maps_files:
  assumes "list_all (\<lambda>(p, rel, vs). list_all node_keys_scalar vs) sources"
    and "ResolveImportsAndReferences (parsed_sources sources) = Inr (parsed, [])"
  shows "\<exists>goFiles. MapProtoFiles root modulePath parsed = Inr (goFiles, [])
    \<and> files_mapped root modulePath parsed goFiles"
  using assms by (rule generator_maps_result)

definition demo_parsed :: "ProtoFile list" where
  "demo_parsed = (case ResolveImportsAndReferences (parsed_sources demo_sources) of Inr (parsed, errors) \<Rightarrow> parsed | Inl _ \<Rightarrow> [])"

lemma demo_accepted: "ResolveImportsAndReferences (parsed_sources demo_sources) = Inr (demo_parsed, [])"
proof -
  have "case ResolveImportsAndReferences (parsed_sources demo_sources) of Inr (parsed, errors) \<Rightarrow> length errors = 0 | Inl _ \<Rightarrow> False" by code_simp
  then show ?thesis by (auto simp: demo_parsed_def split: sum.splits)
qed

lemma demo_keys: "list_all (\<lambda>(p, rel, vs). list_all node_keys_scalar vs) demo_sources"
  by code_simp

lemma generator_maps_files_witness:
  "\<exists>goFiles. MapProtoFiles ''out'' ''mod'' demo_parsed = Inr (goFiles, [])
    \<and> files_mapped ''out'' ''mod'' demo_parsed goFiles"
  by (rule generator_maps_files [OF demo_keys demo_accepted])

end
