(* ===== verification/Go_Text.thy ===== *)
theory Go_Text
  imports Go_Templates Go_Linking
begin

section \<open>The emitted text\<close>

text \<open>
  For the files the mapper makes, no template panics, and the brackets of the emitted code are
  balanced, as far as they are in the names and default values it is given.
\<close>

subsection \<open>No template panics\<close>

lemma fieldEntryWriter_total: "go_type_ok t \<Longrightarrow> \<exists>code. fieldEntryWriter t indent buf tag v = Inr code"
proof (cases t)
  case (goRepeatedPackedValueType v r)
  moreover assume "go_type_ok t"
  ultimately show ?thesis by (cases v) auto
qed auto

lemma foldE_text:
  "(\<And>x. x \<in> set xs \<Longrightarrow> \<exists>code. f x = Inr code) \<Longrightarrow>
    foldE (\<lambda>x sb. andThen (f x) (\<lambda>code. Inr (sb @ code))) xs acc = Inr (acc @ concat (map (\<lambda>x. projr (f x)) xs))"
  by (induction xs arbitrary: acc) fastforce+

lemma foldE_total:
  "(\<And>x. x \<in> set xs \<Longrightarrow> \<exists>code. f x = Inr code) \<Longrightarrow> \<exists>code. foldE (\<lambda>x sb. andThen (f x) (\<lambda>code. Inr (sb @ code))) xs acc = Inr code"
  using foldE_text by blast

lemma andThen_total: "\<exists>x. m = Inr x \<Longrightarrow> \<exists>y. andThen m (\<lambda>x. Inr (k x)) = Inr y"
  by auto

definition struct_typed :: "GoStructType \<Rightarrow> bool" where
  "struct_typed g \<longleftrightarrow> list_all (\<lambda>f. go_type_ok (gf_type f)) (structFields g)"

lemma writeMarshal_total: "struct_typed g \<Longrightarrow> \<exists>code. writeMarshal g = Inr code"
proof -
  assume g: "struct_typed g"
  have "\<exists>code. writeFieldMarshal (StructName g) f = Inr code" if "f \<in> set (structFields g)" for f
  proof -
    have "go_type_ok (gf_type f)" using g that by (simp add: struct_typed_def list_all_iff)
    from fieldEntryWriter_total [OF this] obtain code where
      "fieldEntryWriter (gf_type f) (tabs 2) ''res'' (wireTypeConstName (StructName g) f) (''s.'' @ gf_name f) = Inr code" by blast
    then show ?thesis by (simp add: writeFieldMarshal_def)
  qed
  from foldE_total [OF this] show ?thesis unfolding writeMarshal_def by (rule andThen_total)
qed

lemma GenerateStruct_total: "struct_typed g \<Longrightarrow> \<exists>code. GenerateStruct g = Inr code"
  using writeMarshal_total [of g] by (auto simp: GenerateStruct_def)

lemma structs_withRuntime [simp]: "structs (withRuntime g) = structs g" "enums (withRuntime g) = enums g"
  by (simp_all add: withRuntime_def AddImport_def)

lemma GenerateCode_total: "list_all struct_typed (structs g) \<Longrightarrow> \<exists>code. GenerateCode p g = Inr code"
proof -
  assume "list_all struct_typed (structs g)"
  then have "\<exists>code. GenerateStruct t = Inr code" if "t \<in> set (structs (withRuntime g))" for t
    using that GenerateStruct_total by (auto simp: list_all_iff)
  from foldE_total [OF this] show ?thesis unfolding GenerateCode_def Let_def .
qed

lemma mapped_typed: "mapped pk op parsed k g \<Longrightarrow> list_all struct_typed (structs g)"
  by (auto simp: mapped_def mapping_def typed_fields_def struct_typed_def type_right_def list_all_iff)

subsection \<open>Brackets\<close>

text \<open>Reading a text with a stack of the brackets that are open.\<close>

definition closed :: "char \<Rightarrow> string \<Rightarrow> string option" where
  "closed c st = (case st of [] \<Rightarrow> None | x # st \<Rightarrow> if x = c then Some st else None)"

fun nest :: "string \<Rightarrow> string \<Rightarrow> string option" where
  "nest st [] = Some st"
| "nest st (c # cs) =
     (if c = CHR ''('' \<or> c = CHR ''['' \<or> c = CHR ''{'' then nest (c # st) cs
      else if c = CHR '')'' then Option.bind (closed (CHR ''('') st) (\<lambda>st. nest st cs)
      else if c = CHR '']'' then Option.bind (closed (CHR ''['') st) (\<lambda>st. nest st cs)
      else if c = CHR ''}'' then Option.bind (closed (CHR ''{'') st) (\<lambda>st. nest st cs)
      else nest st cs)"

definition balanced :: "string \<Rightarrow> bool" where
  "balanced s \<longleftrightarrow> nest [] s = Some []"

lemma closed_simps [simp]: "closed c (x # st) = (if x = c then Some st else None)"
  by (simp add: closed_def)

lemma nest_append: "nest st (s @ t) = Option.bind (nest st s) (\<lambda>st. nest st t)"
  by (induction st s rule: nest.induct) (simp_all split: bind_split)

text \<open>What is open around a text does not change how it is read.\<close>

lemma closed_frame: "closed c st = Some u \<Longrightarrow> closed c (st @ r) = Some (u @ r)"
  by (cases st) (simp_all add: closed_def split: if_splits)

lemma nest_frame: "nest st s = Some u \<Longrightarrow> nest (st @ r) s = Some (u @ r)"
proof (induction s arbitrary: st)
  case (Cons c s)
  consider "c = CHR ''('' \<or> c = CHR ''['' \<or> c = CHR ''{''" | "c = CHR '')''" | "c = CHR '']''" | "c = CHR ''}''"
    | "c \<notin> set ''()[]{}''" by fastforce
  then show ?case
  proof cases
    case 1
    then have "nest (c # st) s = Some u" using Cons.prems by (simp only: nest.simps if_True)
    from Cons.IH [OF this] 1 show ?thesis by (simp only: nest.simps if_True append_Cons)
  qed (use Cons in \<open>auto simp: bind_eq_Some_conv dest: closed_frame\<close>)
qed simp

lemma balanced_nest: "balanced s \<longleftrightarrow> (\<forall>st. nest st s = Some st)"
  using nest_frame [of "[]" s "[]"] by (auto simp: balanced_def)

lemma balancedI: "(\<And>st. nest st s = Some st) \<Longrightarrow> balanced s"
  by (simp add: balanced_nest)

lemma balanced_Cons [simp]: "c \<notin> set ''()[]{}'' \<Longrightarrow> balanced (c # s) = balanced s"
  by (simp add: balanced_nest)

lemma nest_balanced [simp]: "balanced s \<Longrightarrow> nest st s = Some st" "balanced s \<Longrightarrow> nest st (s @ t) = nest st t"
  by (simp_all add: balanced_nest nest_append)

lemma balanced_simps [simp]:
  "balanced []" "balanced s \<Longrightarrow> balanced t \<Longrightarrow> balanced (s @ t)" "balanced nl" "balanced tab" "balanced dquote" "balanced (tabs n)"
proof -
  have tab: "balanced tab" by (simp add: balanced_def tab_def)
  have "balanced (concat (replicate n tab))" by (induction n) (use tab in \<open>simp_all add: balanced_nest nest_append\<close>)
  then show "balanced (tabs n)" by (simp add: tabs_def)
qed (simp_all add: balanced_nest nl_def tab_def dquote_def)

lemma balanced_concat: "list_all balanced ss \<Longrightarrow> balanced (concat ss)"
  by (induction ss) simp_all

lemma nest_lines: "nest st (lines (l # ls)) = Option.bind (nest st l) (\<lambda>st. nest st (lines ls))"
  by (cases ls) (simp_all add: lines_def nest_append)

lemma nest_AddTabs: "nest st (AddTabs s (tabs n)) = nest st s"
proof -
  have "nest st (join nl (map ((@) (tabs n)) ls)) = nest st (join nl ls)" for ls st
    by (induction nl ls arbitrary: st rule: join.induct) (simp_all add: nest_append)
  then show ?thesis by (simp add: AddTabs_lines join_split_on [of "CHR 0x0A", folded nl_def])
qed

lemma nest_dec [simp]: "balanced (dec n)"
proof (induction n rule: dec.induct)
  case (1 n)
  have "balanced [digit k]" if "k < 10" for k
  proof -
    have "of_char (digit k) = 48 + k" using that by (simp add: digit_def)
    then have "digit k \<noteq> x" if "of_char x < (48::nat) \<or> 58 \<le> (of_char x :: nat)" for x
      using that \<open>k < 10\<close> by auto
    then show ?thesis by (simp add: balanced_nest)
  qed
  with 1 show ?case by (subst dec.simps) simp
qed

lemma nest_decInt [simp]: "balanced (decInt n)"
  by (rule balancedI) (simp add: decInt_def)

subsection \<open>Values\<close>

lemma balanced_tables [simp]: "balanced (bufBasicTypesReaders p)" "balanced (bufBasicTypesWriters p)" "balanced (bufBasicTypesSizers p)"
  by (auto simp: bufBasicTypesReaders_def bufBasicTypesWriters_def bufBasicTypesSizers_def balanced_nest
      split: option.splits dest!: map_of_SomeD)

fun value_balanced :: "goValueType \<Rightarrow> bool" where
  "value_balanced (goBasicValueType n p d r) \<longleftrightarrow> balanced n \<and> balanced d"
| "value_balanced (goEnumValueType n d r) \<longleftrightarrow> balanced n \<and> balanced d"
| "value_balanced (goStructValueType pk n r) \<longleftrightarrow> balanced pk \<and> balanced n"

lemma balanced_AddTabs: "balanced s \<Longrightarrow> balanced (AddTabs s (tabs n))"
  by (simp add: balanced_def nest_AddTabs)

lemma lines_Nil: "lines [] = []"
  by (simp add: lines_def)

lemmas text_simps = nest_lines nest_AddTabs lines_Nil

lemma valueReaderTypeName_balanced [simp]:
  "value_balanced t \<Longrightarrow> balanced (valueReaderTypeName t)"
  by (cases t; rule balancedI; simp add: text_simps)

lemma valueWriterTypeName_balanced [simp]:
  "value_balanced t \<Longrightarrow> balanced (valueWriterTypeName t)"
  by (cases t; rule balancedI; simp add: text_simps)

lemma valueDefaultReturn_balanced [simp]:
  "value_balanced t \<Longrightarrow> balanced (valueDefaultReturn t)"
  by (cases t; rule balancedI; simp add: text_simps)

lemma valueEntryReader_balanced [simp]:
  "value_balanced t \<Longrightarrow> balanced v \<Longrightarrow> balanced (valueEntryReader t (tabs k) v)"
  by (cases t; rule balancedI; simp add: text_simps)

lemma valueEntrySizedReader_balanced [simp]:
  "value_balanced t \<Longrightarrow> balanced v \<Longrightarrow> balanced (valueEntrySizedReader t (tabs k) v)"
  by (cases t; rule balancedI; simp add: text_simps)

lemma valueIsNotEmpty_balanced [simp]:
  "value_balanced t \<Longrightarrow> balanced v \<Longrightarrow> balanced (valueIsNotEmpty t v)"
  by (cases t; rule balancedI; simp add: text_simps)

lemma valueEntryWriter_balanced [simp]:
  "value_balanced t \<Longrightarrow> balanced v \<Longrightarrow> balanced buf \<Longrightarrow> balanced tag \<Longrightarrow> balanced (valueEntryWriter t (tabs k) buf tag v)"
  by (cases t; rule balancedI; simp add: text_simps)

lemma valueSizeWithTag_balanced [simp]:
  "value_balanced t \<Longrightarrow> balanced v \<Longrightarrow> balanced sz \<Longrightarrow> balanced tag \<Longrightarrow> balanced (valueSizeWithTag t (tabs k) sz v tag)"
  by (cases t; rule balancedI; simp add: text_simps)

lemma valueSizeWithoutTag_balanced [simp]:
  "value_balanced t \<Longrightarrow> balanced v \<Longrightarrow> balanced sz \<Longrightarrow> balanced (valueSizeWithoutTag t (tabs k) sz v)"
  by (cases t; rule balancedI; simp add: text_simps)

lemma valueToStruct_balanced [simp]:
  "value_balanced t \<Longrightarrow> balanced v \<Longrightarrow> balanced target \<Longrightarrow> balanced (valueToStruct t (tabs k) target v)"
  by (cases t; rule balancedI; simp add: text_simps)

lemma valueEntryCopy_balanced [simp]:
  "value_balanced t \<Longrightarrow> balanced v \<Longrightarrow> balanced target \<Longrightarrow> balanced (valueEntryCopy t (tabs k) target v)"
  by (cases t; rule balancedI; simp add: text_simps)

lemma valuePackedEntryWriter_balanced:
  assumes "valuePackedEntryWriter t (tabs k) buf v = Inr code" "value_balanced t" "balanced v" "balanced buf"
  shows "balanced code"
proof (cases t)
  case (goBasicValueType n p d r)
  have "code = AddTabs (buf @ ''.'' @ bufBasicTypesWriters p @ ''WithoutTag('' @ v @ '')'') (tabs k)"
    using assms(1) goBasicValueType by (simp only: valuePackedEntryWriter.simps goBasicValueType_PackedEntryWriter_def sum.inject)
  then show ?thesis by (intro balancedI) (use assms(3,4) in \<open>simp add: text_simps\<close>)
next
  case (goEnumValueType n d r)
  have "code = AddTabs (buf @ ''.AppendInt32WithoutTag(int32('' @ v @ ''))'') (tabs k)"
    using assms(1) goEnumValueType by (simp only: valuePackedEntryWriter.simps goEnumValueType_PackedEntryWriter_def sum.inject)
  then show ?thesis by (intro balancedI) (use assms(3,4) in \<open>simp add: text_simps\<close>)
qed (use assms in simp)

subsection \<open>Fields\<close>

text \<open>The variables of the emitted code.\<close>

lemma names_balanced [simp]:
  "balanced ''[i]''" "balanced ''[k]''" "balanced ''[0]''" "balanced ''v''" "balanced ''k''"
  "balanced ''val''" "balanced ''entry''" "balanced ''listEntry''" "balanced ''keyEntry''" "balanced ''valueEntry''"
  "balanced ''listEntrySize''" "balanced ''entrySize''" "balanced ''keySize''" "balanced ''valueSize''" "balanced ''res''"
  "balanced ''data''" "balanced ''structData''" "balanced ''s.''" "balanced ''res.''" "balanced ''wire''"
  "balanced ''_''"
  by (simp_all add: balanced_nest)

fun type_balanced :: "GoFieldType \<Rightarrow> bool" where
  "type_balanced (goSingle t) \<longleftrightarrow> value_balanced t"
| "type_balanced (goRepeatedValueType t r) \<longleftrightarrow> value_balanced t"
| "type_balanced (goRepeatedPackedValueType t r) \<longleftrightarrow> value_balanced t"
| "type_balanced (goMapValueType k t) \<longleftrightarrow> value_balanced k \<and> value_balanced t"

lemma fieldReaderTypeName_balanced [simp]:
  "type_balanced t \<Longrightarrow> balanced (fieldReaderTypeName t)"
  by (cases t; rule balancedI; simp add: text_simps)

lemma fieldWriterTypeName_balanced [simp]:
  "type_balanced t \<Longrightarrow> balanced (fieldWriterTypeName t)"
  by (cases t; rule balancedI; simp add: text_simps)

lemma fieldDefaultReturn_balanced [simp]:
  "type_balanced t \<Longrightarrow> balanced (fieldDefaultReturn t)"
  by (cases t; rule balancedI; simp add: text_simps)

lemma fieldSaveOffsets_balanced [simp]:
  "balanced fname \<Longrightarrow> balanced (fieldSaveOffsets t (tabs k) fname)"
  by (cases t; rule balancedI; simp add: text_simps)

lemma fieldEntryReader_balanced [simp]:
  "type_balanced t \<Longrightarrow> balanced v \<Longrightarrow> balanced (fieldEntryReader t (tabs k) v)"
  by (cases t; rule balancedI; simp add: text_simps)

lemma fieldIsNotEmpty_balanced [simp]:
  "type_balanced t \<Longrightarrow> balanced v \<Longrightarrow> balanced (fieldIsNotEmpty t v)"
  by (cases t; rule balancedI; simp add: text_simps)

lemma fieldSizeWithTag_balanced [simp]:
  "type_balanced t \<Longrightarrow> balanced v \<Longrightarrow> balanced sz \<Longrightarrow> balanced tag \<Longrightarrow> balanced (fieldSizeWithTag t (tabs k) sz v tag)"
  by (cases t; rule balancedI; simp add: text_simps)

lemma fieldToStruct_balanced [simp]:
  "type_balanced t \<Longrightarrow> balanced v \<Longrightarrow> balanced target \<Longrightarrow> balanced (fieldToStruct t (tabs k) target v)"
  by (cases t; rule balancedI; simp add: text_simps)

lemma fieldEntryCopy_balanced [simp]:
  "type_balanced t \<Longrightarrow> balanced v \<Longrightarrow> balanced target \<Longrightarrow> balanced (fieldEntryCopy t (tabs k) target v)"
  by (cases t; rule balancedI; simp add: text_simps)

lemma OffsetsType_balanced [simp]: "balanced (OffsetsType t)" "balanced (WireTypeType t)"
  by (cases t; simp add: balanced_nest)+

lemma fieldEntryWriter_balanced:
  assumes "fieldEntryWriter t (tabs k) buf tag v = Inr code" "type_balanced t" "balanced buf" "balanced tag" "balanced v"
  shows "balanced code"
proof (cases t)
  case (goSingle t')
  then show ?thesis using assms valueEntryWriter_balanced [of t' v buf tag k] by simp
next
  case (goRepeatedValueType t' r)
  then have "code = AddTabs (lines [''for _, entry := range '' @ v @ '' {'', valueEntryWriter t' (tabs 1) buf tag ''entry'', ''}'']) (tabs k)"
    using assms(1) by (simp only: fieldEntryWriter.simps goRepeatedValueType_EntryWriter_def sum.inject)
  then show ?thesis by (intro balancedI) (use assms goRepeatedValueType in \<open>simp add: text_simps\<close>)
next
  case (goRepeatedPackedValueType t' r)
  then obtain packed where packed: "valuePackedEntryWriter t' (tabs 2) buf ''entry'' = Inr packed"
    using assms(1) by (cases "valuePackedEntryWriter t' (tabs 2) buf ''entry''") simp_all
  have "balanced packed" by (rule valuePackedEntryWriter_balanced [OF packed]) (use assms goRepeatedPackedValueType in \<open>simp_all add: balanced_nest\<close>)
  moreover have "balanced (projr (fieldEntryWriter t (tabs k) buf tag v))"
    by (intro balancedI) (use assms(2-) goRepeatedPackedValueType packed \<open>balanced packed\<close> in \<open>simp add: text_simps\<close>)
  ultimately show ?thesis by (simp only: assms(1) sum.sel)
next
  case (goMapValueType kt t')
  have "balanced (projr (fieldEntryWriter t (tabs k) buf tag v))"
    by (intro balancedI) (use assms(2-) goMapValueType in \<open>simp add: text_simps\<close>)
  then show ?thesis by (simp only: assms(1) sum.sel)
qed

subsection \<open>Structs\<close>

text \<open>What the brackets of a struct depend on: its name and, for each field, the Go name, the name in the
  proto file and the names and defaults of the type.\<close>

definition field_balanced :: "GoStructField \<Rightarrow> bool" where
  "field_balanced f \<longleftrightarrow> balanced (gf_name f) \<and> type_balanced (gf_type f) \<and> balanced (ProtoName (fd_name (gf_proto f)))"

definition struct_balanced :: "GoStructType \<Rightarrow> bool" where
  "struct_balanced g \<longleftrightarrow> balanced (StructName g) \<and> list_all field_balanced (structFields g)"

lemma wireTypeConstName_balanced [simp]: "balanced s \<Longrightarrow> field_balanced f \<Longrightarrow> balanced (wireTypeConstName s f)"
  by (simp add: wireTypeConstName_def field_balanced_def)

lemma writeWireTypeConst_balanced: "balanced s \<Longrightarrow> field_balanced f \<Longrightarrow> balanced (writeWireTypeConst s f)"
  by (rule balancedI) (simp add: writeWireTypeConst_def text_simps)

lemma writeProtoStructData_balanced: "field_balanced f \<Longrightarrow> balanced (writeProtoStructData f)"
  by (rule balancedI) (simp add: writeProtoStructData_def field_balanced_def text_simps)

lemma writeProtoStructOffset_balanced: "field_balanced f \<Longrightarrow> balanced (writeProtoStructOffset f)"
  by (rule balancedI) (simp add: writeProtoStructOffset_def field_balanced_def text_simps Let_def)

lemma writeProtoStructParsedFlag_balanced: "field_balanced f \<Longrightarrow> balanced (writeProtoStructParsedFlag f)"
  by (rule balancedI) (simp add: writeProtoStructParsedFlag_def field_balanced_def text_simps)

lemma writeGetter_balanced: "balanced s \<Longrightarrow> field_balanced f \<Longrightarrow> balanced (writeGetter s f)"
  by (rule balancedI) (simp add: writeGetter_def field_balanced_def text_simps)

lemma writeReader_balanced: "balanced s \<Longrightarrow> field_balanced f \<Longrightarrow> balanced (writeReader s f)"
  by (rule balancedI) (simp add: writeReader_def field_balanced_def text_simps Let_def)

lemma writeAccessors_balanced: "balanced s \<Longrightarrow> field_balanced f \<Longrightarrow> balanced (writeAccessors s f)"
  by (simp add: writeAccessors_def writeGetter_balanced writeReader_balanced)

lemma writeFieldUnmarshal_balanced: "balanced s \<Longrightarrow> field_balanced f \<Longrightarrow> balanced (writeFieldUnmarshal s f)"
  by (rule balancedI) (simp add: writeFieldUnmarshal_def text_simps, simp add: field_balanced_def)

lemma writeStructField_balanced: "field_balanced f \<Longrightarrow> balanced (writeStructField f)"
  by (rule balancedI) (simp add: writeStructField_def field_balanced_def text_simps)

lemma writeFieldToStruct_balanced: "field_balanced f \<Longrightarrow> balanced (writeFieldToStruct f)"
  by (rule balancedI) (simp add: writeFieldToStruct_def field_balanced_def text_simps)

lemma writeSizeCalc_balanced: "balanced s \<Longrightarrow> field_balanced f \<Longrightarrow> balanced (writeSizeCalc s f)"
proof (rule balancedI)
  assume s: "balanced s" and f: "field_balanced f"
  then have "type_balanced (gf_type f)" "balanced (gf_name f)" "balanced (wireTypeConstName s f)"
    by (simp_all add: field_balanced_def)
  then show "nest st (writeSizeCalc s f) = Some st" for st by (simp add: writeSizeCalc_def text_simps)
qed

lemma writeFieldMarshal_balanced:
  assumes "writeFieldMarshal s f = Inr code" "balanced s" "field_balanced f"
  shows "balanced code"
proof -
  obtain entry where entry: "fieldEntryWriter (gf_type f) (tabs 2) ''res'' (wireTypeConstName s f) (''s.'' @ gf_name f) = Inr entry"
    using assms(1) unfolding writeFieldMarshal_def by (auto simp only: andThen_eq_Inr)
  have f: "type_balanced (gf_type f)" "balanced (gf_name f)" "balanced (wireTypeConstName s f)"
    using assms(2,3) by (simp_all add: field_balanced_def)
  then have "balanced entry" by (intro fieldEntryWriter_balanced [OF entry]) simp_all
  have "code = lines [[], tabs 1 @ ''if '' @ fieldIsNotEmpty (gf_type f) (''s.'' @ gf_name f) @ '' {'', entry, tabs 1 @ ''}'']"
    using assms(1) by (simp only: writeFieldMarshal_def entry andThen_simps sum.inject)
  then show ?thesis by (intro balancedI) (use f \<open>balanced entry\<close> in \<open>simp add: text_simps\<close>)
qed

lemma writeFieldCopy_balanced: "field_balanced f \<Longrightarrow> balanced (writeFieldCopy f)"
  by (rule balancedI) (simp add: writeFieldCopy_def field_balanced_def)

lemma fields_balanced:
  "struct_balanced g \<Longrightarrow> (\<And>f. balanced (StructName g) \<Longrightarrow> field_balanced f \<Longrightarrow> balanced (w f)) \<Longrightarrow>
    balanced (concat (map w (structFields g)))"
  by (rule balanced_concat) (simp add: struct_balanced_def list_all_iff)

lemma struct_balanced_name [simp]: "struct_balanced g \<Longrightarrow> balanced (StructName g)"
  by (simp add: struct_balanced_def)

lemma foldE_balanced:
  assumes "foldE (\<lambda>x sb. andThen (w x) (\<lambda>code. Inr (sb @ code))) xs acc = Inr code"
    and "\<And>x code. x \<in> set xs \<Longrightarrow> w x = Inr code \<Longrightarrow> balanced code"
  shows "nest st code = Option.bind (nest st acc) Some"
  using assms
proof (induction xs arbitrary: acc)
  case (Cons x xs)
  then obtain c where c: "w x = Inr c" "foldE (\<lambda>x sb. andThen (w x) (\<lambda>code. Inr (sb @ code))) xs (acc @ c) = Inr code"
    by (auto simp: andThen_eq_Inr)
  then have "nest st code = Option.bind (nest st (acc @ c)) Some" using Cons.prems(2) by (intro Cons.IH) auto
  moreover have "balanced c" by (rule Cons.prems(2) [OF _ c(1)]) simp
  ultimately show ?case by (simp add: nest_append)
qed simp

lemma writeMarshal_balanced:
  assumes "writeMarshal g = Inr code" "struct_balanced g"
  shows "balanced code"
proof (rule balancedI)
  fix st
  let ?start = "lines [[], ''func (s *'' @ StructName g @ '') Marshal() []byte {'', tabs 1 @ ''if s == nil {'',
       tabs 2 @ ''return nil'', tabs 1 @ ''}'', tabs 1 @ ''size := s.XXX_PbContentSize()'',
       tabs 1 @ ''if size == 0 {'', tabs 2 @ ''return nil'', tabs 1 @ ''}'',
       tabs 1 @ ''res := gremlin.NewWriter(size)'', tabs 1 @ ''s.MarshalTo(res)'',
       tabs 1 @ ''return res.Bytes()'', ''}'', [],
       ''func (s *'' @ StructName g @ '') MarshalTo(res *gremlin.Writer) {'', tabs 1 @ ''if s == nil {'',
       tabs 2 @ ''return'', tabs 1 @ ''}'', []]"
  obtain body where body: "foldE (\<lambda>f sb. andThen (writeFieldMarshal (StructName g) f) (\<lambda>code. Inr (sb @ code))) (structFields g) ?start = Inr body"
    and code: "code = body @ lines [[], ''}'', []]"
    using assms(1) by (auto simp only: writeMarshal_def andThen_eq_Inr sum.inject)
  have "nest st body = Option.bind (nest st ?start) Some"
    by (rule foldE_balanced [OF body]) (use assms(2) writeFieldMarshal_balanced in \<open>auto simp: struct_balanced_def list_all_iff\<close>)
  then show "nest st code = Some st" using assms(2) by (simp add: code nest_append text_simps)
qed

lemma writeWireTypes_balanced: "struct_balanced g \<Longrightarrow> balanced (writeWireTypes g)"
  by (rule balancedI) (simp add: writeWireTypes_def fields_balanced writeWireTypeConst_balanced)

lemma writeReaderConstructor_balanced: "struct_balanced g \<Longrightarrow> balanced (writeReaderConstructor g)"
  by (rule balancedI) (simp add: writeReaderConstructor_def text_simps)

lemma writeReaderStruct_balanced: "struct_balanced g \<Longrightarrow> balanced (writeReaderStruct g)"
  by (rule balancedI) (simp add: writeReaderStruct_def text_simps nest_append [where s = "lines _"] fields_balanced
    writeProtoStructData_balanced writeProtoStructOffset_balanced writeProtoStructParsedFlag_balanced)

lemma writeStruct_balanced: "struct_balanced g \<Longrightarrow> balanced (writeStruct g)"
  by (rule balancedI) (simp add: writeStruct_def text_simps nest_append [where s = "lines _"] fields_balanced writeStructField_balanced)

lemma writeFieldsAccessors_balanced: "struct_balanced g \<Longrightarrow> balanced (writeFieldsAccessors g)"
  by (simp add: writeFieldsAccessors_def fields_balanced writeAccessors_balanced)

lemma writeUnmarshal_balanced: "struct_balanced g \<Longrightarrow> balanced (writeUnmarshal g)"
  by (rule balancedI) (simp add: writeUnmarshal_def text_simps nest_append [where s = "lines _"] fields_balanced writeFieldUnmarshal_balanced)

lemma writeToStruct_balanced: "struct_balanced g \<Longrightarrow> balanced (writeToStruct g)"
  by (rule balancedI) (simp add: writeToStruct_def text_simps nest_append [where s = "lines _"] fields_balanced writeFieldToStruct_balanced)

lemma writeGetBytes_balanced: "struct_balanced g \<Longrightarrow> balanced (writeGetBytes g)"
  by (rule balancedI) (simp add: writeGetBytes_def text_simps)

lemma writeSize_balanced: "struct_balanced g \<Longrightarrow> balanced (writeSize g)"
  by (rule balancedI) (simp add: writeSize_def text_simps nest_append [where s = "lines _"] fields_balanced writeSizeCalc_balanced)

lemma writeCopy_balanced: "struct_balanced g \<Longrightarrow> balanced (writeCopy g)"
  by (rule balancedI) (simp add: writeCopy_def text_simps nest_append [where s = "lines _"] fields_balanced writeFieldCopy_balanced)

lemmas methods_balanced = writeWireTypes_balanced writeReaderConstructor_balanced writeReaderStruct_balanced
  writeStruct_balanced writeFieldsAccessors_balanced writeUnmarshal_balanced writeToStruct_balanced writeGetBytes_balanced
  writeSize_balanced writeCopy_balanced

lemma GenerateStruct_balanced:
  assumes "GenerateStruct g = Inr code" "struct_balanced g"
  shows "balanced code"
proof -
  obtain marshal where marshal: "writeMarshal g = Inr marshal"
    and code: "code = writeWireTypes g @ writeReaderStruct g @ writeReaderConstructor g @ writeFieldsAccessors g @ writeUnmarshal g
        @ writeToStruct g @ writeGetBytes g @ writeStruct g @ marshal @ writeCopy g @ writeSize g"
    using assms(1) by (auto simp only: GenerateStruct_def andThen_eq_Inr sum.inject)
  show ?thesis by (simp add: code methods_balanced assms(2) writeMarshal_balanced [OF marshal])
qed

subsection \<open>Files\<close>

definition enum_balanced :: "GoEnumType \<Rightarrow> bool" where
  "enum_balanced g \<longleftrightarrow> balanced (EnumName g)
     \<and> list_all (\<lambda>v. balanced (ConstName v) \<and> balanced (goQuote (ProtoName (variantProto v)))) (variants g)"

definition import_balanced :: "GoImport \<Rightarrow> bool" where
  "import_balanced i \<longleftrightarrow> balanced (Alias i) \<and> balanced (ImportPath i) \<and> balanced (goQuote (ImportPath i))"

definition file_balanced :: "GoGeneratedFile \<Rightarrow> bool" where
  "file_balanced g \<longleftrightarrow> balanced (ShortPackageName g) \<and> list_all import_balanced (goImports g)
     \<and> list_all enum_balanced (enums g) \<and> list_all struct_balanced (structs g)"

lemma casesOf_subset: "set (casesOf used vs) \<subseteq> set vs"
  by (induction vs arbitrary: used) auto

lemma GenerateEnum_balanced: "enum_balanced g \<Longrightarrow> balanced (GenerateEnum g)"
proof -
  assume g: "enum_balanced g"
  have "balanced (concat (map (\<lambda>v. tab @ ConstName v @ '' '' @ EnumName g @ '' = '' @ decInt (variantValue v) @ nl) (variants g)))"
    by (rule balanced_concat) (use g in \<open>auto simp: enum_balanced_def list_all_iff\<close>)
  moreover have "balanced (concat (map (\<lambda>v. tab @ ''case '' @ ConstName v @ '':'' @ nl @ tab @ tab @ ''return ''
      @ goQuote (ProtoName (variantProto v)) @ nl) (casesOf [] (variants g))))"
    by (rule balanced_concat) (use g casesOf_subset [of "[]" "variants g"] in \<open>auto simp: enum_balanced_def list_all_iff\<close>)
  moreover have "balanced (goQuote [])" by (simp add: goQuote_def balanced_def)
  moreover have "balanced (EnumName g)" using g by (simp add: enum_balanced_def)
  ultimately show ?thesis
    by (intro balancedI) (simp add: GenerateEnum_def writeEnumHeader_def writeEnumConstants_def writeEnumToString_def)
qed

lemma importLines_balanced: "list_all import_balanced imps \<Longrightarrow> balanced (importLines imps)"
proof -
  assume imps: "list_all import_balanced imps"
  have "balanced (concat (map (\<lambda>i. tab @ Alias i @ '' '' @ [CHR 0x22] @ ImportPath i @ [CHR 0x22] @ nl) imps))"
    by (rule balanced_concat) (use imps in \<open>auto simp: import_balanced_def list_all_iff\<close>)
  moreover have "import_balanced (hd imps)" if "length imps = 1" using imps that by (cases imps) simp_all
  ultimately show ?thesis by (intro balancedI) (simp add: importLines_def Let_def import_balanced_def)
qed

lemma withRuntime_balanced: "file_balanced g \<Longrightarrow> file_balanced (withRuntime g)"
proof -
  assume g: "file_balanced g"
  have "balanced (dec n)" for n by simp
  then have "import_balanced \<lparr>ImportPath = gremlinPackage, Alias = freeAlias imps ''gremlin'', GoFiles = fs, Used = True\<rparr>" for imps fs
    by (simp add: import_balanced_def gremlinPackage_def freeAlias_def underscore_def goQuote_def quoteChar_def Let_def balanced_nest [of "[]"])
  with g show ?thesis by (simp add: withRuntime_def AddImport_def file_balanced_def)
qed

lemma GenerateCode_balanced:
  assumes "GenerateCode p g = Inr code" "file_balanced g" "balanced p"
  shows "balanced code"
proof (rule balancedI)
  fix st
  define g' where "g' = withRuntime g"
  have g': "file_balanced g'" using assms(2) by (simp add: g'_def withRuntime_balanced)
  let ?start = "''// Code generated by gremlin. DO NOT EDIT.'' @ nl @ ''// source: '' @ p @ nl @ nl
         @ ''package '' @ ShortPackageName g' @ nl @ nl
         @ importLines (List.filter Used (goImports g'))
         @ concat (map GenerateEnum (enums g'))"
  have "foldE (\<lambda>t sb. andThen (GenerateStruct t) (\<lambda>code. Inr (sb @ code))) (structs g') ?start = Inr code"
    using assms(1) by (simp only: GenerateCode_def Let_def g'_def)
  then have "nest st code = Option.bind (nest st ?start) Some"
    by (rule foldE_balanced) (use g' GenerateStruct_balanced in \<open>auto simp: file_balanced_def list_all_iff\<close>)
  moreover have "balanced (concat (map GenerateEnum (enums g')))"
    by (rule balanced_concat) (use g' GenerateEnum_balanced in \<open>auto simp: file_balanced_def list_all_iff\<close>)
  moreover have "balanced (importLines (List.filter Used (goImports g')))"
    by (rule importLines_balanced) (use g' in \<open>auto simp: file_balanced_def list_all_iff\<close>)
  ultimately show "nest st code = Some st" using g' assms(3) by (simp add: file_balanced_def)
qed


text \<open>The two files of the demonstration of \<open>Go_Linking\<close>.\<close>

definition demo_go :: "GoGeneratedFile list" where
  "demo_go = (case MapProtoFiles ''out'' ''mod'' demo_parsed of Inr (goFiles, errors) \<Rightarrow> goFiles | Inl _ \<Rightarrow> [])"

lemma demo_files: "MapProtoFiles ''out'' ''mod'' demo_parsed = Inr (demo_go, []) \<and> files_mapped ''out'' ''mod'' demo_parsed demo_go"
  using generator_maps_result [OF demo_keys demo_accepted, of "''out''" "''mod''"] by (auto simp: demo_go_def)


subsection \<open>Texts that do not compile\<close>

text \<open>Go does not allow a field and a method of one name, or two types of one name in a package. A field named
  copy, of any type, becomes a field Copy of a struct that has a method Copy; and the reader of a message Foo
  has the name of the struct of a message FooReader. The generator reports neither.\<close>

definition clash_field :: MessageFieldDefinition where
  "clash_field = blank_field (emptyName\<lparr>sn_name := ''copy''\<rparr>) \<lparr>pf_name = ''copy'', pf_type = ''int32'', pf_sequence = 1, pf_options = []\<rparr>"

definition clash_struct :: GoStructType where
  "clash_struct = AddField clash_field (goSingle (goBasicValueType ''int32'' ''int32'' [] False))
     \<lparr>StructName = ''Foo'', structProto = (0, 0), structFields = []\<rparr>"

lemma copy_field_collides:
  "contains (writeStruct clash_struct) (nl @ tab @ ''Copy'' @ tab @ ''int32'') \<and> contains (writeCopy clash_struct) ''func (s *Foo) Copy() *Foo {''"
  by code_simp

lemma reader_name_collides:
  "contains (writeReaderStruct clash_struct) ''type FooReader struct {''
    \<and> contains (writeStruct (clash_struct\<lparr>StructName := ''FooReader''\<rparr>)) ''type FooReader struct {''"
  by code_simp

end
