(* ===== verification/Go_Schema.thy ===== *)
theory Go_Schema
  imports Go_Text Message_Properties
begin

section \<open>The messages a run generates\<close>

text \<open>
  The files the mapper returns as a schema of \<open>Message_Writer\<close>: one message per struct, one field per
  field definition, with its number and type. The struct a type names is found as a Go compiler finds
  it: by the alias of an emitted import and the name in the package imported. What a compiler makes of the
  text of a default value is a parameter. The names denote what the fields refer to, unless names
  collide; and the schema of every accepted run is well-formed when the field numbers are, so the round
  trip holds for the messages it generates.
\<close>

definition basicTypes :: "(string \<times> basic) list" where
  "basicTypes =
     [(''string'', PString), (''bytes'', PBytes), (''bool'', PBool), (''double'', PDouble), (''float'', PFloat),
      (''int32'', PInt32), (''int64'', PInt64), (''uint32'', PUint32), (''uint64'', PUint64), (''sint32'', PSint32),
      (''sint64'', PSint64), (''fixed32'', PFixed32), (''fixed64'', PFixed64), (''sfixed32'', PSfixed32),
      (''sfixed64'', PSfixed64)]"

record go_meaning =
  default_value :: "string \<Rightarrow> gval"
  enum_constant :: "string \<Rightarrow> int32"

definition all_structs :: "GoGeneratedFile list \<Rightarrow> (GoGeneratedFile \<times> GoStructType) list" where
  "all_structs goFiles = concat (map (\<lambda>g. map (Pair g) (structs g)) goFiles)"

text \<open>The package an alias stands for in the file that is emitted, and the struct a name denotes there.\<close>

definition package_named :: "GoGeneratedFile \<Rightarrow> string \<Rightarrow> string option" where
  "package_named g al = (if al = [] then Some (FullPackageName g) else map_of (used_imports (withRuntime g)) al)"

definition struct_denoted :: "GoGeneratedFile list \<Rightarrow> GoGeneratedFile \<Rightarrow> string \<Rightarrow> string \<Rightarrow> nat option" where
  "struct_denoted goFiles g al n =
     (case package_named g al of None \<Rightarrow> None
      | Some p \<Rightarrow> findIndex (\<lambda>(g', s). FullPackageName g' = p \<and> StructName s = n) (all_structs goFiles))"

fun single_of :: "go_meaning \<Rightarrow> GoGeneratedFile list \<Rightarrow> GoGeneratedFile \<Rightarrow> goValueType \<Rightarrow> single" where
  "single_of G goFiles g (goBasicValueType n p d r) =
     BasicT (the (map_of basicTypes p)) (if d = [] then None else Some (default_value G d)) r"
| "single_of G goFiles g (goEnumValueType n d r) = EnumT (if d = [] then None else Some (enum_constant G d)) r"
| "single_of G goFiles g (goStructValueType p n r) =
     StructT (case struct_denoted goFiles g p n of None \<Rightarrow> length (all_structs goFiles) | Some m \<Rightarrow> m) r"

fun type_of_go :: "go_meaning \<Rightarrow> GoGeneratedFile list \<Rightarrow> GoGeneratedFile \<Rightarrow> GoFieldType \<Rightarrow> fieldType" where
  "type_of_go G goFiles g (goSingle v) = Single (single_of G goFiles g v)"
| "type_of_go G goFiles g (goRepeatedValueType v r) = Repeated (single_of G goFiles g v) r"
| "type_of_go G goFiles g (goRepeatedPackedValueType v r) = RepeatedPacked (single_of G goFiles g v) r"
| "type_of_go G goFiles g (goMapValueType k v) = MapOf (single_of G goFiles g k) (single_of G goFiles g v)"

text \<open>The constant \<open>wireX_Y\<close>\<close>

definition wire_number :: "MessageFieldDefinition \<Rightarrow> ProtoWireNumber" where
  "wire_number fd = word_of_int (pf_sequence (fd_proto fd))"

definition schema_of :: "go_meaning \<Rightarrow> GoGeneratedFile list \<Rightarrow> schema" where
  "schema_of G goFiles n =
     (if n < length (all_structs goFiles)
      then (let (g, s) = all_structs goFiles ! n
            in map (\<lambda>f. (wire_number (gf_proto f), type_of_go G goFiles g (gf_type f))) (structFields s))
      else [])"

subsection \<open>Names denote what fields refer to\<close>

text \<open>What Go demands: a name is declared once per package, an alias once per file.\<close>

definition names_unique :: "GoGeneratedFile list \<Rightarrow> bool" where
  "names_unique goFiles \<longleftrightarrow> distinct (map (\<lambda>(g, s). (FullPackageName g, StructName s)) (all_structs goFiles))
     \<and> list_all (\<lambda>g. distinct (map fst (used_imports (withRuntime g)))) goFiles"

lemma findIndex_unique:
  assumes "x \<in> set xs" and "f x = c" and "distinct (map f xs)"
  shows "\<exists>m. findIndex (\<lambda>y. f y = c) xs = Some m \<and> m < length xs \<and> xs ! m = x"
proof -
  have "findIndex (\<lambda>y. f y = c) xs \<noteq> None" using assms(1,2) by (auto simp: findIndex_None)
  then obtain m where m: "findIndex (\<lambda>y. f y = c) xs = Some m" by auto
  then have "m < length xs" "f (xs ! m) = f x" using assms(2) by (auto dest: findIndex_Some)
  moreover have "inj_on f (set xs)" using assms(3) by (simp add: distinct_map)
  ultimately have "xs ! m = x" using assms(1) by (meson inj_onD nth_mem)
  with m \<open>m < length xs\<close> show ?thesis by blast
qed

lemma withRuntime_keeps: "keeps g (withRuntime g)"
  by (simp add: withRuntime_def AddImport_keeps)

lemma reached_package:
  assumes "reached_as pk g k al" and "distinct (map fst (used_imports (withRuntime g)))"
  shows "package_named g al = Some (pk k)"
proof (cases "al = []")
  case False
  then have "(al, pk k) \<in> set (used_imports (withRuntime g))"
    using assms(1) withRuntime_keeps [of g] by (auto simp: reached_as_def keeps_def)
  then show ?thesis using False assms(2) by (simp add: package_named_def)
qed (use assms(1) in \<open>simp add: reached_as_def package_named_def\<close>)

text \<open>The struct of a message, by its file and position.\<close>

lemma mapped_struct:
  assumes "files_mapped root modulePath parsed goFiles" and k: "k < length parsed" and j: "j < length (pr_messages (parsed ! k))"
  shows "\<exists>s. (goFiles ! k, s) \<in> set (all_structs goFiles) \<and> structProto s = (k, j)
    \<and> StructName s = structTypeName (pr_messages (parsed ! k) ! j)
    \<and> FullPackageName (goFiles ! k) = package_paths root modulePath parsed k"
proof -
  let ?g = "goFiles ! k"
  have shape: "shape (package_paths root modulePath parsed) parsed k ?g" and len: "k < length goFiles"
    using assms(1) k by (simp_all add: files_mapped_def mapped_def mapping_def placed_def)
  have "((k, j), structTypeName (pr_messages (parsed ! k) ! j)) \<in> set (map (\<lambda>s. (structProto s, StructName s)) (structs ?g))"
    using shape j by (simp add: shape_def)
  then obtain s where "s \<in> set (structs ?g)" "structProto s = (k, j)" "StructName s = structTypeName (pr_messages (parsed ! k) ! j)"
    by auto
  moreover from this(1) have "(?g, s) \<in> set (all_structs goFiles)" using len nth_mem [OF len] by (auto simp: all_structs_def)
  ultimately show ?thesis using shape by (auto simp: shape_def)
qed

text \<open>The type of a field of a message: the struct it names is that of the message it refers to.\<close>

definition names_right :: "GoGeneratedFile list \<Rightarrow> GoGeneratedFile \<Rightarrow> GoStructField \<Rightarrow> bool" where
  "names_right goFiles g f = (case element_of (gf_type f) of
     goStructValueType al n r \<Rightarrow>
       (case (struct_denoted goFiles g al n, msg_ref (protoFile g) (gf_proto f)) of
          (Some m, k, Some j) \<Rightarrow> m < length (all_structs goFiles) \<and> structProto (snd (all_structs goFiles ! m)) = (k, j)
        | _ \<Rightarrow> False)
   | _ \<Rightarrow> True)"

lemma names_right_field:
  assumes F: "files_mapped root modulePath parsed goFiles" and "names_unique goFiles" and k: "k < length parsed"
    and s: "s \<in> set (structs (goFiles ! k))" and f: "f \<in> set (structFields s)"
  shows "names_right goFiles (goFiles ! k) f"
proof (cases "element_of (gf_type f)")
  case (goStructValueType al n r)
  let ?g = "goFiles ! k" and ?pk = "package_paths root modulePath parsed"
  have m: "mapped ?pk (output_paths root parsed) parsed k ?g" and g: "?g \<in> set goFiles" using F k by (simp_all add: files_mapped_def)
  then have own: "protoFile ?g = k" by (simp add: mapped_def mapping_def placed_def shape_def)
  have "type_right ?pk parsed k ?g (gf_proto f) (gf_type f)"
    using m s f by (simp add: mapped_def mapping_def typed_fields_def list_all_iff)
  then obtain k' j where ref: "msg_ref k (gf_proto f) = (k', Some j)" "k' < length parsed" "j < length (pr_messages (parsed ! k'))"
    "n = structTypeName (pr_messages (parsed ! k') ! j)" "reached_as ?pk ?g k' al"
    by (auto simp: type_right_def goStructValueType)
  from mapped_struct [OF F ref(2,3)] obtain t where t: "(goFiles ! k', t) \<in> set (all_structs goFiles)" "structProto t = (k', j)"
    "StructName t = n" "FullPackageName (goFiles ! k') = ?pk k'" using ref(4) by auto
  have "package_named ?g al = Some (?pk k')"
    using reached_package [OF ref(5)] assms(2) g by (simp add: names_unique_def list_all_iff)
  moreover obtain m where "findIndex (\<lambda>(g', s). FullPackageName g' = ?pk k' \<and> StructName s = n) (all_structs goFiles) = Some m"
    "m < length (all_structs goFiles)" "all_structs goFiles ! m = (goFiles ! k', t)"
    using findIndex_unique [OF t(1), of "\<lambda>(g, s). (FullPackageName g, StructName s)" "(?pk k', n)"] t(3,4) assms(2)
    by (auto simp: names_unique_def case_prod_unfold)
  ultimately show ?thesis using ref(1) t(2) by (simp add: names_right_def goStructValueType struct_denoted_def own)
qed (simp_all add: names_right_def)

text \<open>C5: in the files of an accepted run, unless two structs of a package or two imports of a file
  have one name, every field of a message type names, through the import its alias stands for, the struct
  generated for the message that the reference in the proto file was resolved to.\<close>

theorem type_names_denote:
  assumes "list_all (\<lambda>(p, rel, vs). list_all node_keys_scalar vs) sources"
    and "ResolveImportsAndReferences (parsed_sources sources) = Inr (parsed, [])"
    and "MapProtoFiles root modulePath parsed = Inr (goFiles, errors)"
    and "names_unique goFiles"
  shows "list_all (\<lambda>g. list_all (\<lambda>s. list_all (names_right goFiles g) (structFields s)) (structs g)) goFiles"
proof -
  have F: "files_mapped root modulePath parsed goFiles" using generator_maps_result [OF assms(1,2), of root modulePath] assms(3) by auto
  show ?thesis
    unfolding list_all_iff
  proof (intro ballI)
    fix g s f assume "g \<in> set goFiles" "s \<in> set (structs g)" "f \<in> set (structFields s)"
    moreover from this(1) F obtain k where "k < length parsed" "g = goFiles ! k" by (auto simp: in_set_conv_nth files_mapped_def)
    ultimately show "names_right goFiles g f" using names_right_field [OF F assms(4)] by blast
  qed
qed

lemma demo_go_mapped: "MapProtoFiles ''out'' ''mod'' demo_parsed = Inr (demo_go, [])"
  using demo_files by simp

lemma demo_go_names: "names_unique demo_go"
  by code_simp

lemma type_names_denote_witness:
  "list_all (\<lambda>g. list_all (\<lambda>s. list_all (names_right demo_go g) (structFields s)) (structs g)) demo_go"
  by (rule type_names_denote [OF demo_keys demo_accepted demo_go_mapped demo_go_names])

subsection \<open>The schema\<close>

text \<open>Field numbers as the language allows them; the generator does not check them.\<close>

definition numbers_ok :: "ProtoFile \<Rightarrow> bool" where
  "numbers_ok f \<longleftrightarrow> list_all (\<lambda>m. list_all (\<lambda>fd. 0 < pf_sequence (fd_proto fd) \<and> pf_sequence (fd_proto fd) < 2 ^ 29) (md_fields m)
     \<and> distinct (map (\<lambda>fd. pf_sequence (fd_proto fd)) (md_fields m))) (pr_messages f)"

lemma canBePacked_basic: "canBePacked p \<Longrightarrow> basic_can_be_packed (the (map_of basicTypes p))"
  by (auto simp: canBePacked_def basicTypes_def)

lemma packable_single: "packable v \<Longrightarrow> CanBePacked (single_of G goFiles g v)"
  by (cases v) (simp_all add: canBePacked_basic)

lemma go_type_ok_type: "go_type_ok t \<Longrightarrow> type_ok (type_of_go G goFiles g t)"
proof (cases t)
  case (goMapValueType k v)
  assume "go_type_ok t"
  then show ?thesis using goMapValueType by (cases k) simp_all
qed (auto simp: packable_single)

lemma uint_wire_number:
  "0 < pf_sequence (fd_proto fd) \<Longrightarrow> pf_sequence (fd_proto fd) < 2 ^ 29 \<Longrightarrow> uint (wire_number fd) = pf_sequence (fd_proto fd)"
  unfolding wire_number_def by (rule word_uint_eq_iff [THEN iffD1, OF _, simplified uint_word_of_int] | simp add: take_bit_int_eq_self uint_word_of_int)+

lemma wire_number_valid:
  assumes "0 < pf_sequence (fd_proto fd)" and "pf_sequence (fd_proto fd) < 2 ^ 29"
  shows "valid_tag (wire_number fd)"
  using uint_wire_number [OF assms] assms by (simp add: valid_tag_def word_less_def)

lemma numbers_distinct:
  assumes "list_all (\<lambda>fd. 0 < pf_sequence (fd_proto fd) \<and> pf_sequence (fd_proto fd) < 2 ^ 29) fds"
    and "distinct (map (\<lambda>fd. pf_sequence (fd_proto fd)) fds)"
  shows "distinct (map wire_number fds)"
proof -
  have "map uint (map wire_number fds) = map (\<lambda>fd. pf_sequence (fd_proto fd)) fds"
    using assms(1) uint_wire_number by (auto simp: list_all_iff)
  then show ?thesis using assms(2) by (metis distinct_map)
qed

lemma all_structs_nth:
  assumes "n < length (all_structs goFiles)" and "all_structs goFiles ! n = (g, s)"
  shows "g \<in> set goFiles \<and> s \<in> set (structs g)"
proof -
  have "(g, s) \<in> set (all_structs goFiles)" using assms nth_mem by metis
  then show ?thesis by (auto simp: all_structs_def)
qed

lemma schema_of_ok:
  assumes F: "files_mapped root modulePath parsed goFiles" and "list_all numbers_ok parsed"
  shows "schema_ok (schema_of G goFiles)"
  unfolding schema_ok_def
proof
  fix n
  show "distinct (map fst (schema_of G goFiles n)) \<and> (\<forall>(tag, ft) \<in> set (schema_of G goFiles n). valid_tag tag \<and> type_ok ft)"
  proof (cases "n < length (all_structs goFiles)")
    case True
    obtain g s where gs: "all_structs goFiles ! n = (g, s)" by force
    have mem: "g \<in> set goFiles" "s \<in> set (structs g)" using all_structs_nth [OF True gs] by simp_all
    from mem(1) F obtain i where i: "i < length parsed" "goFiles ! i = g" by (auto simp: in_set_conv_nth files_mapped_def)
    then have m: "mapped (package_paths root modulePath parsed) (output_paths root parsed) parsed i g" using F by (auto simp: files_mapped_def)
    then have fields: "field_table g = map md_fields (pr_messages (parsed ! i))" by (simp add: mapped_def)
    have "map gf_proto (structFields s) \<in> set (field_table g)" using mem(2) by (simp add: field_table_def)
    then obtain msg where msg: "msg \<in> set (pr_messages (parsed ! i))" "map gf_proto (structFields s) = md_fields msg"
      using fields by auto
    have "numbers_ok (parsed ! i)" using assms(2) i(1) by (simp add: list_all_length)
    then have nums: "list_all (\<lambda>fd. 0 < pf_sequence (fd_proto fd) \<and> pf_sequence (fd_proto fd) < 2 ^ 29) (map gf_proto (structFields s))"
      "distinct (map (\<lambda>fd. pf_sequence (fd_proto fd)) (map gf_proto (structFields s)))"
      using msg by (auto simp: list_all_iff numbers_ok_def)
    have "map fst (schema_of G goFiles n) = map wire_number (map gf_proto (structFields s))"
      using True gs by (simp add: schema_of_def)
    then have "distinct (map fst (schema_of G goFiles n))" using numbers_distinct [OF nums] by simp
    moreover have "go_type_ok (gf_type x)" if "x \<in> set (structFields s)" for x
      using m that mem(2) by (auto simp: mapped_def mapping_def typed_fields_def list_all_iff type_right_def)
    then have "valid_tag (wire_number (gf_proto x)) \<and> type_ok (type_of_go G goFiles g (gf_type x))" if "x \<in> set (structFields s)" for x
      using that nums(1) go_type_ok_type wire_number_valid by (auto simp: list_all_iff)
    ultimately show ?thesis using True gs by (auto simp: schema_of_def)
  qed (simp add: schema_of_def)
qed

definition demo_meaning :: go_meaning where
  "demo_meaning = \<lparr>default_value = (\<lambda>s. VNil), enum_constant = (\<lambda>s. 0)\<rparr>"

definition demo_go_value :: gval where
  "demo_go_value = VMsg [VList [V32 7], VMap [(VStr [97], VMsg [VList [], VMap []])]]"

lemma demo_go_schema:
  "schema_of demo_meaning demo_go 0 =
     [(1, RepeatedPacked (BasicT PInt32 None False) False), (2, MapOf (BasicT PString None False) (StructT 0 False))]"
  by code_simp

lemma demo_numbers: "list_all numbers_ok demo_parsed"
  by code_simp

lemma demo_go_typed: "message_typed (schema_of demo_meaning demo_go) 0 demo_go_value"
  by (simp add: message_typed.simps demo_go_value_def demo_go_schema)

lemma demo_go_inner: "message_bytes (schema_of demo_meaning demo_go) 0 (VMsg [VList [], VMap []]) = []"
  by (simp add: demo_go_schema demo_bytes)

lemma demo_go_length: "length (message_bytes (schema_of demo_meaning demo_go) 0 demo_go_value) < 20"
  by (subst message_bytes.simps) (simp add: demo_go_inner demo_go_value_def demo_go_schema demo_bytes(2-))

text \<open>C1: a message of any run of the generator that its front end accepts comes back from the code
  generated for it: \<open>Marshal\<close>, \<open>Unmarshal\<close> and \<open>ToStruct\<close> return it up to the stated normal form,
  when the field numbers of every message are different and in range.\<close>

theorem generated_messages_roundtrip:
  assumes "list_all (\<lambda>(p, rel, vs). list_all node_keys_scalar vs) sources"
    and "ResolveImportsAndReferences (parsed_sources sources) = Inr (parsed, [])"
    and "MapProtoFiles root modulePath parsed = Inr (goFiles, errors)"
    and "list_all numbers_ok parsed"
    and "message_typed (schema_of G goFiles) n v" and "length (message_bytes (schema_of G goFiles) n v) < min fuel (2 ^ 62)"
    and "length (message_bytes (schema_of G goFiles) n v) \<le> d"
  shows "\<exists>s m. Marshal (schema_of G goFiles) n v = Inr s
    \<and> Unmarshal fuel (schema_of G goFiles n) (NewMsgReader (schema_of G goFiles) n) s = Some (m, None)
    \<and> ToStruct (Suc d) fuel (schema_of G goFiles) n m = Some (Inr (message_norm (schema_of G goFiles) n v))"
proof -
  have "files_mapped root modulePath parsed goFiles" using generator_maps_result [OF assms(1,2), of root modulePath] assms(3) by auto
  from schema_of_ok [OF this assms(4)] show ?thesis using assms(5-7) by (intro marshal_back) simp_all
qed

lemma generated_messages_roundtrip_witness:
  "\<exists>s m. Marshal (schema_of demo_meaning demo_go) 0 demo_go_value = Inr s
    \<and> Unmarshal 20 (schema_of demo_meaning demo_go 0) (NewMsgReader (schema_of demo_meaning demo_go) 0) s = Some (m, None)
    \<and> ToStruct (Suc 20) 20 (schema_of demo_meaning demo_go) 0 m = Some (Inr (message_norm (schema_of demo_meaning demo_go) 0 demo_go_value))"
  by (rule generated_messages_roundtrip [OF demo_keys demo_accepted demo_go_mapped demo_numbers demo_go_typed])
    (use demo_go_length in simp_all)

end
