(* ===== verification/Gremlinc_Walk.thy ===== *)
theory Gremlinc_Walk
  imports Go_Paths Proto_Parser
begin

section \<open>Finding and parsing the proto files\<close>

text \<open>
  \<^verbatim>\<open>shared/gremlin_go/gremlinc/internal/paths.go\<close> and \<^verbatim>\<open>reader.go\<close>. The disk is a tree of folders: a
  folder has the entries \<^verbatim>\<open>os.ReadDir\<close> returns, in their order, and whether it also returns an error; a
  leaf is anything that is not a folder, a symbolic link included, with what reading it gives. \<open>WalkDir\<close>
  is what the code uses of \<^verbatim>\<open>filepath.WalkDir\<close>; the third-party parser is a parameter. The theorem
  compares the walk with a filter over all leaves.
\<close>

datatype Entry = Leaf "string option" | Folder "(string \<times> Entry) list" bool

fun lookup :: "Entry \<Rightarrow> string list \<Rightarrow> Entry option" where
  "lookup e [] = Some e"
| "lookup (Leaf c) (n # ns) = None"
| "lookup (Folder es failed) (n # ns) = (case map_of es n of None \<Rightarrow> None | Some e \<Rightarrow> lookup e ns)"

fun isDir :: "Entry \<Rightarrow> bool" where
  "isDir (Leaf c) = False"
| "isDir (Folder es failed) = True"

text \<open>The components of a path, as the model of a proto file has them.\<close>

definition parts :: "string \<Rightarrow> string list" where
  "parts p = List.filter (\<lambda>c. c \<noteq> []) (split_on slash p)"

definition HasSuffix :: "string \<Rightarrow> string \<Rightarrow> bool" where
  "HasSuffix s p \<longleftrightarrow> length p \<le> length s \<and> drop (length s - length p) s = p"

definition HasPrefix :: "string \<Rightarrow> string \<Rightarrow> bool" where
  "HasPrefix s p \<longleftrightarrow> take (length p) s = p"

text \<open>\<^verbatim>\<open>filepath.Abs\<close>; there may be no working directory.\<close>

definition Abs :: "string option \<Rightarrow> string \<Rightarrow> string option" where
  "Abs workDir p = (if p \<noteq> [] \<and> hd p = slash then Some (Clean p) else map_option (\<lambda>d. Join [d, p]) workDir)"

subsection \<open>The walk\<close>

datatype walk_error = NotFound | Unreadable | NoWorkDir

text \<open>The entries of a folder are visited even when reading it failed, unless the second call of
  the function reports the error.\<close>

type_synonym 's walk = "walk_error fault + walk_error option \<times> 's"

function (sequential) walkDir :: "(string \<Rightarrow> bool option \<Rightarrow> walk_error option \<Rightarrow> 's \<Rightarrow> 's walk) \<Rightarrow> string \<Rightarrow> Entry \<Rightarrow> 's \<Rightarrow> 's walk"
  and walkEntries :: "(string \<Rightarrow> bool option \<Rightarrow> walk_error option \<Rightarrow> 's \<Rightarrow> 's walk) \<Rightarrow> string \<Rightarrow> (string \<times> Entry) list \<Rightarrow> 's \<Rightarrow> 's walk" where
  "walkDir fn p (Leaf c) s = fn p (Some False) None s"
| "walkDir fn p (Folder es failed) s =
     andThen (fn p (Some True) None s) (\<lambda>(err, s).
       if err \<noteq> None then Inr (err, s)
       else andThen (if failed then fn p (Some True) (Some Unreadable) s else Inr (None, s)) (\<lambda>(err, s).
         if err \<noteq> None then Inr (err, s) else walkEntries fn p es s))"
| "walkEntries fn p [] s = Inr (None, s)"
| "walkEntries fn p ((n, e) # es) s =
     andThen (walkDir fn (Join [p, n]) e s) (\<lambda>(err, s).
       if err \<noteq> None then Inr (err, s) else walkEntries fn p es s)"
  by pat_completeness auto

termination
  by (relation "measure (\<lambda>x. case x of Inl (_, _, e, _) \<Rightarrow> 2 * size e | Inr (_, _, es, _) \<Rightarrow> 2 * size_list (size_prod (\<lambda>_. 0) size) es + 1)")
    auto

definition WalkDir :: "(string \<Rightarrow> bool option \<Rightarrow> walk_error option \<Rightarrow> 's \<Rightarrow> 's walk) \<Rightarrow> string \<Rightarrow> Entry option \<Rightarrow> 's \<Rightarrow> 's walk" where
  "WalkDir fn root lstat s = (case lstat of None \<Rightarrow> fn root None (Some NotFound) s | Some e \<Rightarrow> walkDir fn root e s)"

subsection \<open>The proto files below a folder\<close>

definition DefaultIgnorePatterns :: "string list" where
  "DefaultIgnorePatterns = [''node_modules'', ''vendor'', ''test_data'', ''.git'']"

definition buildRelativePath :: "string \<Rightarrow> string \<Rightarrow> walk_error fault + string" where
  "buildRelativePath root p =
     (if \<not> HasPrefix p root then Inl Panic
      else Inr (trimPrefix (trimPrefix p root) [slash]))"

text \<open>The function given to the walk; \<open>info\<close> is nil when the root cannot be examined.\<close>

definition walkFn :: "string \<Rightarrow> string list \<Rightarrow> string \<Rightarrow> bool option \<Rightarrow> walk_error option \<Rightarrow> ProtoFile list \<Rightarrow> ProtoFile list walk" where
  "walkFn absCwd ignore filePath info err files =
     (case info of
        None \<Rightarrow> Inl Panic
      | Some dir \<Rightarrow>
          if dir \<or> \<not> HasSuffix filePath ''.proto'' then Inr (None, files)
          else if list_ex (\<lambda>part. part \<in> set ignore) (split_on slash filePath) then Inr (None, files)
          else andThen (buildRelativePath absCwd filePath) (\<lambda>rel.
            Inr (err, files @ [new_file (parts filePath) (parts rel)])))"

definition FindAllProtobufFiles :: "string option \<Rightarrow> Entry \<Rightarrow> string \<Rightarrow> string list \<Rightarrow> walk_error fault + ProtoFile list" where
  "FindAllProtobufFiles workDir disk cwd ignorePatterns =
     (case Abs workDir cwd of
        None \<Rightarrow> Inl (Fail NoWorkDir)
      | Some absCwd \<Rightarrow>
          andThen (WalkDir (walkFn absCwd ignorePatterns) absCwd (lookup disk (parts absCwd)) []) (\<lambda>(err, files).
            case err of Some e \<Rightarrow> Inl (Fail e) | None \<Rightarrow> Inr files))"

subsection \<open>Parsing\<close>

definition openFile :: "Entry \<Rightarrow> string list \<Rightarrow> string option" where
  "openFile disk p = (case lookup disk p of Some (Leaf c) \<Rightarrow> c | _ \<Rightarrow> None)"

datatype parse_error = CannotOpen | Malformed

text \<open>Every file is parsed by a goroutine of its own, which writes only at its index. \<open>order\<close> is the order in
  which they finish.\<close>

definition parseFile :: "Entry \<Rightarrow> (string \<Rightarrow> Visitee list option) \<Rightarrow> ProtoFile list \<Rightarrow> nat \<Rightarrow>
    Visitee list option list \<times> parse_error option list \<Rightarrow> Visitee list option list \<times> parse_error option list" where
  "parseFile disk parser files i = (\<lambda>(parsed, errors).
     case openFile disk (pr_path (files ! i)) of
       None \<Rightarrow> (parsed, errors[i := Some CannotOpen])
     | Some content \<Rightarrow>
         (case parser content of
            None \<Rightarrow> (parsed, errors[i := Some Malformed])
          | Some visited \<Rightarrow> (parsed[i := Some visited], errors)))"

definition ParseProtoFiles :: "nat list \<Rightarrow> Entry \<Rightarrow> (string \<Rightarrow> Visitee list option) \<Rightarrow> ProtoFile list \<Rightarrow>
    (string list \<times> parse_error) fault + (ProtoFile \<times> Visitee list) list" where
  "ParseProtoFiles order disk parser files =
     (let (parsed, errors) = fold (parseFile disk parser files) order
            (replicate (length files) None, replicate (length files) None)
      in case List.find (\<lambda>i. errors ! i \<noteq> None) [0..<length files] of
           Some i \<Rightarrow> Inl (Fail (pr_path (files ! i), the (errors ! i)))
         | None \<Rightarrow> Inr (zip files (map the parsed)))"

end
