(* ===== verification/Gremlinc_Files.thy ===== *)
theory Gremlinc_Files
  imports Gremlinc_Walk
begin

section \<open>The files that are found\<close>

text \<open>
  The walk against a filter over the leaves of the folder, the absolute form of every source path,
  and parsing: the order in which the goroutines finish does not matter.
\<close>

subsection \<open>Absolute paths\<close>

abbreviation abs_path :: "string list \<Rightarrow> string" where
  "abs_path q \<equiv> slash # path q"

lemma split_slash: "split_on slash (slash # s) = [] # split_on slash s"
  by simp

lemma split_path: "list_all part_ok q \<Longrightarrow> split_on slash (path q) = (if q = [] then [[]] else q)"
  by (simp add: split_on_join plain_parts)

lemma part_ok_nonempty: "list_all part_ok q \<Longrightarrow> List.filter (\<lambda>c. c \<noteq> []) q = q"
  by (induction q) (simp_all add: part_ok_def)

lemma parts_path [simp]: "list_all part_ok q \<Longrightarrow> parts (path q) = q"
  by (simp add: parts_def split_path part_ok_nonempty)

lemma parts_abs [simp]: "list_all part_ok q \<Longrightarrow> parts (abs_path q) = q"
  using parts_path [of q] by (simp add: parts_def)

lemma Clean_rooted: "Clean (slash # s) = abs_path (foldl (cleanStep True) [] (split_on slash s))"
  by (simp add: Clean_def Let_def cleanStep_def)

lemma Join_abs: "list_all part_ok q \<Longrightarrow> part_ok n \<Longrightarrow> Join [abs_path q, n] = abs_path (q @ [n])"
proof -
  assume ok: "list_all part_ok q" "part_ok n"
  have "split_on slash (path q @ slash # n) = (if q = [] then [[], n] else q @ [n])"
    using ok path_append [of q "[n]"] split_path [of "q @ [n]"] by (auto simp: split_on_plain part_ok_def)
  then show ?thesis using ok clean_parts [of "q @ [n]" True "[]"] by (simp add: Clean_rooted cleanStep_def part_ok_def)
qed

lemma cleanStep_parts: "list_all part_ok out \<Longrightarrow> slash \<notin> set p \<Longrightarrow> list_all part_ok (cleanStep True out p)"
  by (auto simp: cleanStep_def part_ok_def list_all_iff dest: in_set_butlastD)

lemma foldl_cleanStep: "plain slash ps \<Longrightarrow> list_all part_ok out \<Longrightarrow> list_all part_ok (foldl (cleanStep True) out ps)"
  by (induction ps arbitrary: out) (simp_all add: cleanStep_parts)

lemma Clean_abs: "\<exists>q. Clean (slash # s) = abs_path q \<and> list_all part_ok q"
  using foldl_cleanStep [OF plain_split_on [of slash s], of "[]"] by (auto simp: Clean_rooted)

text \<open>A working directory is absolute.\<close>

lemma Abs_form:
  assumes "Abs (Some (slash # d)) p = Some a"
  obtains q where "a = abs_path q" "list_all part_ok q"
proof (cases "p \<noteq> [] \<and> hd p = slash")
  case True
  then obtain s where "p = slash # s" by (cases p) auto
  then show ?thesis using that assms Clean_abs [of s] by (auto simp: Abs_def)
next
  case False
  then have "a = Clean (slash # d @ slash # p)" using assms by (auto simp: Abs_def)
  then show ?thesis using that Clean_abs [of "d @ slash # p"] by auto
qed

lemma relative_path:
  assumes "list_all part_ok as" "list_all part_ok r"
  shows "buildRelativePath (abs_path as) (abs_path (as @ r)) = Inr (path r)"
proof -
  have tail: "trimPrefix (path r) [slash] = path r" if "r \<noteq> []"
    using path_nonempty [OF assms(2) that] by (cases "path r") (auto simp: trimPrefix_def)
  show ?thesis
  proof (cases "as = [] \<or> r = []")
    case True
    then show ?thesis using tail by (cases "r = []") (auto simp: buildRelativePath_def HasPrefix_def trimPrefix_def)
  next
    case False
    then have "path (as @ r) = path as @ slash # path r" by (simp add: path_append)
    then show ?thesis by (simp add: buildRelativePath_def HasPrefix_def trimPrefix_def)
  qed
qed

subsection \<open>The leaves of a folder\<close>

fun leaves :: "Entry \<Rightarrow> string list list" where
  "leaves (Leaf c) = [[]]"
| "leaves (Folder es failed) = concat (map (\<lambda>(n, e). map ((#) n) (leaves e)) es)"

text \<open>The names of the entries of a folder.\<close>

fun names_ok :: "Entry \<Rightarrow> bool" where
  "names_ok (Leaf c) \<longleftrightarrow> True"
| "names_ok (Folder es failed) \<longleftrightarrow> distinct (map fst es) \<and> list_all (\<lambda>(n, e). part_ok n \<and> names_ok e) es"

definition wanted :: "string list \<Rightarrow> string list \<Rightarrow> string list \<Rightarrow> bool" where
  "wanted ignore as r \<longleftrightarrow> HasSuffix (abs_path (as @ r)) ''.proto'' \<and> [] \<notin> set ignore \<and> set (as @ r) \<inter> set ignore = {}"

definition found :: "string list \<Rightarrow> string list \<Rightarrow> string list list \<Rightarrow> ProtoFile list" where
  "found ignore as rs = map (\<lambda>r. new_file (as @ r) r) (List.filter (wanted ignore as) rs)"

lemma found_simps [simp]: "found ignore as [] = []"
  "found ignore as (rs @ rs') = found ignore as rs @ found ignore as rs'"
  by (simp_all add: found_def)

lemma ignored_parts:
  assumes "list_all part_ok q"
  shows "list_ex (\<lambda>part. part \<in> set ignore) (split_on slash (abs_path q)) \<longleftrightarrow> [] \<in> set ignore \<or> set q \<inter> set ignore \<noteq> {}"
  using assms by (auto simp: split_path list_ex_iff)

lemma walkFn_leaf:
  assumes "list_all part_ok as" "list_all part_ok r"
  shows "walkFn (abs_path as) ignore (abs_path (as @ r)) (Some False) None files = Inr (None, files @ found ignore as [r])"
  using assms relative_path [OF assms] ignored_parts [of "as @ r" ignore]
  by (simp add: walkFn_def found_def wanted_def del: split_on.simps)

lemma walkFn_folder: "walkFn a ignore p (Some True) err files = Inr (None, files)"
  by (simp add: walkFn_def)

lemma walkDir_found:
  assumes "list_all part_ok as" "names_ok e" "list_all part_ok q"
  shows "walkDir (walkFn (abs_path as) ignore) (abs_path (as @ q)) e files = Inr (None, files @ found ignore as (map ((@) q) (leaves e)))"
  using assms(2,3)
proof (induction e arbitrary: q files)
  case (Leaf c)
  then show ?case using walkFn_leaf [OF assms(1)] by simp
next
  case (Folder es failed)
  have "walkEntries (walkFn (abs_path as) ignore) (abs_path (as @ q)) fs files'
      = Inr (None, files' @ found ignore as (map ((@) q) (leaves (Folder fs failed))))"
    if "set fs \<subseteq> set es" for fs files'
    using that
  proof (induction fs arbitrary: files')
    case (Cons x fs)
    obtain n e where x: "x = (n, e)" by force
    then have "(n, e) \<in> set es" using Cons.prems by simp
    then have e: "names_ok e" "part_ok n" and n: "list_all part_ok (q @ [n])"
      using Folder.prems by (auto simp: list_all_iff)
    have "Join [abs_path (as @ q), n] = abs_path (as @ (q @ [n]))"
      using Join_abs [of "as @ q" n] assms(1) Folder.prems(2) e(2) by simp
    moreover have "walkDir (walkFn (abs_path as) ignore) (abs_path (as @ (q @ [n]))) e files'
        = Inr (None, files' @ found ignore as (map ((@) (q @ [n])) (leaves e)))"
      by (rule Folder.IH [OF \<open>(n, e) \<in> set es\<close> _ e(1) n]) simp
    moreover have "map ((@) (q @ [n])) (leaves e) = map ((@) q) (map ((#) n) (leaves e))" by simp
    ultimately show ?case using Cons by (simp add: x del: Join.simps)
  qed simp
  from this [of es] show ?case by (simp add: walkFn_folder)
qed

lemma FindAll_found:
  assumes "Abs workDir cwd = Some (abs_path as)" "list_all part_ok as" "lookup disk as = Some e" "names_ok e"
  shows "FindAllProtobufFiles workDir disk cwd ignore = Inr (found ignore as (leaves e))"
proof -
  have "map ((@) []) (leaves e) = leaves e" by (simp add: map_idI)
  then show ?thesis using assms walkDir_found [OF assms(2,4), of "[]" ignore "[]"]
    by (simp add: FindAllProtobufFiles_def WalkDir_def)
qed

text \<open>A source path that does not exist is passed to the function without an entry.\<close>

lemma FindAll_missing:
  assumes "Abs workDir cwd = Some (abs_path as)" "list_all part_ok as" "lookup disk as = None"
  shows "FindAllProtobufFiles workDir disk cwd ignore = Inl Panic"
  using assms by (simp add: FindAllProtobufFiles_def WalkDir_def walkFn_def)

subsection \<open>Different leaves, and what is read at them\<close>

lemma leaves_distinct: "names_ok e \<Longrightarrow> distinct (leaves e)"
proof (induction e)
  case (Folder es failed)
  have "distinct (leaves (Folder fs failed))" if "set fs \<subseteq> set es" "distinct (map fst fs)" for fs
    using that
  proof (induction fs)
    case (Cons x fs)
    obtain n e where x: "x = (n, e)" by force
    then have "distinct (leaves e)" using Folder.IH [of "(n, e)" e] Folder.prems Cons.prems(1) by (auto simp: list_all_iff)
    then show ?case using Cons by (force simp: x distinct_map)
  qed simp
  then show ?case using Folder.prems by simp
qed simp

lemma leaves_parts: "names_ok e \<Longrightarrow> r \<in> set (leaves e) \<Longrightarrow> list_all part_ok r"
  by (induction e arbitrary: r) (fastforce simp: list_all_iff)+

lemma lookup_append: "lookup disk (p @ q) = (case lookup disk p of None \<Rightarrow> None | Some e \<Rightarrow> lookup e q)"
  by (induction disk p rule: lookup.induct) (auto split: option.splits)

lemma lookup_leaf: "names_ok e \<Longrightarrow> r \<in> set (leaves e) \<Longrightarrow> \<exists>c. lookup e r = Some (Leaf c)"
proof (induction e arbitrary: r)
  case (Folder es failed)
  then obtain n e r' where e: "(n, e) \<in> set es" "r = n # r'" "r' \<in> set (leaves e)" by auto
  then have "map_of es n = Some e" using Folder.prems(1) by simp
  then show ?case using Folder e by (auto simp: list_all_iff)
qed simp

subsection \<open>Parsing\<close>

definition parsedFile :: "Entry \<Rightarrow> (string \<Rightarrow> Visitee list option) \<Rightarrow> ProtoFile \<Rightarrow> parse_error + Visitee list" where
  "parsedFile disk parser f =
     (case openFile disk (pr_path f) of None \<Rightarrow> Inl CannotOpen
      | Some content \<Rightarrow> (case parser content of None \<Rightarrow> Inl Malformed | Some visited \<Rightarrow> Inr visited))"

lemma parseFile_result: "parseFile disk parser files i (ps, es) =
    (case parsedFile disk parser (files ! i) of Inl e \<Rightarrow> (ps, es[i := Some e]) | Inr v \<Rightarrow> (ps[i := Some v], es))"
  by (simp add: parseFile_def parsedFile_def split: option.splits)

definition arrays_ok :: "Entry \<Rightarrow> (string \<Rightarrow> Visitee list option) \<Rightarrow> ProtoFile list \<Rightarrow> nat set \<Rightarrow>
    Visitee list option list \<times> parse_error option list \<Rightarrow> bool" where
  "arrays_ok disk parser files done a \<longleftrightarrow> length (fst a) = length files \<and> length (snd a) = length files
     \<and> (\<forall>i < length files. (fst a ! i, snd a ! i) =
          (if i \<in> done then (case parsedFile disk parser (files ! i) of Inl e \<Rightarrow> (None, Some e) | Inr v \<Rightarrow> (Some v, None))
           else (None, None)))"

lemma parseFile_ok:
  assumes "arrays_ok disk parser files done a" "i < length files"
  shows "arrays_ok disk parser files (insert i done) (parseFile disk parser files i a)"
  using assms by (cases a; cases "parsedFile disk parser (files ! i)"; cases "i \<in> done")
    (fastforce simp: arrays_ok_def parseFile_result nth_list_update)+

lemma parse_all:
  "arrays_ok disk parser files done a \<Longrightarrow> set order \<subseteq> {..<length files} \<Longrightarrow>
    arrays_ok disk parser files (done \<union> set order) (fold (parseFile disk parser files) order a)"
proof (induction order arbitrary: "done" a)
  case (Cons i order)
  then have "arrays_ok disk parser files (insert i done) (parseFile disk parser files i a)"
    by (simp add: parseFile_ok)
  with Cons show ?case by fastforce
qed simp

text \<open>Whatever the order, the result is that of parsing the files one after the other.\<close>

fun parse_in_order :: "(ProtoFile \<Rightarrow> parse_error + Visitee list) \<Rightarrow> ProtoFile list \<Rightarrow>
    (string list \<times> parse_error) fault + (ProtoFile \<times> Visitee list) list" where
  "parse_in_order parsed [] = Inr []"
| "parse_in_order parsed (f # fs) =
     (case parsed f of Inl e \<Rightarrow> Inl (Fail (pr_path f, e))
      | Inr v \<Rightarrow> fmapE ((#) (f, v)) (parse_in_order parsed fs))"

lemma parse_in_order_find:
  "parse_in_order parsed files =
    (case List.find (\<lambda>f. case parsed f of Inl e \<Rightarrow> True | Inr v \<Rightarrow> False) files of
       Some f \<Rightarrow> Inl (Fail (pr_path f, projl (parsed f)))
     | None \<Rightarrow> Inr (map (\<lambda>f. (f, projr (parsed f))) files))"
  by (induction files) (auto split: sum.splits option.splits)

lemma find_nth: "List.find P xs = map_option ((!) xs) (List.find (\<lambda>i. P (xs ! i)) [0..<length xs])"
proof -
  have "List.find P (map ((!) xs) is) = map_option ((!) xs) (List.find (\<lambda>i. P (xs ! i)) is)" for "is" :: "nat list"
    by (induction "is") simp_all
  from this [of "[0..<length xs]"] show ?thesis by (simp add: map_nth)
qed

lemma find_cong: "(\<And>x. x \<in> set xs \<Longrightarrow> P x = Q x) \<Longrightarrow> List.find P xs = List.find Q xs"
  by (induction xs) auto

lemma ParseProtoFiles_order:
  assumes "set order = {..<length files}"
  shows "ParseProtoFiles order disk parser files = parse_in_order (parsedFile disk parser) files"
proof -
  let ?none = "replicate (length files) None" and ?failed = "\<lambda>f. case parsedFile disk parser f of Inl e \<Rightarrow> True | Inr v \<Rightarrow> False"
  obtain ps es where a: "fold (parseFile disk parser files) order (?none, ?none) = (ps, es)" by force
  have "arrays_ok disk parser files {} (?none, ?none)" by (simp add: arrays_ok_def)
  from parse_all [OF this, of order] a assms have ok: "arrays_ok disk parser files {..<length files} (ps, es)" by simp
  have at: "(ps ! i, es ! i) = (case parsedFile disk parser (files ! i) of Inl e \<Rightarrow> (None, Some e) | Inr v \<Rightarrow> (Some v, None))"
    if "i < length files" for i using ok that by (simp add: arrays_ok_def)
  have find: "List.find (\<lambda>i. es ! i \<noteq> None) [0..<length files] = List.find (\<lambda>i. ?failed (files ! i)) [0..<length files]"
    by (rule find_cong) (use at in \<open>fastforce split: sum.splits\<close>)
  show ?thesis
  proof (cases "List.find (\<lambda>i. ?failed (files ! i)) [0..<length files]")
    case None
    have "zip files (map the ps) = map (\<lambda>f. (f, projr (parsedFile disk parser f))) files"
    proof (rule nth_equalityI)
      fix i assume "i < length (zip files (map the ps))"
      then have i: "i < length files" by simp
      then have "\<not> ?failed (files ! i)" using None by (simp add: find_None_iff)
      then show "zip files (map the ps) ! i = map (\<lambda>f. (f, projr (parsedFile disk parser f))) files ! i"
        using at [OF i] i ok by (simp add: arrays_ok_def split: sum.splits)
    qed (use ok in \<open>simp add: arrays_ok_def\<close>)
    then show ?thesis using None a
      by (simp add: ParseProtoFiles_def Let_def parse_in_order_find find_nth [of ?failed] find del: not_None_eq)
  next
    case (Some i)
    then have i: "i < length files" "?failed (files ! i)" by (auto simp: find_Some_iff)
    then show ?thesis using at [OF i(1)] Some a
      by (simp add: ParseProtoFiles_def Let_def parse_in_order_find find_nth [of ?failed] find del: not_None_eq split: sum.splits)
  qed
qed

end
