(* ===== verification/Gremlinc_Run.thy ===== *)
theory Gremlinc_Run
  imports Go_Linking Go_Templates Gremlinc_Files
begin

section \<open>A run of gremlinc\<close>

text \<open>
  \<^verbatim>\<open>shared/gremlin_go/gremlinc/main.go\<close>: the flags, and the stages from the folder of proto files to the Go
  files written. What the run finds on the machine is \<open>env\<close>: the disk, the working directory,
  which folders and files the system refuses to create, the parser of \<^verbatim>\<open>emicklei/proto\<close> and the
  order in which the goroutines that parse files finish.
\<close>

record env =
  workDir :: "string option"
  disk :: Entry
  canCreate :: "string \<Rightarrow> bool"
  refuses :: "string \<Rightarrow> bool"
  parser :: "string \<Rightarrow> Visitee list option"
  finishOrder :: "nat \<Rightarrow> nat list"

record flags =
  srcPath :: string
  outPath :: string
  modulePath :: string
  ignorePatterns :: string

text \<open>\<^verbatim>\<open>strings.TrimSpace\<close>, for ASCII\<close>

definition isSpace :: "char \<Rightarrow> bool" where
  "isSpace c \<longleftrightarrow> (let n = of_char c :: nat in n = 32 \<or> 9 \<le> n \<and> n \<le> 13)"

definition TrimSpace :: "string \<Rightarrow> string" where
  "TrimSpace s = rev (dropWhile isSpace (rev (dropWhile isSpace s)))"

definition ignoreList :: "string \<Rightarrow> string list" where
  "ignoreList patterns =
     (if patterns \<noteq> [] then map TrimSpace (split_on (CHR '','') patterns) else DefaultIgnorePatterns)"

text \<open>How the program ends: a missing flag or an ambiguous folder is fatal, errors are printed before \<open>Exit(-1)\<close>.\<close>

datatype report = FrontError gen_error | MapError map_error | WriteError string

datatype outcome = MissingFlag string | Aborted fatal | Panicked | Reported "report list" | Completed

text \<open>The loop of \<open>Generate\<close> over the files, up to one whose code panics; the error of creating the folder
  is dropped.\<close>

fun writeFiles :: "(string \<Rightarrow> bool) \<Rightarrow> (string \<times> (unit fault + string)) list \<Rightarrow> (string \<rightharpoonup> string) \<times> string list \<Rightarrow>
    bool \<times> (string \<rightharpoonup> string) \<times> string list" where
  "writeFiles refused [] s = (True, s)"
| "writeFiles refused ((p, content) # fs) (written, errors) =
     (case content of
        Inl _ \<Rightarrow> (False, written, errors)
      | Inr code \<Rightarrow>
          writeFiles refused fs (if refused p then (written, errors @ [p]) else (written(p \<mapsto> code), errors)))"

definition backEnd :: "env \<Rightarrow> flags \<Rightarrow> ProtoFile list \<Rightarrow> outcome \<times> (string \<rightharpoonup> string)" where
  "backEnd E F parsed =
     (case Generate (outPath F) (modulePath F) parsed of
        Inl _ \<Rightarrow> (Panicked, Map.empty)
      | Inr (files, errors) \<Rightarrow>
          if length errors > 0 then (Reported (map MapError errors), Map.empty)
          else let (returned, written, failed) = writeFiles (refuses E) files (Map.empty, [])
               in (if \<not> returned then Panicked
                   else if length failed > 0 then Reported (map WriteError failed) else Completed, written))"

definition frontEnd :: "env \<Rightarrow> flags \<Rightarrow> (ProtoFile \<times> Visitee list) list \<Rightarrow> outcome \<times> (string \<rightharpoonup> string)" where
  "frontEnd E F targets =
     (let (parsed, errors) = ParseStruct targets in
      if length errors > 0 then (Reported (map FrontError errors), Map.empty)
      else case ResolveImportsAndReferences parsed of
        Inl (Exit e) \<Rightarrow> (Aborted e, Map.empty)
      | Inl Crash \<Rightarrow> (Panicked, Map.empty)
      | Inr (parsed, errors) \<Rightarrow>
          if length errors > 0 then (Reported (map FrontError errors), Map.empty)
          else backEnd E F parsed)"

definition gremlinc :: "env \<Rightarrow> flags \<Rightarrow> outcome \<times> (string \<rightharpoonup> string)" where
  "gremlinc E F =
     (if srcPath F = [] then (MissingFlag ''src'', Map.empty)
      else if outPath F = [] then (MissingFlag ''out'', Map.empty)
      else if \<not> canCreate E (outPath F) then (Panicked, Map.empty)
      else case FindAllProtobufFiles (workDir E) (disk E) (srcPath F) (ignoreList (ignorePatterns F)) of
        Inl _ \<Rightarrow> (Panicked, Map.empty)
      | Inr targets \<Rightarrow>
          (case ParseProtoFiles (finishOrder E (length targets)) (disk E) (parser E) targets of
             Inl _ \<Rightarrow> (Panicked, Map.empty)
           | Inr targets \<Rightarrow> frontEnd E F targets))"

subsection \<open>Where the files are\<close>

text \<open>No pass changes the path of a file.\<close>

definition locations :: "ProtoFile list \<Rightarrow> (string list \<times> string list) list" where
  "locations fs = map (\<lambda>f. (pr_path f, pr_relative f)) fs"

lemma locations_update: "pr_path f = pr_path (fs ! i) \<Longrightarrow> pr_relative f = pr_relative (fs ! i) \<Longrightarrow> locations (fs[i := f]) = locations fs"
  by (cases "i < length fs") (simp_all add: locations_def map_update list_update_same_conv list_update_beyond)

lemma passFiles_locations:
  assumes "\<And>parsed f. pr_path (fst (pass parsed f)) = pr_path f \<and> pr_relative (fst (pass parsed f)) = pr_relative f"
  shows "locations (fst (passFiles pass is parsed)) = locations parsed"
proof (induction "is" arbitrary: parsed)
  case (Cons i "is")
  have "locations (parsed[i := fst (pass parsed (parsed ! i))]) = locations parsed"
    using assms [of parsed "parsed ! i"] by (intro locations_update) simp_all
  with Cons.IH show ?case by (simp add: case_prod_unfold Let_def)
qed simp

lemma walkHandler_location: "pr_path (fst (walkHandler v s)) = pr_path (fst s) \<and> pr_relative (fst (walkHandler v s)) = pr_relative (fst s)"
  by (cases v; cases s) (simp_all add: walkHandler_def case_prod_unfold Let_def)

lemma ParseStruct_locations: "locations (fst (ParseStruct targets)) = locations (map fst targets)"
proof -
  have "pr_path (fst (fold walkHandler vs s)) = pr_path (fst s) \<and> pr_relative (fst (fold walkHandler vs s)) = pr_relative (fst s)" for vs s
    by (induction vs arbitrary: s) (simp_all add: walkHandler_location)
  then show ?thesis by (simp add: ParseStruct_def locations_def extractProtoStruct_def case_prod_unfold Let_def)
qed

lemma addPublicImports_locations: "locations (addAllPublicImports parsed) = locations parsed"
proof -
  have "locations (addPublic i fs imp) = locations fs" for i fs imp
    by (cases "im_target imp") (simp_all add: addPublic_def locations_update)
  then have "locations (foldl (addPublic i) fs imps) = locations fs" for i fs imps
    by (induction imps arbitrary: fs) simp_all
  then have "locations (foldl (\<lambda>fs i. addPublicImports i fs) fs is) = locations fs" for fs "is"
    by (induction "is" arbitrary: fs) (simp_all add: addPublicImports_def)
  then show ?thesis by (simp add: addAllPublicImports_def)
qed

lemma set_bases_locations: "locations (set_bases bs fs) = locations fs"
  by (induction bs arbitrary: fs) (auto simp: set_bases_def locations_update split: prod.splits)

lemma optionPass_locations: "optionPass is parsed = Inr parsed' \<Longrightarrow> locations parsed' = locations parsed"
proof (induction "is" arbitrary: parsed)
  case (Cons i "is")
  then obtain f where f: "resolveOptions (parsed ! i) = Inr f" "optionPass is (parsed[i := f]) = Inr parsed'"
    by (auto simp: andThen_eq_Inr)
  moreover from f(1) have "locations (parsed[i := f]) = locations parsed"
    by (intro locations_update) (auto simp: resolveOptions_def andThen_eq_Inr)
  ultimately show ?case using Cons.IH [OF f(2)] by simp
qed simp

lemma resolve_locations:
  assumes "ResolveImportsAndReferences parsed = Inr (parsed', errors)"
  shows "locations parsed' = locations parsed"
proof -
  obtain p0 where p0: "resolveBaseFolders parsed = Inr p0"
    using assms by (cases "resolveBaseFolders parsed") (auto simp: ResolveImportsAndReferences_def)
  then have "locations p0 = locations parsed"
    by (auto simp: resolveBaseFolders_def Let_def set_bases_locations split: if_splits)
  moreover have "locations (fst (passFiles resolveImports is fs)) = locations fs"
    "locations (fst (passFiles resolveExtensions is fs)) = locations fs"
    "locations (fst (passFiles resolveReferences is fs)) = locations fs" for "is" fs
    by (rule passFiles_locations; simp add: resolveImports_def resolveExtensions_def resolveReferences_def Let_def case_prod_unfold)+
  ultimately show ?thesis using assms p0 optionPass_locations addPublicImports_locations
    by (auto simp: ResolveImportsAndReferences_def Let_def case_prod_unfold split: sum.splits)
qed

end
