(* ===== verification/Gremlinc_Results.thy ===== *)
theory Gremlinc_Results
  imports Gremlinc_Run Go_Text
begin

section \<open>What a run of gremlinc writes\<close>

subsection \<open>Writing\<close>

lemma writeFiles_all:
  assumes "list_all (\<lambda>(p, c). \<not> refused p) fs"
  shows "writeFiles refused (map (\<lambda>(p, c). (p, Inr c)) fs) (m, []) = (True, m ++ map_of (rev fs), [])"
  using assms by (induction fs arbitrary: m) (auto simp: map_add_upd_left)

text \<open>The last file with a path keeps it.\<close>

definition kept :: "(nat \<Rightarrow> string) \<Rightarrow> nat \<Rightarrow> nat \<Rightarrow> bool" where
  "kept p n k \<longleftrightarrow> list_all (\<lambda>l. p l \<noteq> p k) [Suc k..<n]"

lemma map_of_kept:
  assumes "k < n" "kept p n k"
  shows "map_of (rev (map (\<lambda>k. (p k, c k)) [0..<n])) (p k) = Some (c k)"
proof -
  have "[0..<n] = [0..<k] @ k # [Suc k..<n]"
    using assms(1) upt_add_eq_append [of 0 k "n - k"] upt_conv_Cons by simp
  moreover have "map_of (rev (map (\<lambda>k. (p k, c k)) [Suc k..<n])) (p k) = None"
    using assms(2) by (force simp: kept_def map_of_eq_None_iff list_all_iff)
  ultimately show ?thesis by (simp add: map_add_def)
qed

text \<open>The code of the file mapped from the proto file \<open>k\<close>.\<close>

definition file_code :: "ProtoFile list \<Rightarrow> GoGeneratedFile list \<Rightarrow> nat \<Rightarrow> string" where
  "file_code parsed goFiles k = projr (GenerateCode (RelativePath (parsed ! k)) (goFiles ! k))"

lemma file_code_mapped:
  assumes "files_mapped root m parsed goFiles" "k < length parsed"
  shows "GenerateCode (RelativePath (parsed ! k)) (goFiles ! k) = Inr (file_code parsed goFiles k)"
proof -
  have "mapped (package_paths root m parsed) (output_paths root parsed) parsed k (goFiles ! k)"
    using assms by (simp add: files_mapped_def)
  with GenerateCode_total [OF mapped_typed [OF this], of "RelativePath (parsed ! k)"] show ?thesis
    by (auto simp: file_code_def)
qed

lemma GenerateCode_files:
  assumes "files_mapped root m parsed goFiles" "MapProtoFiles root m parsed = Inr (goFiles, [])"
  shows "Generate root m parsed = Inr (map (\<lambda>(p, c). (p, Inr c))
    (map (\<lambda>k. (output_paths root parsed k, file_code parsed goFiles k)) [0..<length parsed]), [])"
proof -
  have "FullOutputPath (goFiles ! k) = output_paths root parsed k \<and> protoFile (goFiles ! k) = k" if "k < length parsed" for k
    using assms(1) that by (simp add: files_mapped_def mapped_def mapping_def placed_def shape_def)
  moreover have "length goFiles = length parsed" using assms(1) by (simp add: files_mapped_def)
  ultimately show ?thesis using assms(2) file_code_mapped [OF assms(1)]
    by (auto simp: Generate_def intro!: nth_equalityI)
qed

subsection \<open>From a folder to the Go files\<close>

definition read_sources :: "env \<Rightarrow> ProtoFile list \<Rightarrow> (string list \<times> string list \<times> Visitee list) list" where
  "read_sources E files = map (\<lambda>f. (pr_path f, pr_relative f, projr (parsedFile (disk E) (parser E) f))) files"

definition readable :: "env \<Rightarrow> ProtoFile list \<Rightarrow> bool" where
  "readable E files \<longleftrightarrow> list_all (\<lambda>f. case parsedFile (disk E) (parser E) f of
     Inl e \<Rightarrow> False | Inr vs \<Rightarrow> list_all node_keys_scalar vs) files"

text \<open>The proto files of the source folder, in the order of the walk.\<close>

definition proto_files :: "flags \<Rightarrow> string list \<Rightarrow> Entry \<Rightarrow> ProtoFile list" where
  "proto_files F as e = found (ignoreList (ignorePatterns F)) as (leaves e)"

definition written_right :: "env \<Rightarrow> flags \<Rightarrow> ProtoFile list \<Rightarrow> ProtoFile list \<Rightarrow> GoGeneratedFile list \<Rightarrow> (string \<rightharpoonup> string) \<Rightarrow> bool" where
  "written_right E F files parsed goFiles d \<longleftrightarrow>
     files_mapped (outPath F) (modulePath F) parsed goFiles
     \<and> locations parsed = locations files
     \<and> dom d = set (map (output_paths (outPath F) parsed) [0..<length files])
     \<and> (\<forall>k < length files. kept (output_paths (outPath F) parsed) (length files) k \<longrightarrow>
          (\<exists>code. GenerateCode (RelativePath (parsed ! k)) (goFiles ! k) = Inr code \<and> d (output_paths (outPath F) parsed k) = Some code))"

definition starts :: "env \<Rightarrow> flags \<Rightarrow> string list \<Rightarrow> Entry \<Rightarrow> bool" where
  "starts E F as e \<longleftrightarrow> srcPath F \<noteq> [] \<and> outPath F \<noteq> [] \<and> canCreate E (outPath F)
     \<and> Abs (workDir E) (srcPath F) = Some (abs_path as) \<and> list_all part_ok as
     \<and> lookup (disk E) as = Some e \<and> names_ok e \<and> (\<forall>n. set (finishOrder E n) = {..<n})"

lemma parse_in_order_all:
  "list_all (\<lambda>f. case p f of Inl e \<Rightarrow> False | Inr v \<Rightarrow> Q v) fs \<Longrightarrow>
    parse_in_order p fs = Inr (map (\<lambda>f. (f, projr (p f))) fs)"
  by (induction fs) (auto split: sum.splits)

lemma gremlinc_front:
  assumes "starts E F as e" and "readable E (proto_files F as e)"
  shows "gremlinc E F = frontEnd E F (map (\<lambda>(p, rel, vs). (new_file p rel, vs)) (read_sources E (proto_files F as e)))"
proof -
  let ?files = "proto_files F as e" and ?parsed = "parsedFile (disk E) (parser E)"
  have "FindAllProtobufFiles (workDir E) (disk E) (srcPath F) (ignoreList (ignorePatterns F)) = Inr ?files"
    using assms(1) FindAll_found by (simp add: starts_def proto_files_def)
  moreover have "ParseProtoFiles (finishOrder E (length ?files)) (disk E) (parser E) ?files = Inr (map (\<lambda>f. (f, projr (?parsed f))) ?files)"
    using assms ParseProtoFiles_order [of "finishOrder E (length ?files)" ?files] parse_in_order_all [where p = ?parsed and fs = ?files]
    by (simp add: starts_def readable_def)
  moreover have "map (\<lambda>(p, rel, vs). (new_file p rel, vs)) (read_sources E ?files) = map (\<lambda>f. (f, projr (?parsed f))) ?files"
    by (auto simp: read_sources_def proto_files_def found_def new_file_def)
  ultimately show ?thesis using assms(1) by (simp add: gremlinc_def starts_def)
qed

lemma gremlinc_completes:
  assumes "starts E F as e" and "readable E (proto_files F as e)"
    and "snd (ParseStruct (map (\<lambda>(p, rel, vs). (new_file p rel, vs)) (read_sources E (proto_files F as e)))) = []"
    and "ResolveImportsAndReferences (parsed_sources (read_sources E (proto_files F as e))) = Inr (parsed, [])"
    and "\<not> list_ex (\<lambda>f. refuses E (buildOutputPath (outPath F) f)) parsed"
  shows "\<exists>goFiles d. gremlinc E F = (Completed, d) \<and> written_right E F (proto_files F as e) parsed goFiles d"
proof -
  let ?files = "proto_files F as e" and ?sources = "read_sources E (proto_files F as e)"
  let ?op = "output_paths (outPath F) parsed"
  have "list_all node_keys_scalar (projr (parsedFile (disk E) (parser E) f))" if "f \<in> set ?files" for f
    using assms(2) that by (cases "parsedFile (disk E) (parser E) f") (force simp: readable_def list_all_iff)+
  then have "list_all (\<lambda>(p, rel, vs). list_all node_keys_scalar vs) ?sources"
    by (auto simp: read_sources_def list_all_iff)
  from generator_maps_result [OF this assms(4)] obtain goFiles where
    go: "MapProtoFiles (outPath F) (modulePath F) parsed = Inr (goFiles, [])" "files_mapped (outPath F) (modulePath F) parsed goFiles"
    by blast
  let ?out = "map (\<lambda>k. (?op k, file_code parsed goFiles k)) [0..<length parsed]"
  have "Generate (outPath F) (modulePath F) parsed = Inr (map (\<lambda>(p, c). (p, Inr c)) ?out, [])"
    by (rule GenerateCode_files [OF go(2,1)])
  moreover have "writeFiles (refuses E) (map (\<lambda>(p, c). (p, Inr c)) ?out) (Map.empty, []) = (True, Map.empty ++ map_of (rev ?out), [])"
    by (rule writeFiles_all) (use assms(5) in \<open>auto simp: output_paths_def list_all_iff list_ex_iff\<close>)
  ultimately have "backEnd E F parsed = (Completed, map_of (rev ?out))" by (simp add: backEnd_def)
  then have run: "gremlinc E F = (Completed, map_of (rev ?out))"
    using assms(3,4) gremlinc_front [OF assms(1,2)] by (simp add: frontEnd_def parsed_sources_def case_prod_unfold Let_def)
  have loc: "locations parsed = locations ?files"
    using resolve_locations [OF assms(4)] ParseStruct_locations
    by (auto simp: parsed_sources_def locations_def read_sources_def new_file_def)
  then have len: "length parsed = length ?files" by (metis length_map locations_def)
  have "dom (map_of (rev ?out)) = set (map ?op [0..<length ?files])" by (force simp: dom_map_of_conv_image_fst len)
  moreover have "\<exists>code. GenerateCode (RelativePath (parsed ! k)) (goFiles ! k) = Inr code \<and> map_of (rev ?out) (?op k) = Some code"
    if "k < length parsed" "kept ?op (length parsed) k" for k
    using map_of_kept [OF that, of "file_code parsed goFiles"] file_code_mapped [OF go(2) that(1)] by blast
  ultimately have "written_right E F ?files parsed goFiles (map_of (rev ?out))"
    using go(2) loc by (simp add: written_right_def len)
  with run show ?thesis by blast
qed

text \<open>A folder with two proto files, one that is none and one in an ignored folder.\<close>

definition demo_folder :: Entry where
  "demo_folder = Folder [(''node_modules'', Folder [(''z.proto'', Leaf None)] False), (''readme.md'', Leaf (Some [])),
     (''x.proto'', Leaf (Some ''X'')), (''y.proto'', Leaf (Some ''Y''))] False"

definition demo_env :: env where
  "demo_env = \<lparr>workDir = Some ''/w'', disk = Folder [(''p'', demo_folder)] False, canCreate = (\<lambda>p. True), refuses = (\<lambda>p. False),
     parser = (\<lambda>c. if c = ''X'' then Some (snd (snd (demo_sources ! 0)))
                else if c = ''Y'' then Some (snd (snd (demo_sources ! 1))) else None),
     finishOrder = (\<lambda>n. rev [0..<n])\<rparr>"

definition demo_flags :: flags where
  "demo_flags = \<lparr>srcPath = ''../p/.'', outPath = ''out'', modulePath = ''mod'', ignorePatterns = []\<rparr>"

lemma demo_starts: "starts demo_env demo_flags [''p''] demo_folder"
proof -
  have "Abs (workDir demo_env) (srcPath demo_flags) = Some (abs_path [''p''])" by code_simp
  moreover have "list_all part_ok [''p'']" "names_ok demo_folder" by code_simp+
  moreover have "lookup (disk demo_env) [''p''] = Some demo_folder" by (simp add: demo_env_def)
  moreover have "srcPath demo_flags \<noteq> [] \<and> outPath demo_flags \<noteq> [] \<and> canCreate demo_env (outPath demo_flags)"
    by (simp add: demo_flags_def demo_env_def)
  ultimately show ?thesis by (auto simp: starts_def demo_env_def)
qed

lemma demo_read: "read_sources demo_env (proto_files demo_flags [''p''] demo_folder) = demo_sources"
  by code_simp

lemma demo_readable: "readable demo_env (proto_files demo_flags [''p''] demo_folder)"
  by code_simp

lemma demo_struct: "snd (ParseStruct (map (\<lambda>(p, rel, vs). (new_file p rel, vs)) demo_sources)) = []"
proof -
  have "length (snd (ParseStruct (map (\<lambda>(p, rel, vs). (new_file p rel, vs)) demo_sources))) = 0" by code_simp
  then show ?thesis by simp
qed



subsection \<open>Runs that find nothing\<close>

lemma no_files_aborts:
  assumes "starts E F as e" and "proto_files F as e = []"
  shows "gremlinc E F = (Aborted (NoFiles []), Map.empty)"
proof -
  have "ResolveImportsAndReferences [] = Inl (Exit (NoFiles []))"
    by (simp add: ResolveImportsAndReferences_def resolveBaseFolders_def buildTree_def)
  then show ?thesis using gremlinc_front [OF assms(1)] assms(2)
    by (simp add: readable_def read_sources_def frontEnd_def ParseStruct_def)
qed

text \<open>C38: the ignored names are looked for on the whole absolute path of a file, and its first component
  is empty. So when a folder on the way to the source folder has an ignored name, or the list of patterns has
  an empty one (a trailing comma), no file is found, and the run ends with the message that there are no
  proto files and without writing anything.\<close>

theorem gremlinc_finds_nothing:
  assumes "starts E F as e" and "list_ex (\<lambda>n. n \<in> set (ignoreList (ignorePatterns F))) ([] # as)"
  shows "gremlinc E F = (Aborted (NoFiles []), Map.empty)"
proof (rule no_files_aborts [OF assms(1)])
  have "\<not> wanted (ignoreList (ignorePatterns F)) as r" for r
    using assms(2) by (auto simp: wanted_def list_ex_iff)
  then show "proto_files F as e = []" by (simp add: proto_files_def found_def)
qed

lemma gremlinc_finds_nothing_witness:
  "gremlinc demo_env (demo_flags\<lparr>ignorePatterns := ''vendor, ''\<rparr>) = (Aborted (NoFiles []), Map.empty)"
proof (rule gremlinc_finds_nothing)
  show "starts demo_env (demo_flags\<lparr>ignorePatterns := ''vendor, ''\<rparr>) [''p''] demo_folder"
    using demo_starts by (simp add: starts_def)
  show "list_ex (\<lambda>n. n \<in> set (ignoreList (ignorePatterns (demo_flags\<lparr>ignorePatterns := ''vendor, ''\<rparr>)))) [[], ''p'']"
    by code_simp
qed

text \<open>A source folder that does not exist: the function of the walk is called without an entry, and reads
  its kind before it looks at the error.\<close>

lemma missing_source_panics:
  assumes "srcPath F \<noteq> []" "outPath F \<noteq> []" "Abs (workDir E) (srcPath F) = Some (abs_path as)" "list_all part_ok as"
    and "lookup (disk E) as = None"
  shows "gremlinc E F = (Panicked, Map.empty)"
  using assms FindAll_missing by (simp add: gremlinc_def)

text \<open>A folder that cannot be read is passed over like an empty one.\<close>

lemma unreadable_folder_skipped:
  assumes "Abs dir src = Some (abs_path as)" "list_all part_ok as"
    and "lookup d as = Some (Folder [] failed)"
  shows "FindAllProtobufFiles dir d src ignore = Inr []"
  using FindAll_found [OF assms] by simp

end
