(* ===== verification/Gremlinc_Tools.thy ===== *)
theory Gremlinc_Tools
  imports Gremlinc_Files
begin

section \<open>The root of a project\<close>

text \<open>
  The search for the root of a project of \<^verbatim>\<open>gremlinc/internal/pathutils/pathutils.go\<close>.
\<close>

definition ReadDir :: "string option \<Rightarrow> Entry \<Rightarrow> string \<Rightarrow> string list option" where
  "ReadDir workDir disk p =
     (if p = [] then None
      else case Abs workDir p of
        None \<Rightarrow> None
      | Some a \<Rightarrow> (case lookup disk (parts a) of Some (Folder es False) \<Rightarrow> Some (map fst es) | _ \<Rightarrow> None))"

datatype search_error = TooDeep int | CannotRead | NoDirectory

function searchProjectRootFromTopToBottom :: "string option \<Rightarrow> Entry \<Rightarrow> string \<Rightarrow> int \<Rightarrow> int \<Rightarrow> search_error + string" where
  "searchProjectRootFromTopToBottom workDir disk currentPath depth maxDepth =
     (if depth > maxDepth then Inl (TooDeep depth)
      else case ReadDir workDir disk currentPath of
        None \<Rightarrow> Inl CannotRead
      | Some files \<Rightarrow>
          if list_ex (\<lambda>f. f = ''Makefile'') files then Inr currentPath
          else (case Abs workDir (currentPath @ ''/..'') of
             None \<Rightarrow> Inl NoDirectory
           | Some p \<Rightarrow> searchProjectRootFromTopToBottom workDir disk p (depth + 1) maxDepth))"
  by pat_completeness auto

termination
  by (relation "measure (\<lambda>(_, _, _, depth, maxDepth). nat (maxDepth + 1 - depth))") auto

declare searchProjectRootFromTopToBottom.simps [simp del]

definition GetProjectRootByMakefile :: "string option \<Rightarrow> Entry \<Rightarrow> string \<Rightarrow> int \<Rightarrow> search_error + string" where
  "GetProjectRootByMakefile workDir disk currentPath maxDepth =
     searchProjectRootFromTopToBottom workDir disk currentPath 0 maxDepth"

text \<open>The folder that is \<open>k\<close> levels up; the root is above itself.\<close>

definition climb :: "nat \<Rightarrow> string list \<Rightarrow> string list" where
  "climb k q = take (length q - k) q"

lemma climb_simps: "climb 0 q = q" "climb k (butlast q) = climb (Suc k) q"
  by (simp_all add: climb_def butlast_conv_take min_def)

definition has_makefile :: "Entry \<Rightarrow> string list \<Rightarrow> bool" where
  "has_makefile disk q \<longleftrightarrow> (case lookup disk q of Some (Folder es failed) \<Rightarrow> list_ex (\<lambda>(n, e). n = ''Makefile'') es | _ \<Rightarrow> False)"

fun is_folder :: "Entry option \<Rightarrow> bool" where
  "is_folder (Some (Folder es False)) \<longleftrightarrow> True"
| "is_folder e \<longleftrightarrow> False"

lemma parent_path:
  assumes "list_all part_ok q"
  shows "Abs workDir (abs_path q @ ''/..'') = Some (abs_path (butlast q))"
proof -
  have dots: "slash \<notin> set ''..''" by (simp add: slash_def)
  have "split_on slash (path q @ slash # ''..'') = (if q = [] then [[], ''..''] else q @ [''..''])"
  proof (cases "q = []")
    case False
    then have "path q @ slash # ''..'' = path (q @ [''..''])" by (simp add: path_append)
    then show ?thesis using False assms dots by (simp add: split_on_join plain_parts)
  qed (use split_on_plain [OF dots] in simp)
  then have "Clean (slash # path q @ slash # ''..'') = abs_path (butlast q)"
    using assms clean_parts [OF assms, of True "[]"] by (auto simp: Clean_rooted cleanStep_def part_ok_def list_all_iff)
  then show ?thesis by (simp add: Abs_def slash_def)
qed

lemma search_climbs:
  assumes "list_all part_ok q" and "\<And>k. is_folder (lookup disk (climb k q))" and "depth \<le> maxDepth + 1"
  shows "searchProjectRootFromTopToBottom workDir disk (abs_path q) depth maxDepth =
    (case List.find (\<lambda>k. has_makefile disk (climb k q)) [0..<nat (maxDepth + 1 - depth)] of
       Some k \<Rightarrow> Inr (abs_path (climb k q)) | None \<Rightarrow> Inl (TooDeep (maxDepth + 1)))"
  using assms
proof (induction "nat (maxDepth + 1 - depth)" arbitrary: q depth)
  case 0
  then show ?case by (simp add: searchProjectRootFromTopToBottom.simps [of _ _ _ depth])
next
  case (Suc n)
  obtain es where es: "lookup disk q = Some (Folder es False)"
    using Suc.prems(2) [of 0] by (cases "lookup disk q" rule: is_folder.cases) (auto simp: climb_simps)
  have "Abs workDir (abs_path q) = Some (abs_path q)"
    using Suc.prems(1) by (simp add: Abs_def Clean_rooted split_path clean_parts cleanStep_def)
  then have read: "ReadDir workDir disk (abs_path q) = Some (map fst es)"
    using es Suc.prems(1) by (simp add: ReadDir_def)
  have here: "list_ex (\<lambda>f. f = ''Makefile'') (map fst es) = has_makefile disk q"
    by (force simp: has_makefile_def es list_ex_iff)
  have upt: "[0..<nat (maxDepth + 1 - depth)] = 0 # map Suc [0..<n]"
    using Suc.hyps(2) by (metis map_Suc_upt upt_conv_Cons zero_less_Suc)
  have find_Suc: "List.find P (map Suc ks) = map_option Suc (List.find (\<lambda>k. P (Suc k)) ks)" for P ks
    by (induction ks) simp_all
  have "list_all part_ok (butlast q)" using Suc.prems(1) by (auto simp: list_all_iff dest: in_set_butlastD)
  moreover have "is_folder (lookup disk (climb k (butlast q)))" for k using Suc.prems(2) [of "Suc k"] by (simp add: climb_simps)
  moreover have "n = nat (maxDepth + 1 - (depth + 1))" "depth + 1 \<le> maxDepth + 1" "\<not> depth > maxDepth"
    using Suc.hyps(2) by auto
  ultimately have up: "searchProjectRootFromTopToBottom workDir disk (abs_path (butlast q)) (depth + 1) maxDepth =
      (case List.find (\<lambda>k. has_makefile disk (climb (Suc k) q)) [0..<n] of
         Some k \<Rightarrow> Inr (abs_path (climb (Suc k) q)) | None \<Rightarrow> Inl (TooDeep (maxDepth + 1)))"
    using Suc.hyps(1) [of "depth + 1" "butlast q"] by (simp add: climb_simps cong: option.case_cong)
  have "\<not> depth > maxDepth" using Suc.hyps(2) by auto
  then have "searchProjectRootFromTopToBottom workDir disk (abs_path q) depth maxDepth =
      (if has_makefile disk q then Inr (abs_path q)
       else searchProjectRootFromTopToBottom workDir disk (abs_path (butlast q)) (depth + 1) maxDepth)"
    unfolding searchProjectRootFromTopToBottom.simps [of workDir disk "abs_path q" depth]
    by (simp only: read here parent_path [OF Suc.prems(1)] option.case if_False)
  then show ?case
    by (cases "List.find (\<lambda>k. has_makefile disk (climb (Suc k) q)) [0..<n]") (simp_all add: up upt find_Suc climb_simps)
qed

text \<open>The nearest folder with a Makefile, from the given one upwards.\<close>

lemma GetProjectRootByMakefile_nearest:
  assumes "list_all part_ok q" and "\<And>k. is_folder (lookup disk (climb k q))" and "0 \<le> maxDepth"
  shows "GetProjectRootByMakefile workDir disk (abs_path q) maxDepth =
    (case List.find (\<lambda>k. has_makefile disk (climb k q)) [0..<Suc (nat maxDepth)] of
       Some k \<Rightarrow> Inr (abs_path (climb k q)) | None \<Rightarrow> Inl (TooDeep (maxDepth + 1)))"
proof -
  have "nat (maxDepth + 1 - 0) = Suc (nat maxDepth)" using assms(3) by simp
  then show ?thesis using search_climbs [OF assms(1,2), of 0 maxDepth workDir] assms(3)
    by (simp only: GetProjectRootByMakefile_def)
qed

end
