(* ===== verification/Spec2Isabelle.thy ===== *)
theory Spec2Isabelle
  imports Wire_Properties Message_Hazards Servo_Memory Dataset_Run Dataset_Pictures Station_Tools
    Proto_Properties Go_Names Go_Schema Gremlinc_Results Gremlinc_Tools
begin

text \<open>
  A verification library for the Go code of the norma-core repository. Paths are below \<^verbatim>\<open>src/\<close>.

  \<^bold>\<open>The program.\<close> A station records the state of robots as protobuf messages in append-only queues.
  \<^verbatim>\<open>shared/gremlin_go\<close> is its own protobuf: \<^verbatim>\<open>gremlinc\<close> reads \<^verbatim>\<open>.proto\<close> files, resolves names, imports
  and options, and emits one Go struct and one lazy reader per message; the emitted code calls a runtime
  for the wire format. \<^verbatim>\<open>software/station/bin/dataset-generator\<close> finds the part of a queue of frames that
  belongs to a range of inference states, streams it, cuts it into episodes, writes them to parquet files
  and shows its progress in the terminal. \<^verbatim>\<open>software/station/bin/dataset-mp4\<close> reads the merged dataset
  back and renders episodes side by side. \<^verbatim>\<open>software/drivers/st3215\<close> reads the memory of a servo.

  \<^bold>\<open>Prelude and Go.\<close> \<open>Prelude\<close> has Go's two ways not to return a value (a panic and a non-nil error) as
  a sum, their sequencing (\<open>andThen\<close>, \<open>foldE\<close>), the collections of simplification rules, and the locale
  \<open>driven\<close> of handlers run over a sequence of events. \<open>Go_Runtime\<close> has the 64-bit \<open>int\<close> with its
  wrap-around and slices with a length and a capacity, since the code relies on both;
  \<open>Go_Strings\<close> the functions of the \<^verbatim>\<open>strings\<close> package.

  \<^bold>\<open>The wire format\<close> (\<^verbatim>\<open>reader.go\<close>, \<^verbatim>\<open>reading.go\<close>, \<^verbatim>\<open>writer.go\<close>). \<open>Wire_Reader\<close> and \<open>Wire_Writer\<close> hold one
  definition per method, the unrolled varint code included, on machine words. \<open>Varint\<close> is the reference
  encoding in base 128; \<open>Wire_Values\<close> relates buffers to the bytes written and read. The locale
  \<open>wire_scalar\<close> in \<open>Scalar_Values\<close> states what generated code relies on for a scalar type (size, append,
  read, sized read and skip agree on one encoding); it is interpreted for the thirteen families of
  the runtime. \<open>Wire_Properties\<close>: sizes, round trips, totality of the varint reader.

  \<^bold>\<open>Generated messages\<close> (\<^verbatim>\<open>gremlinc/internal/generators/golang/fields\<close> and \<^verbatim>\<open>types\<close>). The templates emit
  code, whose text is in \<open>Go_Templates\<close>; the definitions here are what the emitted code does, with the schema as an argument: a table from a
  message to its fields with their tags and types. \<open>Message_Writer\<close> has the size calculation, \<open>MarshalTo\<close>
  and \<open>Marshal\<close>; \<open>Message_Reader\<close> the offsets saved by \<open>Unmarshal\<close>, the getters with their caches,
  \<open>ToStruct\<close> and \<open>Copy\<close>. \<open>Message_Encoding\<close> is the abstract specification: the encoding of a message as
  the concatenation of items of a tag and a payload; the writers refine it. \<open>Message_Roundtrip\<close> has the readers
  against it, \<open>Message_Properties\<close> the statements on whole messages for every schema and typed value, and
  \<open>Message_Hazards\<close> runs on hostile input, for every amount of fuel where the code never returns.

  \<^bold>\<open>The generator's front end\<close> (\<^verbatim>\<open>gremlinc/internal\<close>). \<open>Scoped_Name\<close> is \<^verbatim>\<open>types/scopes.go\<close> with the list
  of components as its abstraction. \<open>Scope_Walk\<close> has the loop from a scope outwards that four
  functions of \<^verbatim>\<open>resolving.go\<close> share, and its contract as the locale \<open>scoping\<close>, interpreted on scoped names.
  \<open>Proto_File\<close> is the data of \<^verbatim>\<open>types\<close>; \<open>Proto_Parser\<close> is \<^verbatim>\<open>parser.go\<close> over the parse tree of
  \<^verbatim>\<open>emicklei/proto\<close>; \<open>Proto_Imports\<close> is \<^verbatim>\<open>imports.go\<close> with its tree of directories, compared with the longest
  common prefix; \<open>Proto_Resolving\<close> is \<^verbatim>\<open>resolving.go\<close> and the order of its passes. Pointers to files and
  definitions are indices into their lists. \<open>Proto_Properties\<close>: what a resolved reference
  means, and inputs on which resolution goes wrong.

  \<^bold>\<open>The generator's back end\<close> (\<^verbatim>\<open>gremlinc/internal/generators/golang\<close>). \<open>Go_Paths\<close> is what is used of
  \<^verbatim>\<open>path/filepath\<close>. \<open>Go_Files\<close> is \<^verbatim>\<open>core/files.go\<close>, \<^verbatim>\<open>types/enums.go\<close> and the names of \<^verbatim>\<open>types/structs.go\<close>
  and \<^verbatim>\<open>types/fields.go\<close>; \<open>Go_Mapper\<close> is \<^verbatim>\<open>fields/types.go\<close>, the default values of \<^verbatim>\<open>fields/scalar.go\<close> and the
  package \<^verbatim>\<open>mapper\<close>. \<open>Go_Templates\<close> is the text of a struct, its reader and a whole file, line by line: every
  method of \<^verbatim>\<open>fields\<close>, \<^verbatim>\<open>types/structs.go\<close> and \<^verbatim>\<open>types/fields.go\<close> that emits code, \<^verbatim>\<open>formatting/tabs.go\<close>, and
  \<^verbatim>\<open>Generate\<close>; \<open>Go_Text\<close> shows that none of them panics on mapped files and that the brackets of the text are
  balanced. \<open>Go_Mapper_Properties\<close> has one field: its type names the definition it refers to;
  \<open>Go_Mapping\<close> carries this over all fields of all files; \<open>Go_Linking\<close> shows that the passes of the front end,
  when they report nothing, leave the links the mapper needs, so a run from parse trees to Go files
  succeeds; \<open>Go_Schema\<close> reads the files as a schema of the emitted code, with names looked up as a Go compiler
  does, and so connects the generator with the round trip of the messages; \<open>Go_Names\<close> has packages, output
  paths, the \<open>String\<close> of enums, and names that collide.

  \<^bold>\<open>The generator as a program.\<close> \<open>Gremlinc_Walk\<close> is \<^verbatim>\<open>paths.go\<close> and \<^verbatim>\<open>reader.go\<close> over a disk that is a tree, with the
  parser as a parameter; \<open>Gremlinc_Files\<close> compares the walk with a filter over all leaves and shows that the order
  in which files are parsed does not matter. \<open>Gremlinc_Run\<close> is \<^verbatim>\<open>main.go\<close>: every way a run can end and the files it
  leaves; \<open>Gremlinc_Results\<close> takes the front end and the back end together, from a folder to
  the Go files written. \<open>Gremlinc_Tools\<close> is \<^verbatim>\<open>pathutils.go\<close>.

  \<^bold>\<open>The dataset tools.\<close> \<open>Station_Queue\<close> has what is used of the station client: reads from an offset over a
  fixed queue and \<open>uintn\<close> pointers that behave as numbers; both are parameters with the laws \<open>stored\<close> and
  \<open>uintn_ok\<close>, and the witnesses instantiate them. \<open>Queue_Bounds\<close> and \<open>Queue_Properties\<close> are \<^verbatim>\<open>bounds.go\<close>,
  the searches compared with one pass over the queue. \<open>Frame_Stream\<close> is \<^verbatim>\<open>source.go\<close>. \<open>Episode_Detector\<close> and
  \<open>Episode_Properties\<close> are \<^verbatim>\<open>episodes.go\<close>: the state machine of the detector, with its invariant over any
  sequence of frames. \<open>Tui_Model\<close> and \<open>Tui_Properties\<close> are \<^verbatim>\<open>ui/model.go\<close> and \<^verbatim>\<open>ui/runner.go\<close>: the screen
  agrees with the detector, and drawing it. \<open>Dataset_Run\<close> composes these as \<^verbatim>\<open>runProcessing\<close> does.
  \<open>Dataset_Grid\<close> and \<open>Dataset_Grid_Properties\<close> are \<^verbatim>\<open>dataset-mp4.go\<close>: a dataset comes back as its episodes,
  and every episode is shown frame by frame. \<open>Render_Pool\<close> is the goroutines of its \<^verbatim>\<open>main\<close> as a step
  relation over their channels: the jobs go through workers, renderers of the render service and a
  collector; \<open>Render_Pool_Properties\<close> has the invariants (who may still send, which requests are open,
  how many jobs are where) and a measure that every step lowers, \<open>Render_Pool_Results\<close> what follows for every
  schedule: no deadlock, no send on a closed channel, an end, and each job drawn once with the renders of its
  own frames. \<open>Dataset_Draw\<close> is what \<open>renderGridFrame\<close> draws, as the list of calls of the drawing library, and
  \<open>Dataset_Pictures\<close> follows a dataset through the grids and the pool to the pictures. \<open>Servo_Memory\<close> is \<^verbatim>\<open>memory.go\<close>;
  \<open>Station_Tools\<close> has \<^verbatim>\<open>streams.go\<close>, the hook of \<^verbatim>\<open>console-tool.go\<close> and \<^verbatim>\<open>ulimits.go\<close>.

  \<^bold>\<open>Fuel and bounds.\<close> The loops over a buffer, over nested messages and over a queue take fuel, and
  running out of it is the value \<open>None\<close>, different from every result and every panic. Fuel above the
  length of the encoding is enough for a message (its nesting is below its length); fuel above the number
  of entries of the range is enough for the searches and the stream. The runs of the pool need no fuel:
  \<open>run_bound\<close> is the longest schedule for a number of jobs. The theorems about these state that the
  result is returned. Lengths are assumed below \<open>2 ^ 62\<close> bytes, half of the range of \<open>int\<close>.

  \<^bold>\<open>Not modelled.\<close> What the drawing library \<^verbatim>\<open>gg\<close> makes of its calls, the JPEG decoder and
  the answers of the render service (parameters) and \<^verbatim>\<open>ffmpeg\<close> in \<^verbatim>\<open>dataset-mp4\<close>; the parquet library (written and read rows are lists of frames); the \<^verbatim>\<open>bubbletea\<close> program
  around the screen; log lines, flags and other printing. Floating point values are carried as
  their bits; the arithmetic of rates and progress is a parameter. In \<^verbatim>\<open>gremlinc\<close>: the parser
  \<^verbatim>\<open>emicklei/proto\<close> (a parameter), and symbolic links; the text of a struct and what it does are modelled side by side, a Go compiler that
  would connect them is not, and what it makes of the text of a default value is a parameter.
  The generated \<^verbatim>\<open>pb2.go\<close> and \<^verbatim>\<open>pb.go\<close> files are instances of the templates or output of \<^verbatim>\<open>protoc\<close>, benchmarks
  and examples only call the rest. The repository's Rust, Python and TypeScript parts are outside.
\<close>

end
